(* ===== verification/Nnp_Prelude.thy ===== *)
theory Nnp_Prelude
  imports Main "HOL-Library.Word"
begin

text \<open>
  Shared vocabulary of the development: the fixed-width integer types of the C++ sources,
  the collections of rewrite rules the component theories add to, and generic facts about
  lists and words that more than one component needs.
\<close>

section \<open>Machine integers\<close>

type_synonym u8 = "8 word"
type_synonym u16 = "16 word"
type_synonym u32 = "32 word"
type_synonym u64 = "64 word"

text \<open>
  \<open>UINT16_MAX\<close>, \<open>UINT32_MAX\<close> of \<open>stdint.h\<close> (the timeout value that means
  "wait for ever" in every blocking call of the library).
\<close>

abbreviation UINT32_MAX :: u32 where
  "UINT32_MAX \<equiv> 0xFFFFFFFF"

section \<open>Collections\<close>

named_theorems nnp_defs \<open>definitions unfolded by the component proofs\<close>
named_theorems nnp_inv \<open>introduction rules: an operation keeps an invariant\<close>

section \<open>Outcomes\<close>

text \<open>
  What a call comes to in a state: it returns, it waits for another thread or the card, it
  runs for ever, or it has undefined behaviour (an access outside an object, a null
  dereference). \<open>obind\<close> runs a continuation on the result of a call that returns.
\<close>

datatype 'a outcome = Done 'a | Waits | Loops | Undefined

fun obind :: "'a outcome \<Rightarrow> ('a \<Rightarrow> 'b outcome) \<Rightarrow> 'b outcome" where
  "obind (Done x) f = f x"
| "obind Waits f = Waits"
| "obind Loops f = Loops"
| "obind Undefined f = Undefined"

lemma obind_Done_iff: "obind r f = Done y \<longleftrightarrow> (\<exists>x. r = Done x \<and> f x = Done y)"
  by (cases r) simp_all

lemma obind_assoc: "obind (obind r f) g = obind r (\<lambda>x. obind (f x) g)"
  by (cases r) simp_all

lemma obind_cong [fundef_cong]:
  "r = r' \<Longrightarrow> (\<And>x. r' = Done x \<Longrightarrow> f x = f' x) \<Longrightarrow> obind r f = obind r' f'"
  by (cases r') simp_all

text \<open>A loop that may not end, and its result when it does.\<close>

definition of_loop :: "'a outcome option \<Rightarrow> 'a outcome" where
  "of_loop r = (case r of None \<Rightarrow> Loops | Some q \<Rightarrow> q)"

lemma of_loop_simps [simp]: "of_loop None = Loops" "of_loop (Some q) = q"
  by (simp_all add: of_loop_def)

section \<open>Words\<close>

lemma unat_lt: "unat (a :: 'a::len word) < 2 ^ LENGTH('a)"
  by (rule unsigned_less)

lemma unat_add_no_wrap:
  "unat (a :: 'a::len word) + unat b < 2 ^ LENGTH('a) \<Longrightarrow> unat (a + b) = unat a + unat b"
  by (simp add: unat_word_ariths)

lemma unat_sub_no_wrap:
  "(b :: 'a::len word) \<le> a \<Longrightarrow> unat (a - b) = unat a - unat b"
  by (rule unat_sub)

lemma unat_add1_below:
  assumes "(a :: 'a::len word) < b"
  shows "unat (a + 1) = unat a + 1"
proof -
  have "unat a < unat b" using assms by (simp add: word_less_nat_alt)
  moreover have "unat b < 2 ^ LENGTH('a)" by (rule unat_lt)
  ultimately have "unat a + 1 < 2 ^ LENGTH('a)" by linarith
  then show ?thesis by (simp add: unat_word_ariths)
qed

lemma add1_le_iff: "(a :: 'a::len word) < b \<Longrightarrow> a + 1 \<le> x \<longleftrightarrow> a < x"
  using unat_add1_below [of a b] by (auto simp: word_le_nat_alt word_less_nat_alt)

lemma unat_pred: "(0 :: 'a::len word) < a \<Longrightarrow> unat (a - 1) = unat a - 1"
  using unat_sub_no_wrap [of 1 a] by (simp add: word_less_1 linorder_not_less [symmetric])

lemma le_pred_iff: "(0 :: 'a::len word) < b \<Longrightarrow> x \<le> b - 1 \<longleftrightarrow> x < b"
  using unat_pred [of b] by (auto simp: word_le_nat_alt word_less_nat_alt)

text \<open>Conversion to another unsigned type, the C cast that keeps the low bits.\<close>

lemma unat_ucast_mod: "unat (ucast (x :: 'a::len word) :: 'b::len word) = unat x mod 2 ^ LENGTH('b)"
  by (simp add: unsigned_ucast_eq take_bit_eq_mod)

lemma unat_ucast_id:
  "unat (x :: 'a::len word) < 2 ^ LENGTH('b) \<Longrightarrow> unat (ucast x :: 'b::len word) = unat x"
  by (simp add: unat_ucast_mod)

section \<open>Lists\<close>

lemma filter_set_empty: "(\<forall>x \<in> set xs. \<not> P x) \<Longrightarrow> filter P xs = []"
  by (induction xs) auto

lemma take_append_exact: "length xs = n \<Longrightarrow> take n (xs @ ys) = xs"
  by simp

lemma drop_append_exact: "length xs = n \<Longrightarrow> drop n (xs @ ys) = ys"
  by simp


section \<open>Little-endian bytes\<close>

fun le_bytes :: "nat \<Rightarrow> nat \<Rightarrow> u8 list" where
  "le_bytes 0 v = []"
| "le_bytes (Suc n) v = of_nat v # le_bytes n (v div 256)"

fun le_val :: "u8 list \<Rightarrow> nat" where
  "le_val [] = 0"
| "le_val (b # bs) = unat b + 256 * le_val bs"

lemma length_le_bytes [simp]: "length (le_bytes n v) = n"
  by (induction n arbitrary: v) auto

lemma le_bytes_1: "le_bytes 1 v = [of_nat v]"
  by simp

lemma le_bytes_2: "le_bytes 2 v = [of_nat v, of_nat (v div 256)]"
  by (simp add: numeral_2_eq_2)

lemma le_bytes_4:
  "le_bytes 4 v = [of_nat v, of_nat (v div 256), of_nat (v div 256 div 256),
     of_nat (v div 256 div 256 div 256)]"
proof -
  have "(4 :: nat) = Suc (Suc (Suc (Suc 0)))" by simp
  then show ?thesis by (simp only: le_bytes.simps)
qed

lemmas le_bytes_small = le_bytes_1 le_bytes_2 le_bytes_4

lemma le_val_le_bytes: "le_val (le_bytes n v) = v mod 256 ^ n"
proof (induction n arbitrary: v)
  case 0
  then show ?case by simp
next
  case (Suc n)
  have "le_val (le_bytes (Suc n) v) = v mod 256 + 256 * (v div 256 mod 256 ^ n)"
    using Suc by (simp add: unat_of_nat take_bit_eq_mod)
  also have "\<dots> = v mod (256 * 256 ^ n)" by (simp add: mod_mult2_eq)
  finally show ?case by simp
qed

lemma le_val_unat:
  "LENGTH('a) = 8 * n \<Longrightarrow> le_val (le_bytes n (unat (x :: 'a::len word))) = unat x"
proof -
  assume "LENGTH('a) = 8 * n"
  then have "unat x < 256 ^ n" using unat_lt [of x] by (simp add: power_mult)
  then show ?thesis by (simp add: le_val_le_bytes)
qed

text \<open>The bytes of a field inside a buffer.\<close>

definition bytes_at :: "nat \<Rightarrow> nat \<Rightarrow> u8 list \<Rightarrow> u8 list" where
  "bytes_at off n bs = take n (drop off bs)"

lemma bytes_at_append_left:
  "off + n \<le> length xs \<Longrightarrow> bytes_at off n (xs @ ys) = bytes_at off n xs"
  by (simp add: bytes_at_def)

lemma bytes_at_append_right:
  "length xs \<le> off \<Longrightarrow> bytes_at off n (xs @ ys) = bytes_at (off - length xs) n ys"
  by (simp add: bytes_at_def)

lemma bytes_at_0: "n = length xs \<Longrightarrow> bytes_at 0 n (xs @ ys) = xs"
  by (simp add: bytes_at_def)

end
