(* ===== verification/Std_Map.thy ===== *)
theory Std_Map
  imports Nnp_Prelude
begin

text \<open>
  \<open>std::map\<close> of the C++ standard library, as the sources use it: a sequence of
  (key, value) pairs in strictly increasing key order, which is also the order of iteration.
  \<open>m[k] = v\<close> is \<open>omap_update\<close>, \<open>m.erase(k)\<close> is \<open>omap_erase\<close>, \<open>m.find(k)\<close> is
  \<open>map_of\<close>. The interface the other components rely on is the locale \<open>ordered_map\<close>.
\<close>

section \<open>Operations\<close>

fun omap_update :: "'k::linorder \<Rightarrow> 'v \<Rightarrow> ('k \<times> 'v) list \<Rightarrow> ('k \<times> 'v) list" where
  "omap_update k v [] = [(k, v)]"
| "omap_update k v ((k', v') # m) =
     (if k < k' then (k, v) # (k', v') # m
      else if k = k' then (k, v) # m
      else (k', v') # omap_update k v m)"

fun omap_erase :: "'k::linorder \<Rightarrow> ('k \<times> 'v) list \<Rightarrow> ('k \<times> 'v) list" where
  "omap_erase k [] = []"
| "omap_erase k ((k', v') # m) = (if k = k' then m else (k', v') # omap_erase k m)"

definition omap_ok :: "('k::linorder \<times> 'v) list \<Rightarrow> bool" where
  "omap_ok m \<longleftrightarrow> sorted_wrt (<) (map fst m)"

section \<open>Laws\<close>

lemma omap_ok_Nil [simp]: "omap_ok []"
  by (simp add: omap_ok_def)

lemma omap_ok_Cons [simp]:
  "omap_ok ((k, v) # m) \<longleftrightarrow> (\<forall>k' \<in> fst ` set m. k < k') \<and> omap_ok m"
  by (auto simp: omap_ok_def)

lemma omap_ok_append:
  "omap_ok (xs @ ys) \<longleftrightarrow>
     omap_ok xs \<and> omap_ok ys \<and> (\<forall>x \<in> fst ` set xs. \<forall>y \<in> fst ` set ys. x < y)"
  by (simp add: omap_ok_def sorted_wrt_append)

lemma omap_ok_distinct: "omap_ok m \<Longrightarrow> distinct (map fst m)"
  unfolding omap_ok_def by (simp add: strict_sorted_iff)

lemma keys_omap_update [simp]: "fst ` set (omap_update k v m) = insert k (fst ` set m)"
  by (induction k v m rule: omap_update.induct) auto

lemma omap_ok_update [simp, nnp_inv]: "omap_ok m \<Longrightarrow> omap_ok (omap_update k v m)"
  by (induction k v m rule: omap_update.induct) auto

lemma keys_omap_erase: "omap_ok m \<Longrightarrow> fst ` set (omap_erase k m) = fst ` set m - {k}"
  by (induction k m rule: omap_erase.induct) auto

lemma omap_ok_erase [simp, nnp_inv]: "omap_ok m \<Longrightarrow> omap_ok (omap_erase k m)"
  by (induction k m rule: omap_erase.induct) (auto simp: keys_omap_erase)

lemma map_of_omap_update [simp]: "map_of (omap_update k v m) = (map_of m)(k \<mapsto> v)"
  by (induction k v m rule: omap_update.induct) (auto simp: fun_eq_iff)

lemma map_of_None_key: "k \<notin> fst ` set m \<Longrightarrow> map_of m k = None"
  by (simp add: map_of_eq_None_iff)

lemma map_of_omap_erase [simp]: "omap_ok m \<Longrightarrow> map_of (omap_erase k m) = (map_of m)(k := None)"
  by (induction k m rule: omap_erase.induct) (auto simp: fun_eq_iff map_of_eq_None_iff)

lemma length_omap_update:
  "length (omap_update k v m) = (if k \<in> fst ` set m then length m else Suc (length m))"
  if "omap_ok m"
  using that by (induction k v m rule: omap_update.induct) auto

text \<open>Where a key sits between two parts of the sequence.\<close>

lemma omap_update_append_right:
  "\<forall>x \<in> fst ` set xs. x < k \<Longrightarrow> omap_update k v (xs @ ys) = xs @ omap_update k v ys"
  by (induction xs) auto

lemma omap_update_below:
  "\<forall>x \<in> fst ` set m. k < x \<Longrightarrow> omap_update k v m = (k, v) # m"
  by (cases m) auto

lemma omap_erase_append_right:
  "\<forall>x \<in> fst ` set xs. x < k \<Longrightarrow> omap_erase k (xs @ ys) = xs @ omap_erase k ys"
  by (induction xs) auto

section \<open>The interface\<close>

text \<open>
  What the clients of \<open>std::map\<close> rely on: an insertion is seen by the next lookup and
  by no lookup of another key, an erased key is not found, and the order is kept.
\<close>

locale ordered_map =
  fixes upd :: "'k \<Rightarrow> 'v \<Rightarrow> 'm \<Rightarrow> 'm"
    and del :: "'k \<Rightarrow> 'm \<Rightarrow> 'm"
    and get :: "'m \<Rightarrow> 'k \<Rightarrow> 'v option"
    and ok :: "'m \<Rightarrow> bool"
  assumes get_upd: "get (upd k v m) = (get m)(k \<mapsto> v)"
    and get_del: "ok m \<Longrightarrow> get (del k m) = (get m)(k := None)"
    and ok_upd: "ok m \<Longrightarrow> ok (upd k v m)"
    and ok_del: "ok m \<Longrightarrow> ok (del k m)"
begin

lemma get_upd_same: "get (upd k v m) k = Some v"
  by (simp add: get_upd)

lemma get_upd_other: "k' \<noteq> k \<Longrightarrow> get (upd k v m) k' = get m k'"
  by (simp add: get_upd)

lemma get_del_same: "ok m \<Longrightarrow> get (del k m) k = None"
  by (simp add: get_del)

lemma get_del_other: "ok m \<Longrightarrow> k' \<noteq> k \<Longrightarrow> get (del k m) k' = get m k'"
  by (simp add: get_del)

lemma del_upd: "ok m \<Longrightarrow> get m k = None \<Longrightarrow> get (del k (upd k v m)) = get m"
  by (simp add: get_del get_upd ok_upd fun_eq_iff)

end

interpretation omap: ordered_map omap_update omap_erase map_of omap_ok
  by unfold_locales auto

end
