(* ===== verification/Id_Allocator.thy ===== *)
theory Id_Allocator
  imports Std_Map
begin

text \<open>
  \<open>nnpiIDA\<close> (\<open>nnpiUtils.h\<close>, \<open>nnpiUtils.cpp\<close>): the allocator of the 16-bit protocol ids of
  device resources, copies, networks, infer requests and command lists. Its state is a
  \<open>std::map\<close> of free ranges, first id to last id, and a counter of allocated ids.
\<close>

section \<open>Operations\<close>

record ida =
  m_free_ranges :: "(u32 \<times> u32) list"
  m_num_alloc :: u32

definition ida_init :: "u32 \<Rightarrow> ida" where
  "ida_init max_id = \<lparr>m_free_ranges = [(0, max_id)], m_num_alloc = 0\<rparr>"

text \<open>\<open>alloc\<close>: \<open>None\<close> is the return value -1, \<open>Some id\<close> is 0 with \<open>out_id\<close> set.\<close>

definition ida_alloc :: "ida \<Rightarrow> u32 option \<times> ida" where
  "ida_alloc s =
     (case m_free_ranges s of
        [] \<Rightarrow> (None, s)
      | (lo, hi) # _ \<Rightarrow>
          let m = (if lo < hi then omap_update (lo + 1) hi (m_free_ranges s)
                   else m_free_ranges s)
          in (Some lo, s\<lparr>m_free_ranges := omap_erase lo m,
                            m_num_alloc := m_num_alloc s + 1\<rparr>))"

text \<open>
  The loop of \<open>free\<close>: \<open>it\<close> is what is left of the iteration, \<open>m\<close> the whole map. The first
  range that starts right after the id, or ends right before it, is extended.
\<close>

fun ida_free_loop :: "u32 \<Rightarrow> (u32 \<times> u32) list \<Rightarrow> (u32 \<times> u32) list \<Rightarrow> (u32 \<times> u32) list" where
  "ida_free_loop i [] m = omap_update i i m"
| "ida_free_loop i ((lo, hi) # it) m =
     (if lo = i + 1 then omap_erase lo (omap_update i hi m)
      else if hi = i - 1 then omap_update lo i m
      else ida_free_loop i it m)"

definition ida_free :: "u32 \<Rightarrow> ida \<Rightarrow> ida" where
  "ida_free i s = s\<lparr>m_num_alloc := m_num_alloc s - 1,
                    m_free_ranges := ida_free_loop i (m_free_ranges s) (m_free_ranges s)\<rparr>"

definition get_num_alloc :: "ida \<Rightarrow> u32" where
  "get_num_alloc s = m_num_alloc s"

section \<open>Abstraction: the set of free ids\<close>

definition range_ids :: "(u32 \<times> u32) list \<Rightarrow> u32 set" where
  "range_ids m = (\<Union>(a, b) \<in> set m. {a..b})"

definition ida_free_ids :: "ida \<Rightarrow> u32 set" where
  "ida_free_ids s = range_ids (m_free_ranges s)"

text \<open>Non-empty ranges, each ending before the next one starts.\<close>

fun ranges_ok :: "(u32 \<times> u32) list \<Rightarrow> bool" where
  "ranges_ok [] = True"
| "ranges_ok ((a, b) # m) = (a \<le> b \<and> (\<forall>c \<in> fst ` set m. b < c) \<and> ranges_ok m)"

definition ida_inv :: "u32 \<Rightarrow> ida \<Rightarrow> bool" where
  "ida_inv max_id s \<longleftrightarrow>
     ranges_ok (m_free_ranges s) \<and> ida_free_ids s \<subseteq> {0..max_id} \<and> max_id < UINT32_MAX
     \<and> unat (m_num_alloc s) + card (ida_free_ids s) = unat max_id + 1"

lemma range_ids_simps [simp]:
  "range_ids [] = {}"
  "range_ids ((a, b) # m) = {a..b} \<union> range_ids m"
  "range_ids (xs @ ys) = range_ids xs \<union> range_ids ys"
  by (auto simp: range_ids_def)

lemma finite_ids [simp]: "finite (A :: u32 set)"
  by (rule finite_subset [OF subset_UNIV]) simp

lemma in_range_ids_iff: "x \<in> range_ids m \<longleftrightarrow> (\<exists>a b. (a, b) \<in> set m \<and> a \<le> x \<and> x \<le> b)"
  by (induction m rule: ranges_ok.induct) (simp, simp, blast)

lemma ranges_ok_append:
  "ranges_ok (xs @ ys) \<longleftrightarrow>
     ranges_ok xs \<and> ranges_ok ys \<and> (\<forall>b \<in> snd ` set xs. \<forall>c \<in> fst ` set ys. b < c)"
  by (induction xs rule: ranges_ok.induct) (simp_all add: ball_Un, blast)

lemma ranges_ok_mem: "ranges_ok m \<Longrightarrow> (a, b) \<in> set m \<Longrightarrow> a \<le> b"
  by (induction m) auto

lemma ranges_ok_keys: "ranges_ok m \<Longrightarrow> omap_ok m"
  by (induction m rule: ranges_ok.induct) (auto dest: le_less_trans)

lemma ranges_ok_above:
  "\<forall>c \<in> fst ` set m. b < c \<Longrightarrow> x \<in> range_ids m \<Longrightarrow> b < x"
  by (fastforce simp: in_range_ids_iff dest: less_le_trans)

text \<open>Around an id that is not free, a range lies wholly below or wholly above it.\<close>

lemma range_side:
  "(a, b) \<in> set m \<Longrightarrow> i \<notin> range_ids m \<Longrightarrow> b < i \<or> i < a"
  by (metis in_range_ids_iff not_le)

section \<open>Allocation\<close>

lemma ida_alloc_Cons:
  assumes "ranges_ok ((a, b) # m)" and "m_free_ranges s = (a, b) # m"
  shows "ida_alloc s =
    (Some a, s\<lparr>m_free_ranges := (if a < b then (a + 1, b) # m else m),
               m_num_alloc := m_num_alloc s + 1\<rparr>)"
proof (cases "a < b")
  case True
  then have "a < a + 1" by (simp add: word_less_nat_alt unat_add1_below)
  moreover have "\<forall>x \<in> fst ` set m. a + 1 < x"
    using assms(1) True inc_le [OF True] by (auto dest: le_less_trans)
  ultimately show ?thesis
    using True assms(2) by (auto simp: ida_alloc_def Let_def omap_update_below)
next
  case False
  with assms(2) show ?thesis by (simp add: ida_alloc_def Let_def)
qed

lemma range_split_first: "(a :: u32) < b \<Longrightarrow> {a..b} - {a} = {a + 1..b}"
  by (auto simp: add1_le_iff)

lemma unat_incr: "unat (x :: u32) < unat (y :: u32) \<Longrightarrow> unat (x + 1) = unat x + 1"
  by (rule unat_add1_below [of x y]) (simp add: word_less_nat_alt)

text \<open>
  One allocation: it fails exactly when no id is free; otherwise it hands out the least free
  id, which stops being free, and keeps the invariant.
\<close>

lemma ida_alloc_None: "ida_inv max_id s \<Longrightarrow> ida_free_ids s = {} \<Longrightarrow> ida_alloc s = (None, s)"
  by (cases "m_free_ranges s") (auto simp: ida_alloc_def ida_free_ids_def ida_inv_def)

lemma ida_alloc_Some:
  assumes inv: "ida_inv max_id s" and ne: "ida_free_ids s \<noteq> {}"
  obtains i s' where "ida_alloc s = (Some i, s')" and "i \<in> ida_free_ids s"
    and "\<forall>j \<in> ida_free_ids s. i \<le> j" and "ida_free_ids s' = ida_free_ids s - {i}"
    and "ida_inv max_id s'"
proof -
  from ne obtain a b m where r: "m_free_ranges s = (a, b) # m"
    by (cases "m_free_ranges s") (auto simp: ida_free_ids_def)
  with inv have ok: "ranges_ok ((a, b) # m)" by (simp add: ida_inv_def)
  define s' where "s' = snd (ida_alloc s)"
  have al: "ida_alloc s = (Some a, s')"
    by (simp add: s'_def ida_alloc_Cons [OF ok r])
  have fr: "m_free_ranges s' = (if a < b then (a + 1, b) # m else m)"
    and na: "m_num_alloc s' = m_num_alloc s + 1"
    by (simp_all add: s'_def ida_alloc_Cons [OF ok r])
  have mem: "a \<in> ida_free_ids s" using ok r by (simp add: ida_free_ids_def)
  have "\<forall>c \<in> fst ` set m. b < c" using ok by simp
  then have above: "\<forall>x \<in> range_ids m. b < x" using ranges_ok_above by blast
  then have least: "\<forall>j \<in> ida_free_ids s. a \<le> j"
    using ok r by (auto simp: ida_free_ids_def)
  have ids: "ida_free_ids s' = ida_free_ids s - {a}"
    using ok r fr above by (auto simp: ida_free_ids_def range_split_first [symmetric])
  have "ranges_ok (m_free_ranges s')"
    using ok fr by (auto simp: add1_le_iff)
  moreover have "unat (m_num_alloc s') + card (ida_free_ids s') = unat max_id + 1"
  proof -
    have c: "card (ida_free_ids s) = card (ida_free_ids s') + 1"
      using mem ids by (simp add: card_Suc_Diff1 del: card_Diff_insert)
    then have "unat (m_num_alloc s) < unat max_id + 1"
      using inv by (simp add: ida_inv_def)
    moreover have "unat max_id < unat UINT32_MAX"
      using inv unfolding ida_inv_def word_less_nat_alt by blast
    ultimately have "unat (m_num_alloc s') = unat (m_num_alloc s) + 1"
      unfolding na by (intro unat_incr [of _ UINT32_MAX]) simp
    with c inv show ?thesis by (simp add: ida_inv_def)
  qed
  ultimately have "ida_inv max_id s'"
    using inv ids by (auto simp: ida_inv_def)
  with al mem least ids show thesis by (rule that)
qed


section \<open>Release\<close>

text \<open>What the loop does, by the range it stops at.\<close>

lemma ida_free_loop_cases:
  obtains
    (after) pre hi post where "it = pre @ (i + 1, hi) # post"
      "ida_free_loop i it m = omap_erase (i + 1) (omap_update i hi m)"
      "\<forall>b \<in> snd ` set pre. b \<noteq> i - 1"
  | (before) pre lo post where "it = pre @ (lo, i - 1) # post"
      "ida_free_loop i it m = omap_update lo i m" "lo \<noteq> i + 1"
  | (alone) "ida_free_loop i it m = omap_update i i m"
      "\<forall>b \<in> snd ` set it. b \<noteq> i - 1" "\<forall>a \<in> fst ` set it. a \<noteq> i + 1"
proof (induction i it m rule: ida_free_loop.induct)
  case (1 i m)
  then show ?case by simp
next
  case (2 i lo hi it m)
  show ?case
  proof (cases "lo = i + 1")
    case True
    then show ?thesis by (intro "2.prems"(1) [of "[]" hi it]) auto
  next
    case ne: False
    show ?thesis
    proof (cases "hi = i - 1")
      case True
      with ne show ?thesis by (intro "2.prems"(2) [of "[]" lo it]) auto
    next
      case False
      show ?thesis
      proof (rule "2.IH" [OF ne False])
        fix pre h post
        assume "it = pre @ (i + 1, h) # post"
          "ida_free_loop i it m = omap_erase (i + 1) (omap_update i h m)"
          "\<forall>b \<in> snd ` set pre. b \<noteq> i - 1"
        with ne False show ?thesis
          by (intro "2.prems"(1) [of "(lo, hi) # pre" h post]) auto
      next
        fix pre l post
        assume "it = pre @ (l, i - 1) # post" "ida_free_loop i it m = omap_update l i m"
          "l \<noteq> i + 1"
        with ne False show ?thesis
          by (intro "2.prems"(2) [of "(lo, hi) # pre" l post]) auto
      next
        assume "ida_free_loop i it m = omap_update i i m"
          "\<forall>b \<in> snd ` set it. b \<noteq> i - 1" "\<forall>a \<in> fst ` set it. a \<noteq> i + 1"
        with ne False show ?thesis by (intro "2.prems"(3)) auto
      qed
    qed
  qed
qed

text \<open>A map of ranges splits around an id that no range holds.\<close>

lemma ranges_split:
  assumes "ranges_ok m" and "i \<notin> range_ids m"
  obtains pre post where "m = pre @ post" "\<forall>b \<in> snd ` set pre. b < i" "\<forall>a \<in> fst ` set post. i < a"
  using assms
proof (induction m arbitrary: thesis rule: ranges_ok.induct)
  case 1
  then show ?case by simp
next
  case (2 a b m)
  show ?case
  proof (cases "b < i")
    case True
    from "2.prems" obtain pre post where "m = pre @ post" "\<forall>b \<in> snd ` set pre. b < i"
      "\<forall>a \<in> fst ` set post. i < a"
      by (auto intro: "2.IH")
    with True show ?thesis by (intro "2.prems"(1) [of "(a, b) # pre" post]) auto
  next
    case False
    with "2.prems" have "i < a" using range_side [of a b "(a, b) # m" i] by auto
    with "2.prems" show ?thesis
      by (intro "2.prems"(1) [of "[]" "(a, b) # m"]) (auto dest: less_le_trans less_trans)
  qed
qed


text \<open>The range around the released id, put between the ranges below and above it.\<close>

lemma ranges_ok_insert:
  assumes "ranges_ok pre" and "ranges_ok post" and "lo \<le> hi"
    and "\<forall>b \<in> snd ` set pre. b < lo" and "\<forall>a \<in> fst ` set post. hi < a"
  shows "ranges_ok (pre @ (lo, hi) # post)"
proof -
  have "\<forall>b \<in> snd ` set pre. \<forall>a \<in> fst ` set post. b < a"
    using assms by (meson le_less_trans less_trans)
  with assms show ?thesis by (auto simp: ranges_ok_append)
qed

lemma starts_below:
  assumes "ranges_ok m" and "\<forall>b \<in> snd ` set m. b < (x :: u32)"
  shows "\<forall>a \<in> fst ` set m. a < x"
proof
  fix a assume "a \<in> fst ` set m"
  then obtain b where "(a, b) \<in> set m" by auto
  with assms have "a \<le> b" "b < x" using ranges_ok_mem by (blast, force)
  then show "a < x" by (rule le_less_trans)
qed

lemma ends_strictly_below:
  assumes "ranges_ok m" and "i \<notin> range_ids m" and "\<forall>b \<in> snd ` set m. b \<le> (i :: u32)"
  shows "\<forall>b \<in> snd ` set m. b < i"
proof
  fix b assume "b \<in> snd ` set m"
  then obtain a where ab: "(a, b) \<in> set m" by auto
  with assms have "a \<le> b" "b \<le> i" using ranges_ok_mem by (blast, force)
  with range_side [OF ab assms(2)] show "b < i" by auto
qed

lemma range_join_after: "(i :: u32) < hi \<or> i < i + 1 \<Longrightarrow> i + 1 \<le> hi \<Longrightarrow> {i..hi} = insert i {i + 1..hi}"
proof -
  assume a: "i < hi \<or> i < i + 1" "i + 1 \<le> hi"
  then have "i < hi" by auto
  then show ?thesis by (auto simp: add1_le_iff)
qed

lemma range_join_before: "0 < (i :: u32) \<Longrightarrow> lo \<le> i - 1 \<Longrightarrow> {lo..i} = insert i {lo..i - 1}"
  by (auto simp: le_pred_iff)

text \<open>
  The loop, run on a well-formed map of ranges: it adds exactly the released id and keeps the
  ranges well formed, whichever of its three exits it takes.
\<close>

lemma ida_free_loop_ok:
  assumes ok: "ranges_ok m" and nf: "i \<notin> range_ids m"
    and top: "range_ids m \<subseteq> {0..mx}" "i \<le> mx" "mx < UINT32_MAX"
  shows "ranges_ok (ida_free_loop i m m) \<and> range_ids (ida_free_loop i m m) = insert i (range_ids m)"
proof -
  have i_max: "i < UINT32_MAX" using top(2,3) by (rule le_less_trans)
  then have i1: "i < i + 1" using unat_add1_below [of i UINT32_MAX] by (simp add: word_less_nat_alt)
  show ?thesis
  proof (cases rule: ida_free_loop_cases [where i = i and it = m and m = m])
    case (after pre hi post)
    with ok have r: "ranges_ok pre" "ranges_ok post" "i + 1 \<le> hi"
      and above: "\<forall>a \<in> fst ` set post. hi < a" and b1: "\<forall>b \<in> snd ` set pre. b < i + 1"
      by (auto simp: ranges_ok_append)
    have "\<forall>b \<in> snd ` set pre. b \<le> i"
      using b1 add1_le_iff [OF i_max] by (meson not_le)
    then have below: "\<forall>b \<in> snd ` set pre. b < i"
      using nf after(1) r(1) by (intro ends_strictly_below) auto
    then have kbelow: "\<forall>a \<in> fst ` set pre. a < i" by (rule starts_below [OF r(1)])
    with i1 have k1: "\<forall>a \<in> fst ` set pre. a < i + 1" by (auto dest: less_trans)
    have "omap_update i hi m = pre @ (i, hi) # (i + 1, hi) # post"
      using kbelow i1 above r(3) after(1)
      by (simp add: omap_update_append_right)
    then have res: "ida_free_loop i m m = pre @ (i, hi) # post"
      using k1 i1 after(2) by (simp add: omap_erase_append_right)
    have "i \<le> hi" using i1 r(3) by auto
    with r above below have "ranges_ok (pre @ (i, hi) # post)" by (intro ranges_ok_insert)
    moreover have "range_ids (pre @ (i, hi) # post) = insert i (range_ids m)"
      by (simp add: after(1) range_join_after [OF disjI2 [OF i1] r(3)])
    ultimately show ?thesis by (simp add: res)
  next
    case (before pre lo post)
    with ok have r: "ranges_ok pre" "ranges_ok post" "lo \<le> i - 1"
      and b1: "\<forall>a \<in> fst ` set post. i - 1 < a" and below: "\<forall>b \<in> snd ` set pre. b < lo"
      by (auto simp: ranges_ok_append)
    have "i - 1 \<in> range_ids m" using before(1) r(3) by simp
    with top(1) have "i - 1 \<le> mx" by auto
    then have "i - 1 < UINT32_MAX" using top(3) by (rule le_less_trans)
    then have "i \<noteq> 0" by auto
    then have i0: "0 < i" by (simp add: word_gt_0)
    have "lo \<le> i" using r(3) i0 le_pred_iff [OF i0, of lo] by auto
    have above: "\<forall>a \<in> fst ` set post. i < a"
    proof
      fix a assume a: "a \<in> fst ` set post"
      then obtain b where ab: "(a, b) \<in> set post" by auto
      then have "a \<le> b" using r(2) ranges_ok_mem by blast
      moreover have "b < i \<or> i < a" using ab before(1) nf range_side [of a b m i] by simp
      moreover have "i \<le> a" using a b1 le_pred_iff [OF i0, of a] by (metis not_le)
      ultimately show "i < a" by (metis le_less_trans not_le)
    qed
    have "\<forall>a \<in> fst ` set pre. a < lo" by (rule starts_below [OF r(1) below])
    then have res: "ida_free_loop i m m = pre @ (lo, i) # post"
      using before(1,2) by (simp add: omap_update_append_right)
    have "ranges_ok (pre @ (lo, i) # post)"
      using r above below \<open>lo \<le> i\<close> by (intro ranges_ok_insert)
    moreover have "range_ids (pre @ (lo, i) # post) = insert i (range_ids m)"
      by (simp add: before(1) range_join_before [OF i0 r(3)])
    ultimately show ?thesis by (simp add: res)
  next
    case alone
    from ok nf obtain pre post where m: "m = pre @ post"
      and sides: "\<forall>b \<in> snd ` set pre. b < i" "\<forall>a \<in> fst ` set post. i < a"
      by (rule ranges_split)
    have r: "ranges_ok pre" "ranges_ok post" using ok m by (auto simp: ranges_ok_append)
    have "\<forall>a \<in> fst ` set pre. a < i" by (rule starts_below [OF r(1) sides(1)])
    then have "ida_free_loop i m m = pre @ (i, i) # post"
      using alone(1) m sides(2) by (simp add: omap_update_append_right omap_update_below)
    moreover have "ranges_ok (pre @ (i, i) # post)"
      using r sides by (intro ranges_ok_insert) auto
    ultimately show ?thesis by (simp add: m)
  qed
qed

lemma card_ids_upto: "card {0..mx :: u32} = unat mx + 1"
proof -
  have "{0..mx} = of_nat ` {0..unat mx}"
  proof (intro set_eqI iffI)
    fix x assume "x \<in> {0..mx}"
    then have "x = of_nat (unat x)" "unat x \<in> {0..unat mx}" by (auto simp: word_le_nat_alt)
    then show "x \<in> of_nat ` {0..unat mx}" by blast
  next
    fix x :: u32 assume "x \<in> of_nat ` {0..unat mx}"
    then obtain n where n: "x = of_nat n" "n \<le> unat mx" by auto
    then have "n < 2 ^ 32" using unat_lt [of mx] by simp
    then have "unat x = n" using n by (simp add: unat_of_nat take_bit_nat_eq_self)
    then show "x \<in> {0..mx}" using n by (simp add: word_le_nat_alt)
  qed
  moreover have "inj_on (of_nat :: nat \<Rightarrow> u32) {0..unat mx}"
  proof (rule inj_onI)
    fix a b assume "a \<in> {0..unat mx}" "b \<in> {0..unat mx}" "(of_nat a :: u32) = of_nat b"
    moreover from this have "a < 2 ^ 32" "b < 2 ^ 32" using unat_lt [of mx] by auto
    ultimately show "a = b" by (simp add: word_of_nat_eq_iff take_bit_nat_eq_self)
  qed
  ultimately show ?thesis by (simp add: card_image)
qed

lemma ida_free_ok:
  assumes inv: "ida_inv mx s" and "i \<notin> ida_free_ids s" and "i \<le> mx"
  shows "ida_inv mx (ida_free i s) \<and> ida_free_ids (ida_free i s) = insert i (ida_free_ids s)"
proof -
  have loop: "ranges_ok (m_free_ranges (ida_free i s))"
    and ids: "ida_free_ids (ida_free i s) = insert i (ida_free_ids s)"
    using ida_free_loop_ok [of "m_free_ranges s" i mx] assms
    by (auto simp: ida_inv_def ida_free_ids_def ida_free_def)
  have "insert i (ida_free_ids s) \<subseteq> {0..mx}" using assms by (auto simp: ida_inv_def)
  then have "card (insert i (ida_free_ids s)) \<le> card {0..mx}" by (intro card_mono) auto
  then have "card (ida_free_ids s) + 1 \<le> unat mx + 1" using assms(2) by (simp add: card_ids_upto)
  then have pos: "0 < m_num_alloc s" using inv assms(2)
    by (auto simp: ida_inv_def word_less_nat_alt unat_gt_0)
  then have "unat (m_num_alloc (ida_free i s)) = unat (m_num_alloc s) - 1"
    by (simp add: ida_free_def unat_pred)
  moreover have "0 < unat (m_num_alloc s)" using pos by (simp add: word_less_nat_alt)
  ultimately have "unat (m_num_alloc (ida_free i s)) + card (ida_free_ids (ida_free i s)) = unat mx + 1"
    using inv assms(2) ids by (simp add: ida_inv_def)
  with loop ids assms show ?thesis by (auto simp: ida_inv_def)
qed


lemma ida_init_ok:
  "mx < UINT32_MAX \<Longrightarrow> ida_inv mx (ida_init mx) \<and> ida_free_ids (ida_init mx) = {0..mx}"
  by (simp add: ida_inv_def ida_init_def ida_free_ids_def card_ids_upto)

section \<open>The interface\<close>

text \<open>
  What the owners of an allocator (the context for device resources, copies, networks and
  command lists, a network for its infer requests) rely on. The ids handed out and not yet
  returned are those of \<open>ids\<close> that are not free.
\<close>

locale id_allocator =
  fixes alloc :: "'s \<Rightarrow> 'i option \<times> 's"
    and release :: "'i \<Rightarrow> 's \<Rightarrow> 's"
    and free_ids :: "'s \<Rightarrow> 'i set"
    and inv :: "'s \<Rightarrow> bool"
    and ids :: "'i set"
  assumes free_sub: "inv s \<Longrightarrow> free_ids s \<subseteq> ids"
    and alloc_none: "inv s \<Longrightarrow> free_ids s = {} \<Longrightarrow> alloc s = (None, s)"
    and alloc_some: "inv s \<Longrightarrow> free_ids s \<noteq> {} \<Longrightarrow>
      \<exists>i s'. alloc s = (Some i, s') \<and> i \<in> free_ids s \<and> free_ids s' = free_ids s - {i} \<and> inv s'"
    and release_ok: "inv s \<Longrightarrow> i \<in> ids \<Longrightarrow> i \<notin> free_ids s \<Longrightarrow>
      inv (release i s) \<and> free_ids (release i s) = insert i (free_ids s)"
begin

lemma alloc_inv: "inv s \<Longrightarrow> inv (snd (alloc s))"
  by (cases "free_ids s = {}") (simp add: alloc_none, metis alloc_some snd_conv)

lemma alloc_fails_iff: "inv s \<Longrightarrow> fst (alloc s) = None \<longleftrightarrow> free_ids s = {}"
  by (cases "free_ids s = {}") (simp add: alloc_none, metis alloc_some fst_conv option.distinct(1))

lemma alloc_held:
  assumes "inv s" and "alloc s = (Some i, s')"
  shows "i \<in> ids \<and> i \<in> free_ids s \<and> ids - free_ids s' = insert i (ids - free_ids s)"
proof -
  have ne: "free_ids s \<noteq> {}" using assms alloc_none by fastforce
  from alloc_some [OF assms(1) ne] assms(2)
  have "i \<in> free_ids s" "free_ids s' = free_ids s - {i}" by auto
  then show ?thesis using free_sub [OF assms(1)] by auto
qed

lemma release_held:
  assumes "inv s" and "i \<in> ids - free_ids s"
  shows "ids - free_ids (release i s) = (ids - free_ids s) - {i}"
  using release_ok [OF assms(1), of i] assms(2) by auto

lemma release_alloc:
  assumes "inv s" and "alloc s = (Some i, s')"
  shows "free_ids (release i s') = free_ids s"
proof -
  have ne: "free_ids s \<noteq> {}" using assms alloc_none by fastforce
  from alloc_some [OF assms(1) ne] assms(2)
  have "i \<in> free_ids s" "free_ids s' = free_ids s - {i}" "inv s'" by auto
  then show ?thesis using release_ok [of s' i] free_sub [OF assms(1)] by auto
qed

end

interpretation ids: id_allocator ida_alloc ida_free ida_free_ids "ida_inv mx" "{0..mx}" for mx
proof (unfold_locales, goal_cases)
  case (1 s)
  then show ?case by (simp add: ida_inv_def)
next
  case (2 s)
  then show ?case by (rule ida_alloc_None)
next
  case (3 s)
  then obtain i s' where "ida_alloc s = (Some i, s')" "i \<in> ida_free_ids s"
    "ida_free_ids s' = ida_free_ids s - {i}" "ida_inv mx s'"
    by (rule ida_alloc_Some)
  then show ?case by blast
next
  case (4 s i)
  then show ?case using ida_free_ok by simp
qed

section \<open>Runs of an allocator\<close>

text \<open>
  An owner allocates, and returns only ids it holds. A state is the allocator with the ids
  its owner holds.
\<close>

inductive ida_step :: "ida \<times> u32 set \<Rightarrow> ida \<times> u32 set \<Rightarrow> bool" where
  alloc_ok: "ida_alloc s = (Some i, s') \<Longrightarrow> ida_step (s, held) (s', insert i held)"
| alloc_fail: "ida_alloc s = (None, s') \<Longrightarrow> ida_step (s, held) (s', held)"
| release: "i \<in> held \<Longrightarrow> ida_step (s, held) (ida_free i s, held - {i})"

definition ida_reach :: "u32 \<Rightarrow> ida \<Rightarrow> u32 set \<Rightarrow> bool" where
  "ida_reach mx s held \<longleftrightarrow> ida_step\<^sup>*\<^sup>* (ida_init mx, {}) (s, held)"

lemma ida_step_inv:
  assumes "ida_step (s, held) (s', held')" and "ida_inv mx s" and "held = {0..mx} - ida_free_ids s"
  shows "ida_inv mx s' \<and> held' = {0..mx} - ida_free_ids s'"
  using assms(1)
proof (cases rule: ida_step.cases)
  case alloc_ok
  then show ?thesis
    using assms(2,3) ids.alloc_held [OF assms(2)] ids.alloc_inv [OF assms(2)] by auto
next
  case alloc_fail
  then show ?thesis
    using assms(2,3) ids.alloc_fails_iff [OF assms(2)] ida_alloc_None [OF assms(2)] by auto
next
  case (release i)
  then show ?thesis
    using assms(2,3) ids.release_ok [OF assms(2), of i] ids.release_held [OF assms(2), of i] by auto
qed

lemma ida_reach_inv:
  assumes "ida_reach mx s held" and "mx < UINT32_MAX"
  shows "ida_inv mx s \<and> held = {0..mx} - ida_free_ids s"
proof -
  have "ida_inv mx (fst st) \<and> snd st = {0..mx} - ida_free_ids (fst st)"
    if "ida_step\<^sup>*\<^sup>* (ida_init mx, {}) st" for st
    using that
  proof (induction rule: rtranclp_induct)
    case base
    then show ?case using ida_init_ok [OF assms(2)] by simp
  next
    case (step y z)
    then show ?case
      using ida_step_inv [of "fst y" "snd y" "fst z" "snd z" mx] by (metis prod.collapse)
  qed
  from this [of "(s, held)"] assms(1) show ?thesis by (simp add: ida_reach_def)
qed

lemma ida_reach_2_allocs:
  "ida_reach 0xFFFF \<lparr>m_free_ranges = [(2, 0xFFFF)], m_num_alloc = 2\<rparr> {1, 0}"
proof -
  let ?s0 = "ida_init 0xFFFF"
    and ?s1 = "\<lparr>m_free_ranges = [(1, 0xFFFF)], m_num_alloc = 1\<rparr> :: ida"
    and ?s2 = "\<lparr>m_free_ranges = [(2, 0xFFFF)], m_num_alloc = 2\<rparr> :: ida"
  have "ida_step (?s0, {}) (?s1, insert 0 {})" "ida_step (?s1, {0}) (?s2, insert 1 {0})"
    by (rule alloc_ok, simp add: ida_alloc_def ida_init_def)+
  then show ?thesis
    unfolding ida_reach_def by (meson rtranclp.rtrancl_into_rtrancl rtranclp.rtrancl_refl)
qed

section \<open>Properties\<close>

text \<open>C25: in every reachable state of an allocator, a successful \<open>alloc\<close> hands out an id that
  is not in use and not above the maximum, so that the 16-bit casts of the callers are exact;
  it fails only when every id is in use; and the counter is the number of ids in use.\<close>

theorem ida_alloc_unique:
  assumes "ida_reach mx s held" and "mx < UINT32_MAX"
  shows "(case fst (ida_alloc s) of
       Some i \<Rightarrow> i \<notin> held \<and> i \<le> mx \<and> held \<noteq> {0..mx} | None \<Rightarrow> held = {0..mx})
    \<and> unat (get_num_alloc s) = card held"
proof -
  from ida_reach_inv [OF assms] have inv: "ida_inv mx s"
    and held: "held = {0..mx} - ida_free_ids s" by auto
  have sub: "ida_free_ids s \<subseteq> {0..mx}" by (rule ids.free_sub [OF inv])
  have "card held = unat mx + 1 - card (ida_free_ids s)"
    by (simp add: held card_Diff_subset [OF _ sub] card_ids_upto)
  then have "unat (get_num_alloc s) = card held"
    using inv unfolding ida_inv_def get_num_alloc_def by linarith
  moreover have "case fst (ida_alloc s) of
      Some i \<Rightarrow> i \<notin> held \<and> i \<le> mx \<and> held \<noteq> {0..mx} | None \<Rightarrow> held = {0..mx}"
  proof (cases "ida_alloc s")
    case (Pair r s')
    then show ?thesis
      using ids.alloc_held [OF inv] ids.alloc_fails_iff [OF inv] sub held
      by (cases r) auto
  qed
  ultimately show ?thesis by simp
qed

theorem ida_alloc_unique_witness:
  "(case fst (ida_alloc \<lparr>m_free_ranges = [(2, 0xFFFF)], m_num_alloc = 2\<rparr>) of
      Some i \<Rightarrow> i \<notin> {1, 0} \<and> i \<le> 0xFFFF \<and> {1, 0} \<noteq> {0..0xFFFF :: u32}
    | None \<Rightarrow> {1, 0} = {0..0xFFFF :: u32})
    \<and> unat (get_num_alloc \<lparr>m_free_ranges = [(2, 0xFFFF)], m_num_alloc = 2\<rparr>) = card {1, 0 :: u32}"
  by (rule ida_alloc_unique [OF ida_reach_2_allocs]) simp

text \<open>C26: releasing an id in use makes exactly that id free again, keeps the ranges disjoint,
  ordered and non-empty, and the counter exact, whether the id joins the range after it, the
  range before it, or stands alone.\<close>

theorem ida_free_spec:
  assumes "ida_reach mx s held" and "mx < UINT32_MAX" and "i \<in> held"
  shows "ida_free_ids (ida_free i s) = insert i (ida_free_ids s)
    \<and> ranges_ok (m_free_ranges (ida_free i s))
    \<and> unat (get_num_alloc (ida_free i s)) = unat (get_num_alloc s) - 1"
proof -
  from ida_reach_inv [OF assms(1,2)] have inv: "ida_inv mx s"
    and held: "held = {0..mx} - ida_free_ids s" by auto
  have rel: "ida_inv mx (ida_free i s)" "ida_free_ids (ida_free i s) = insert i (ida_free_ids s)"
    using ids.release_ok [OF inv, of i] assms(3) held by auto
  have "card (insert i (ida_free_ids s)) = card (ida_free_ids s) + 1"
    using assms(3) held by simp
  with rel inv show ?thesis by (auto simp: ida_inv_def get_num_alloc_def)
qed

theorem ida_free_spec_witness:
  "ida_free_ids (ida_free 0 \<lparr>m_free_ranges = [(2, 0xFFFF)], m_num_alloc = 2\<rparr>)
      = insert 0 (ida_free_ids \<lparr>m_free_ranges = [(2, 0xFFFF)], m_num_alloc = 2\<rparr>)
    \<and> ranges_ok (m_free_ranges (ida_free 0 \<lparr>m_free_ranges = [(2, 0xFFFF)], m_num_alloc = 2\<rparr>))
    \<and> unat (get_num_alloc (ida_free 0 \<lparr>m_free_ranges = [(2, 0xFFFF)], m_num_alloc = 2\<rparr>))
      = unat (get_num_alloc \<lparr>m_free_ranges = [(2, 0xFFFF)], m_num_alloc = 2\<rparr>) - 1"
  by (rule ida_free_spec [OF ida_reach_2_allocs]) simp_all

end
