(* ===== verification/Handle_Map.thy ===== *)
theory Handle_Map
  imports Std_Map
begin

text \<open>
  \<open>nnpiHandleMap\<close> (\<open>nnpiHandleMap.h\<close>): the table from the 64-bit handles the C API hands
  out to the objects behind them. A \<open>std::shared_ptr\<close> is the address of its object, null
  being 0. The mutex makes every operation one atomic step.
\<close>

type_synonym addr = u64

abbreviation null :: addr where
  "null \<equiv> 0"

type_synonym handle_map = "(u64 \<times> addr) list"

section \<open>Operations\<close>

text \<open>
  The probing loop of \<open>makeHandle\<close>: the address itself is the first candidate, and the
  candidate is incremented (with the wrap-around of \<open>uint64_t\<close>) while it is taken. \<open>None\<close>
  is a loop that does not end.
\<close>

partial_function (option) probe :: "handle_map \<Rightarrow> u64 \<Rightarrow> u64 option" where
  "probe m hdl = (if map_of m hdl \<noteq> None then probe m (hdl + 1) else Some hdl)"

definition makeHandle :: "addr \<Rightarrow> handle_map \<Rightarrow> (u64 \<times> handle_map) option" where
  "makeHandle obj m =
     (if obj = null then Some (obj, m)
      else map_option (\<lambda>hdl. (hdl, omap_update hdl obj m)) (probe m obj))"

definition find_hdl :: "u64 \<Rightarrow> handle_map \<Rightarrow> addr" where
  "find_hdl hdl m = (case map_of m hdl of Some p \<Rightarrow> p | None \<Rightarrow> null)"

definition remove_hdl :: "u64 \<Rightarrow> handle_map \<Rightarrow> bool \<times> handle_map" where
  "remove_hdl hdl m = (map_of m hdl \<noteq> None, omap_erase hdl m)"

definition clear_hdl :: "handle_map \<Rightarrow> handle_map" where
  "clear_hdl m = []"

definition get_first :: "handle_map \<Rightarrow> u64 option" where
  "get_first m = (case m of [] \<Rightarrow> None | (hdl, _) # _ \<Rightarrow> Some hdl)"

text \<open>\<open>for_each_obj\<close>: the callback on every object, in key order, threading a state.\<close>

definition for_each_obj :: "(addr \<Rightarrow> 's \<Rightarrow> 's) option \<Rightarrow> handle_map \<Rightarrow> 's \<Rightarrow> 's" where
  "for_each_obj user_cb m s =
     (case user_cb of None \<Rightarrow> s | Some cb \<Rightarrow> fold (\<lambda>(_, p). cb p) m s)"

text \<open>The well-formed tables: keys in order, no null object stored.\<close>

definition hmap_ok :: "handle_map \<Rightarrow> bool" where
  "hmap_ok m \<longleftrightarrow> omap_ok m \<and> null \<notin> snd ` set m"

section \<open>The probing loop ends\<close>

lemma probe_step: "map_of m h \<noteq> None \<Longrightarrow> probe m h = probe m (h + 1)"
  by (subst probe.simps) simp

lemma probe_free: "map_of m h = None \<Longrightarrow> probe m h = Some h"
  by (subst probe.simps) simp

lemma probe_taken:
  "\<forall>j < i. map_of m (h + of_nat j) \<noteq> None \<Longrightarrow> probe m h = probe m (h + of_nat i)"
proof (induction i)
  case 0
  then show ?case by simp
next
  case (Suc i)
  then have "probe m h = probe m (h + of_nat i)" by simp
  also have "\<dots> = probe m (h + of_nat i + 1)"
    using Suc.prems by (intro probe_step) simp
  finally show ?case by (simp add: add.commute add.left_commute)
qed

lemma some_candidate_free:
  fixes m :: handle_map
  assumes "length m < 2 ^ 64"
  shows "\<exists>i \<le> length m. map_of m (h + of_nat i) = None"
proof (rule ccontr)
  assume "\<not> ?thesis"
  then have sub: "(\<lambda>i. h + of_nat i) ` {..length m} \<subseteq> fst ` set m"
    by (auto simp: map_of_eq_None_iff)
  have inj: "inj_on (\<lambda>i. h + of_nat i :: u64) {..length m}"
  proof (rule inj_onI)
    fix i j assume "i \<in> {..length m}" "j \<in> {..length m}" "h + of_nat i = h + of_nat j"
    with assms have "(of_nat i :: u64) = of_nat j" "i < 2 ^ 64" "j < 2 ^ 64" by auto
    then show "i = j" by (simp add: word_of_nat_eq_iff take_bit_nat_eq_self)
  qed
  have "card ((\<lambda>i. h + of_nat i) ` {..length m}) \<le> card (fst ` set m)"
    by (rule card_mono [OF _ sub]) simp
  also have "\<dots> \<le> length m"
    by (metis card_image_le card_length finite_set le_trans)
  finally show False by (simp add: card_image [OF inj])
qed

lemma probe_returns:
  assumes "length m < 2 ^ 64"
  obtains i where "probe m h = Some (h + of_nat i)"
    and "map_of m (h + of_nat i) = None" and "\<forall>j < i. map_of m (h + of_nat j) \<noteq> None"
proof -
  let ?P = "\<lambda>i. map_of m (h + of_nat i) = None"
  from some_candidate_free [OF assms, of h] obtain i where "?P i" by blast
  then have least: "?P (LEAST i. ?P i)" by (rule LeastI)
  have "\<forall>j < (LEAST i. ?P i). map_of m (h + of_nat j) \<noteq> None"
    using not_less_Least by blast
  with least show thesis by (intro that) (simp_all add: probe_taken probe_free)
qed

section \<open>What the operations keep\<close>

lemma hmap_ok_Nil [simp]: "hmap_ok []"
  by (simp add: hmap_ok_def)

lemma snd_omap_update: "snd ` set (omap_update k v m) \<subseteq> insert v (snd ` set m)"
  by (induction k v m rule: omap_update.induct) auto

lemma snd_omap_erase: "snd ` set (omap_erase k m) \<subseteq> snd ` set m"
  by (induction k m rule: omap_erase.induct) auto

lemma hmap_ok_update [nnp_inv]: "hmap_ok m \<Longrightarrow> p \<noteq> null \<Longrightarrow> hmap_ok (omap_update k p m)"
  using snd_omap_update [of k p m] by (auto simp: hmap_ok_def)

lemma hmap_ok_remove [nnp_inv]: "hmap_ok m \<Longrightarrow> hmap_ok (snd (remove_hdl k m))"
  using snd_omap_erase [of k m] by (auto simp: hmap_ok_def remove_hdl_def)

lemma hmap_ok_clear [nnp_inv]: "hmap_ok (clear_hdl m)"
  by (simp add: clear_hdl_def)

lemma hmap_ok_makeHandle [nnp_inv]:
  "hmap_ok m \<Longrightarrow> makeHandle p m = Some (h, m') \<Longrightarrow> hmap_ok m'"
  by (auto simp: makeHandle_def hmap_ok_update split: if_splits)

lemma find_hdl_update: "find_hdl k (omap_update h p m) = (if k = h then p else find_hdl k m)"
  by (auto simp: find_hdl_def omap.get_upd_same omap.get_upd_other)

section \<open>Properties\<close>

text \<open>C32: \<open>makeHandle\<close> on a live object ends and returns a handle that was not in use: the
  object is found under it, every other handle still finds what it found before, and the
  table stays well formed. The only hypothesis is that the table is not full.\<close>

theorem makeHandle_fresh:
  assumes "hmap_ok m" and "length m < 2 ^ 64" and "obj \<noteq> null"
  shows "\<exists>h m'. makeHandle obj m = Some (h, m') \<and> map_of m h = None \<and> find_hdl h m' = obj
    \<and> (\<forall>k. k \<noteq> h \<longrightarrow> find_hdl k m' = find_hdl k m) \<and> hmap_ok m'"
proof -
  from assms(2) obtain i where p: "probe m obj = Some (obj + of_nat i)"
    and free: "map_of m (obj + of_nat i) = None"
    by (rule probe_returns)
  let ?h = "obj + of_nat i"
  have "makeHandle obj m = Some (?h, omap_update ?h obj m)"
    using assms(3) p by (simp add: makeHandle_def)
  then show ?thesis
    using free assms(1,3) by (auto simp: find_hdl_update intro: hmap_ok_update)
qed

theorem makeHandle_fresh_witness:
  "\<exists>h m'. makeHandle 5 [(5, 9), (6, 5)] = Some (h, m') \<and> map_of [(5, 9), (6, 5 :: addr)] h = None
    \<and> find_hdl h m' = 5 \<and> (\<forall>k. k \<noteq> h \<longrightarrow> find_hdl k m' = find_hdl k [(5, 9), (6, 5)]) \<and> hmap_ok m'"
  by (rule makeHandle_fresh) (simp_all add: hmap_ok_def)

text \<open>a removed handle finds nothing, \<open>remove\<close> reports whether it was there, and the
  other handles are untouched.\<close>

theorem remove_hdl_spec:
  assumes "hmap_ok m" and "remove_hdl h m = (r, m')"
  shows "r = (find_hdl h m \<noteq> null) \<and> find_hdl k m' = (if k = h then null else find_hdl k m)
    \<and> hmap_ok m'"
proof -
  have "map_of m h \<noteq> Some null"
    using assms(1) by (auto simp: hmap_ok_def dest!: map_of_SomeD) force
  then have "r = (find_hdl h m \<noteq> null)"
    using assms(2) by (auto simp: remove_hdl_def find_hdl_def split: option.splits)
  moreover have "hmap_ok m'"
    using hmap_ok_remove [OF assms(1), of h] assms(2) by simp
  ultimately show ?thesis
    using assms by (auto simp: remove_hdl_def find_hdl_def hmap_ok_def omap.get_del)
qed

theorem remove_hdl_spec_witness:
  "True = (find_hdl 5 [(5, 9)] \<noteq> null) \<and> find_hdl 5 [] = (if 5 = (5 :: u64) then null else find_hdl 5 [(5, 9)])
    \<and> hmap_ok []"
  by (rule remove_hdl_spec) (simp_all add: hmap_ok_def remove_hdl_def)

end
