(* ===== verification/Nnp_Types.thy ===== *)
theory Nnp_Types
  imports Nnp_Prelude
begin

text \<open>
  The error types of the public interface (\<open>nnpdrvTypes.h\<close>), the event codes and values of
  \<open>ipc_c2h_events.h\<close>, and the functions that translate kernel error numbers and event values
  into them (\<open>nnpiDevice.cpp\<close>, \<open>nnpiInfContext.cpp\<close>).
\<close>

section \<open>Error codes of the interface\<close>

datatype NNPError =
    NNP_NO_ERROR | NNP_NO_SUCH_DEVICE | NNP_DEVICE_NOT_READY | NNP_OUT_OF_MEMORY
  | NNP_NO_SUCH_RESOURCE | NNP_NO_SUCH_CONTEXT | NNP_INCOMPATIBLE_RESOURCES
  | NNP_NO_SUCH_NETWORK | NNP_TOO_MANY_CONTEXTS | NNP_INVALID_ARGUMENT | NNP_CONTEXT_BROKEN
  | NNP_DEVICE_ERROR | NNP_TIMED_OUT | NNP_BROKEN_MARKER | NNP_IO_ERROR
  | NNP_NO_SUCH_COPY_HANDLE | NNP_NO_SUCH_INFREQ_HANDLE | NNP_INTERNAL_DRIVER_ERROR
  | NNP_OPERATION_INTERRUPTED | NNP_NOT_SUPPORTED | NNP_INVALID_EXECUTABLE_NETWORK_BINARY
  | NNP_INFER_MISSING_RESOURCE | NNP_HOSTRES_BROKEN | NNP_PERMISSION_DENIED | NNP_DEVICE_BUSY
  | NNP_INCOMPLETE_NETWORK | NNP_DEVNET_RESERVE_INSUFFICIENT_RESOURCES | NNP_OUT_OF_ECC_MEMORY
  | NNP_NO_SUCH_CMDLIST | NNP_VERSIONS_MISMATCH | NNP_UNKNOWN_ERROR

primrec NNPError_val :: "NNPError \<Rightarrow> nat" where
  "NNPError_val NNP_NO_ERROR = 0"
| "NNPError_val NNP_NO_SUCH_DEVICE = 1"
| "NNPError_val NNP_DEVICE_NOT_READY = 2"
| "NNPError_val NNP_OUT_OF_MEMORY = 3"
| "NNPError_val NNP_NO_SUCH_RESOURCE = 4"
| "NNPError_val NNP_NO_SUCH_CONTEXT = 5"
| "NNPError_val NNP_INCOMPATIBLE_RESOURCES = 6"
| "NNPError_val NNP_NO_SUCH_NETWORK = 7"
| "NNPError_val NNP_TOO_MANY_CONTEXTS = 8"
| "NNPError_val NNP_INVALID_ARGUMENT = 9"
| "NNPError_val NNP_CONTEXT_BROKEN = 10"
| "NNPError_val NNP_DEVICE_ERROR = 11"
| "NNPError_val NNP_TIMED_OUT = 12"
| "NNPError_val NNP_BROKEN_MARKER = 13"
| "NNPError_val NNP_IO_ERROR = 14"
| "NNPError_val NNP_NO_SUCH_COPY_HANDLE = 15"
| "NNPError_val NNP_NO_SUCH_INFREQ_HANDLE = 16"
| "NNPError_val NNP_INTERNAL_DRIVER_ERROR = 17"
| "NNPError_val NNP_OPERATION_INTERRUPTED = 18"
| "NNPError_val NNP_NOT_SUPPORTED = 19"
| "NNPError_val NNP_INVALID_EXECUTABLE_NETWORK_BINARY = 20"
| "NNPError_val NNP_INFER_MISSING_RESOURCE = 21"
| "NNPError_val NNP_HOSTRES_BROKEN = 22"
| "NNPError_val NNP_PERMISSION_DENIED = 23"
| "NNPError_val NNP_DEVICE_BUSY = 24"
| "NNPError_val NNP_INCOMPLETE_NETWORK = 25"
| "NNPError_val NNP_DEVNET_RESERVE_INSUFFICIENT_RESOURCES = 26"
| "NNPError_val NNP_OUT_OF_ECC_MEMORY = 27"
| "NNPError_val NNP_NO_SUCH_CMDLIST = 28"
| "NNPError_val NNP_VERSIONS_MISMATCH = 29"
| "NNPError_val NNP_UNKNOWN_ERROR = 999"

datatype NNPCriticalError =
    NNP_CRI_NO_ERROR | NNP_CRI_INTERNAL_DRIVER_ERROR | NNP_CRI_NOT_SUPPORTED
  | NNP_CRI_GRACEFUL_DESTROY | NNP_CRI_CARD_RESET | NNP_CRI_INFREQ_FAILED
  | NNP_CRI_INFREQ_NETWORK_RESET | NNP_CRI_INFREQ_CARD_RESET | NNP_CRI_INPUT_IS_DIRTY
  | NNP_CRI_FAILED_TO_RELEASE_CREDIT | NNP_CRI_UNKNOWN_CRITICAL_ERROR

primrec NNPCriticalError_val :: "NNPCriticalError \<Rightarrow> nat" where
  "NNPCriticalError_val NNP_CRI_NO_ERROR = 0"
| "NNPCriticalError_val NNP_CRI_INTERNAL_DRIVER_ERROR = 1"
| "NNPCriticalError_val NNP_CRI_NOT_SUPPORTED = 2"
| "NNPCriticalError_val NNP_CRI_GRACEFUL_DESTROY = 3"
| "NNPCriticalError_val NNP_CRI_CARD_RESET = 4"
| "NNPCriticalError_val NNP_CRI_INFREQ_FAILED = 5"
| "NNPCriticalError_val NNP_CRI_INFREQ_NETWORK_RESET = 6"
| "NNPCriticalError_val NNP_CRI_INFREQ_CARD_RESET = 7"
| "NNPCriticalError_val NNP_CRI_INPUT_IS_DIRTY = 8"
| "NNPCriticalError_val NNP_CRI_FAILED_TO_RELEASE_CREDIT = 9"
| "NNPCriticalError_val NNP_CRI_UNKNOWN_CRITICAL_ERROR = 999"

section \<open>Event codes\<close>

abbreviation (input) EVENT_NON_ERR_START :: nat where "EVENT_NON_ERR_START \<equiv> 0"
abbreviation (input) EVENT_NON_ERR_DRV_START :: nat where "EVENT_NON_ERR_DRV_START \<equiv> 4"
abbreviation (input) EVENT_ERR_START :: nat where "EVENT_ERR_START \<equiv> 48"
abbreviation (input) EVENT_ERR_DRV_START :: nat where "EVENT_ERR_DRV_START \<equiv> 52"
abbreviation (input) EVENT_CONTEXT_FATAL_START :: nat where "EVENT_CONTEXT_FATAL_START \<equiv> 96"
abbreviation (input) EVENT_CONTEXT_FATAL_DRV_START :: nat where "EVENT_CONTEXT_FATAL_DRV_START \<equiv> 104"
abbreviation (input) EVENT_CARD_FATAL_START :: nat where "EVENT_CARD_FATAL_START \<equiv> 112"
abbreviation (input) EVENT_CARD_FATAL_DRV_START :: nat where "EVENT_CARD_FATAL_DRV_START \<equiv> 120"

definition is_context_fatal_event :: "nat \<Rightarrow> bool" where
  "is_context_fatal_event e \<longleftrightarrow> EVENT_CONTEXT_FATAL_START \<le> e \<and> e < EVENT_CARD_FATAL_START"

definition is_card_fatal_event :: "nat \<Rightarrow> bool" where
  "is_card_fatal_event e \<longleftrightarrow> EVENT_CARD_FATAL_START \<le> e"

definition is_card_fatal_drv_event :: "nat \<Rightarrow> bool" where
  "is_card_fatal_drv_event e \<longleftrightarrow> EVENT_CARD_FATAL_DRV_START \<le> e"

text \<open>The event codes, by the range they are declared in.\<close>

definition event_codes :: "(string \<times> nat) list" where
  "event_codes =
    [(''NNP_IPC_RUNTIME_DONE'', EVENT_NON_ERR_START + 1),
     (''NNP_IPC_CREATE_CONTEXT_SUCCESS'', EVENT_NON_ERR_DRV_START + 0),
     (''NNP_IPC_CREATE_DEVRES_SUCCESS'', EVENT_NON_ERR_DRV_START + 1),
     (''NNP_IPC_CREATE_COPY_SUCCESS'', EVENT_NON_ERR_DRV_START + 2),
     (''NNP_IPC_EXECUTE_COPY_SUCCESS'', EVENT_NON_ERR_DRV_START + 3),
     (''NNP_IPC_DEVRES_DESTROYED'', EVENT_NON_ERR_DRV_START + 4),
     (''NNP_IPC_COPY_DESTROYED'', EVENT_NON_ERR_DRV_START + 5),
     (''NNP_IPC_CONTEXT_DESTROYED'', EVENT_NON_ERR_DRV_START + 6),
     (''NNP_IPC_CREATE_DEVNET_SUCCESS'', EVENT_NON_ERR_DRV_START + 7),
     (''NNP_IPC_DEVNET_DESTROYED'', EVENT_NON_ERR_DRV_START + 8),
     (''NNP_IPC_CREATE_INFREQ_SUCCESS'', EVENT_NON_ERR_DRV_START + 9),
     (''NNP_IPC_INFREQ_DESTROYED'', EVENT_NON_ERR_DRV_START + 10),
     (''NNP_IPC_RECOVER_CONTEXT_SUCCESS'', EVENT_NON_ERR_DRV_START + 11),
     (''NNP_IPC_THERMAL_TRIP_EVENT'', EVENT_NON_ERR_DRV_START + 12),
     (''NNP_IPC_DEVNET_ADD_RES_SUCCESS'', EVENT_NON_ERR_DRV_START + 13),
     (''NNP_IPC_DEVICE_STATE_CHANGED'', EVENT_NON_ERR_DRV_START + 14),
     (''NNP_IPC_DEVNET_RESOURCES_RESERVATION_SUCCESS'', EVENT_NON_ERR_DRV_START + 15),
     (''NNP_IPC_DEVNET_RESOURCES_RELEASE_SUCCESS'', EVENT_NON_ERR_DRV_START + 16),
     (''NNP_IPC_CREATE_CHANNEL_SUCCESS'', EVENT_NON_ERR_DRV_START + 17),
     (''NNP_IPC_CHANNEL_DESTROYED'', EVENT_NON_ERR_DRV_START + 18),
     (''NNP_IPC_CHANNEL_SET_RB_SUCCESS'', EVENT_NON_ERR_DRV_START + 19),
     (''NNP_IPC_CHANNEL_MAP_HOSTRES_SUCCESS'', EVENT_NON_ERR_DRV_START + 20),
     (''NNP_IPC_CHANNEL_UNMAP_HOSTRES_SUCCESS'', EVENT_NON_ERR_DRV_START + 21),
     (''NNP_IPC_ABORT_REQUEST'', EVENT_NON_ERR_DRV_START + 22),
     (''NNP_IPC_GET_FIFO'', EVENT_NON_ERR_DRV_START + 23),
     (''NNP_IPC_CREATE_CMD_SUCCESS'', EVENT_NON_ERR_DRV_START + 24),
     (''NNP_IPC_CMD_DESTROYED'', EVENT_NON_ERR_DRV_START + 25),
     (''NNP_IPC_EXECUTE_CMD_COMPLETE'', EVENT_NON_ERR_DRV_START + 26),
     (''NNP_IPC_DEVNET_SET_PROPERTY_SUCCESS'', EVENT_NON_ERR_DRV_START + 27),
     (''NNP_IPC_EXECUTE_CPYLST_SUCCESS'', EVENT_NON_ERR_DRV_START + 28),
     (''NNP_IPC_GET_CR_FIFO_REPLY'', EVENT_NON_ERR_DRV_START + 29),
     (''NNP_IPC_P2P_PEERS_CONNECTED'', EVENT_NON_ERR_DRV_START + 30),
     (''NNP_IPC_P2P_PEER_DEV_UPDATED'', EVENT_NON_ERR_DRV_START + 31),
     (''NNP_IPC_EXECUTE_COPY_SUBRES_SUCCESS'', EVENT_NON_ERR_DRV_START + 32),
     (''NNP_IPC_CREATE_CONTEXT_FAILED'', EVENT_ERR_DRV_START + 0),
     (''NNP_IPC_CREATE_DEVRES_FAILED'', EVENT_ERR_DRV_START + 1),
     (''NNP_IPC_CREATE_COPY_FAILED'', EVENT_ERR_DRV_START + 2),
     (''NNP_IPC_DESTROY_CONTEXT_FAILED'', EVENT_ERR_DRV_START + 3),
     (''NNP_IPC_DESTROY_DEVRES_FAILED'', EVENT_ERR_DRV_START + 4),
     (''NNP_IPC_DESTROY_COPY_FAILED'', EVENT_ERR_DRV_START + 5),
     (''NNP_IPC_CREATE_SYNC_FAILED'', EVENT_ERR_DRV_START + 6),
     (''NNP_IPC_ERROR_SUB_RESOURCE_LOAD_FAILED'', EVENT_ERR_DRV_START + 7),
     (''NNP_IPC_CREATE_DEVNET_FAILED'', EVENT_ERR_DRV_START + 8),
     (''NNP_IPC_DESTROY_DEVNET_FAILED'', EVENT_ERR_DRV_START + 9),
     (''NNP_IPC_CREATE_INFREQ_FAILED'', EVENT_ERR_DRV_START + 10),
     (''NNP_IPC_DESTROY_INFREQ_FAILED'', EVENT_ERR_DRV_START + 11),
     (''NNP_IPC_RECOVER_CONTEXT_FAILED'', EVENT_ERR_DRV_START + 12),
     (''NNP_IPC_ERROR_MCE_CORRECTABLE'', EVENT_ERR_DRV_START + 13),
     (''NNP_IPC_ERROR_MCE_UNCORRECTABLE'', EVENT_ERR_DRV_START + 14),
     (''NNP_IPC_DEVNET_ADD_RES_FAILED'', EVENT_ERR_DRV_START + 15),
     (''NNP_IPC_DEVNET_RESOURCES_RESERVATION_FAILED'', EVENT_ERR_DRV_START + 16),
     (''NNP_IPC_DEVNET_RESOURCES_RELEASE_FAILED'', EVENT_ERR_DRV_START + 17),
     (''NNP_IPC_CREATE_CHANNEL_FAILED'', EVENT_ERR_DRV_START + 18),
     (''NNP_IPC_DESTROY_CHANNEL_FAILED'', EVENT_ERR_DRV_START + 19),
     (''NNP_IPC_CHANNEL_SET_RB_FAILED'', EVENT_ERR_DRV_START + 20),
     (''NNP_IPC_CREATE_CMD_FAILED'', EVENT_ERR_DRV_START + 21),
     (''NNP_IPC_DESTROY_CMD_FAILED'', EVENT_ERR_DRV_START + 22),
     (''NNP_IPC_CHANNEL_MAP_HOSTRES_FAILED'', EVENT_ERR_DRV_START + 23),
     (''NNP_IPC_CHANNEL_UNMAP_HOSTRES_FAILED'', EVENT_ERR_DRV_START + 24),
     (''NNP_IPC_DEVNET_SET_PROPERTY_FAILED'', EVENT_ERR_DRV_START + 25),
     (''NNP_IPC_ERROR_DRAM_ECC_CORRECTABLE'', EVENT_ERR_DRV_START + 26),
     (''NNP_IPC_EXECUTE_COPY_FAILED'', EVENT_ERR_DRV_START + 27),
     (''NNP_IPC_SCHEDULE_INFREQ_FAILED'', EVENT_ERR_DRV_START + 28),
     (''NNP_IPC_EXECUTE_CPYLST_FAILED'', EVENT_ERR_DRV_START + 29),
     (''NNP_IPC_EXECUTE_COPY_SUBRES_FAILED'', EVENT_ERR_DRV_START + 30),
     (''NNP_IPC_EC_FAILED_TO_RELEASE_CREDIT'', EVENT_ERR_DRV_START + 31),
     (''NNP_IPC_DMA_HANG_DETECTED'', EVENT_ERR_DRV_START + 32),
     (''NNP_IPC_ERROR_RUNTIME_LAUNCH'', EVENT_CONTEXT_FATAL_START + 0),
     (''NNP_IPC_ERROR_RUNTIME_DIED'', EVENT_CONTEXT_FATAL_START + 1),
     (''NNP_IPC_CONTEXT_EXEC_ERROR'', EVENT_CONTEXT_FATAL_DRV_START + 0),
     (''NNP_IPC_CTX_DRAM_ECC_UNCORRECTABLE'', EVENT_CONTEXT_FATAL_DRV_START + 1),
     (''NNP_IPC_ERROR_OS_CRASHED'', EVENT_CARD_FATAL_START + 0),
     (''NNP_IPC_ERROR_DRAM_ECC_UNCORRECTABLE_FATAL'', EVENT_CARD_FATAL_START + 1),
     (''NNP_IPC_ERROR_FATAL_ICE_ERROR'', EVENT_CARD_FATAL_START + 2),
     (''NNP_IPC_ERROR_PCI_ERROR'', EVENT_CARD_FATAL_DRV_START + 0),
     (''NNP_IPC_ERROR_MCE_UNCORRECTABLE_FATAL'', EVENT_CARD_FATAL_DRV_START + 1),
     (''NNP_IPC_ERROR_CARD_RESET'', EVENT_CARD_FATAL_DRV_START + 2),
     (''NNP_IPC_ERROR_CHANNEL_KILLED'', EVENT_CARD_FATAL_DRV_START + 3),
     (''NNP_IPC_ERROR_PROTOCOL_ERROR'', EVENT_CARD_FATAL_DRV_START + 4),
     (''NNP_IPC_FATAL_DMA_HANG_DETECTED'', EVENT_CARD_FATAL_DRV_START + 5)]"

definition event_vals :: "(string \<times> nat) list" where
  "event_vals =
    [(''NNP_IPC_NO_ERROR'', 0), (''NNP_IPC_NO_SUCH_CONTEXT'', 1),
     (''NNP_IPC_NO_SUCH_DEVRES'', 2), (''NNP_IPC_NO_SUCH_COPY'', 3),
     (''NNP_IPC_NO_SUCH_NET'', 4), (''NNP_IPC_NO_SUCH_INFREQ'', 5),
     (''NNP_IPC_ALREADY_EXIST'', 6), (''NNP_IPC_NO_DAEMON'', 7), (''NNP_IPC_NO_MEMORY'', 8),
     (''NNP_IPC_RUNTIME_FAILED'', 9), (''NNP_IPC_RUNTIME_LAUNCH_FAILED'', 10),
     (''NNP_IPC_DMA_ERROR'', 11), (''NNP_IPC_RUNTIME_NOT_SUPPORTED'', 12),
     (''NNP_IPC_RUNTIME_INVALID_EXECUTABLE_NETWORK_BINARY'', 13),
     (''NNP_IPC_RUNTIME_INFER_MISSING_RESOURCE'', 14),
     (''NNP_IPC_RUNTIME_INFER_EXEC_ERROR'', 15), (''NNP_IPC_RUNTIME_INFER_SCHEDULE_ERROR'', 16),
     (''NNP_IPC_CONTEXT_BROKEN'', 17), (''NNP_IPC_DEVNET_RESERVE_INSUFFICIENT_RESOURCES'', 18),
     (''NNP_IPC_TIMEOUT_EXCEEDED'', 19), (''NNP_IPC_ECC_ALLOC_FAILED'', 20),
     (''NNP_IPC_NO_SUCH_CHANNEL'', 21), (''NNP_IPC_NO_SUCH_CMD'', 22),
     (''NNP_IPC_NO_SUCH_HOSTRES'', 23), (''NNP_IPC_DEVNET_EDIT_BUSY'', 24),
     (''NNP_IPC_DEVNET_EDIT_ERROR'', 25), (''NNP_IPC_NOT_SUPPORTED'', 26),
     (''NNP_IPC_ICEDRV_INFER_EXEC_ERROR'', 27),
     (''NNP_IPC_ICEDRV_INFER_EXEC_ERROR_NEED_RESET'', 28),
     (''NNP_IPC_ICEDRV_INFER_EXEC_ERROR_NEED_CARD_RESET'', 29), (''NNP_IPC_NO_EXEC_ERRORS'', 30),
     (''NNP_IPC_IO_ERROR'', 31), (''NNP_IPC_INPUT_IS_DIRTY'', 32),
     (''NNP_IPC_FAILED_TO_RELEASE_CREDIT'', 33), (''NNP_IPC_CMDLIST_FINISHED'', 128)]"

text \<open>The codes and values the library's code names.\<close>

abbreviation (input) NNP_IPC_CREATE_CONTEXT_SUCCESS :: "7 word" where "NNP_IPC_CREATE_CONTEXT_SUCCESS \<equiv> 4"
abbreviation (input) NNP_IPC_CREATE_DEVRES_SUCCESS :: "7 word" where "NNP_IPC_CREATE_DEVRES_SUCCESS \<equiv> 5"
abbreviation (input) NNP_IPC_CREATE_COPY_SUCCESS :: "7 word" where "NNP_IPC_CREATE_COPY_SUCCESS \<equiv> 6"
abbreviation (input) NNP_IPC_EXECUTE_COPY_SUCCESS :: "7 word" where "NNP_IPC_EXECUTE_COPY_SUCCESS \<equiv> 7"
abbreviation (input) NNP_IPC_DEVRES_DESTROYED :: "7 word" where "NNP_IPC_DEVRES_DESTROYED \<equiv> 8"
abbreviation (input) NNP_IPC_COPY_DESTROYED :: "7 word" where "NNP_IPC_COPY_DESTROYED \<equiv> 9"
abbreviation (input) NNP_IPC_CONTEXT_DESTROYED :: "7 word" where "NNP_IPC_CONTEXT_DESTROYED \<equiv> 10"
abbreviation (input) NNP_IPC_CREATE_DEVNET_SUCCESS :: "7 word" where "NNP_IPC_CREATE_DEVNET_SUCCESS \<equiv> 11"
abbreviation (input) NNP_IPC_DEVNET_DESTROYED :: "7 word" where "NNP_IPC_DEVNET_DESTROYED \<equiv> 12"
abbreviation (input) NNP_IPC_CREATE_INFREQ_SUCCESS :: "7 word" where "NNP_IPC_CREATE_INFREQ_SUCCESS \<equiv> 13"
abbreviation (input) NNP_IPC_INFREQ_DESTROYED :: "7 word" where "NNP_IPC_INFREQ_DESTROYED \<equiv> 14"
abbreviation (input) NNP_IPC_RECOVER_CONTEXT_SUCCESS :: "7 word" where "NNP_IPC_RECOVER_CONTEXT_SUCCESS \<equiv> 15"
abbreviation (input) NNP_IPC_DEVNET_ADD_RES_SUCCESS :: "7 word" where "NNP_IPC_DEVNET_ADD_RES_SUCCESS \<equiv> 17"
abbreviation (input) NNP_IPC_DEVNET_RESOURCES_RESERVATION_SUCCESS :: "7 word" where "NNP_IPC_DEVNET_RESOURCES_RESERVATION_SUCCESS \<equiv> 19"
abbreviation (input) NNP_IPC_DEVNET_RESOURCES_RELEASE_SUCCESS :: "7 word" where "NNP_IPC_DEVNET_RESOURCES_RELEASE_SUCCESS \<equiv> 20"
abbreviation (input) NNP_IPC_ABORT_REQUEST :: "7 word" where "NNP_IPC_ABORT_REQUEST \<equiv> 26"
abbreviation (input) NNP_IPC_CREATE_CMD_SUCCESS :: "7 word" where "NNP_IPC_CREATE_CMD_SUCCESS \<equiv> 28"
abbreviation (input) NNP_IPC_CMD_DESTROYED :: "7 word" where "NNP_IPC_CMD_DESTROYED \<equiv> 29"
abbreviation (input) NNP_IPC_EXECUTE_CMD_COMPLETE :: "7 word" where "NNP_IPC_EXECUTE_CMD_COMPLETE \<equiv> 30"
abbreviation (input) NNP_IPC_DEVNET_SET_PROPERTY_SUCCESS :: "7 word" where "NNP_IPC_DEVNET_SET_PROPERTY_SUCCESS \<equiv> 31"
abbreviation (input) NNP_IPC_EXECUTE_CPYLST_SUCCESS :: "7 word" where "NNP_IPC_EXECUTE_CPYLST_SUCCESS \<equiv> 32"
abbreviation (input) NNP_IPC_GET_CR_FIFO_REPLY :: "7 word" where "NNP_IPC_GET_CR_FIFO_REPLY \<equiv> 33"
abbreviation (input) NNP_IPC_P2P_PEERS_CONNECTED :: "7 word" where "NNP_IPC_P2P_PEERS_CONNECTED \<equiv> 34"
abbreviation (input) NNP_IPC_P2P_PEER_DEV_UPDATED :: "7 word" where "NNP_IPC_P2P_PEER_DEV_UPDATED \<equiv> 35"
abbreviation (input) NNP_IPC_EXECUTE_COPY_SUBRES_SUCCESS :: "7 word" where "NNP_IPC_EXECUTE_COPY_SUBRES_SUCCESS \<equiv> 36"
abbreviation (input) NNP_IPC_CREATE_CONTEXT_FAILED :: "7 word" where "NNP_IPC_CREATE_CONTEXT_FAILED \<equiv> 52"
abbreviation (input) NNP_IPC_CREATE_DEVRES_FAILED :: "7 word" where "NNP_IPC_CREATE_DEVRES_FAILED \<equiv> 53"
abbreviation (input) NNP_IPC_CREATE_COPY_FAILED :: "7 word" where "NNP_IPC_CREATE_COPY_FAILED \<equiv> 54"
abbreviation (input) NNP_IPC_CREATE_SYNC_FAILED :: "7 word" where "NNP_IPC_CREATE_SYNC_FAILED \<equiv> 58"
abbreviation (input) NNP_IPC_CREATE_DEVNET_FAILED :: "7 word" where "NNP_IPC_CREATE_DEVNET_FAILED \<equiv> 60"
abbreviation (input) NNP_IPC_CREATE_INFREQ_FAILED :: "7 word" where "NNP_IPC_CREATE_INFREQ_FAILED \<equiv> 62"
abbreviation (input) NNP_IPC_RECOVER_CONTEXT_FAILED :: "7 word" where "NNP_IPC_RECOVER_CONTEXT_FAILED \<equiv> 64"
abbreviation (input) NNP_IPC_DEVNET_ADD_RES_FAILED :: "7 word" where "NNP_IPC_DEVNET_ADD_RES_FAILED \<equiv> 67"
abbreviation (input) NNP_IPC_DEVNET_RESOURCES_RESERVATION_FAILED :: "7 word" where "NNP_IPC_DEVNET_RESOURCES_RESERVATION_FAILED \<equiv> 68"
abbreviation (input) NNP_IPC_DEVNET_RESOURCES_RELEASE_FAILED :: "7 word" where "NNP_IPC_DEVNET_RESOURCES_RELEASE_FAILED \<equiv> 69"
abbreviation (input) NNP_IPC_CREATE_CMD_FAILED :: "7 word" where "NNP_IPC_CREATE_CMD_FAILED \<equiv> 73"
abbreviation (input) NNP_IPC_DEVNET_SET_PROPERTY_FAILED :: "7 word" where "NNP_IPC_DEVNET_SET_PROPERTY_FAILED \<equiv> 77"
abbreviation (input) NNP_IPC_EXECUTE_COPY_FAILED :: "7 word" where "NNP_IPC_EXECUTE_COPY_FAILED \<equiv> 79"
abbreviation (input) NNP_IPC_SCHEDULE_INFREQ_FAILED :: "7 word" where "NNP_IPC_SCHEDULE_INFREQ_FAILED \<equiv> 80"
abbreviation (input) NNP_IPC_EXECUTE_CPYLST_FAILED :: "7 word" where "NNP_IPC_EXECUTE_CPYLST_FAILED \<equiv> 81"
abbreviation (input) NNP_IPC_EXECUTE_COPY_SUBRES_FAILED :: "7 word" where "NNP_IPC_EXECUTE_COPY_SUBRES_FAILED \<equiv> 82"
abbreviation (input) NNP_IPC_EC_FAILED_TO_RELEASE_CREDIT :: "7 word" where "NNP_IPC_EC_FAILED_TO_RELEASE_CREDIT \<equiv> 83"
abbreviation (input) NNP_IPC_ERROR_RUNTIME_LAUNCH :: "7 word" where "NNP_IPC_ERROR_RUNTIME_LAUNCH \<equiv> 96"
abbreviation (input) NNP_IPC_ERROR_RUNTIME_DIED :: "7 word" where "NNP_IPC_ERROR_RUNTIME_DIED \<equiv> 97"
abbreviation (input) NNP_IPC_CONTEXT_EXEC_ERROR :: "7 word" where "NNP_IPC_CONTEXT_EXEC_ERROR \<equiv> 104"
abbreviation (input) NNP_IPC_ERROR_OS_CRASHED :: "7 word" where "NNP_IPC_ERROR_OS_CRASHED \<equiv> 112"
abbreviation (input) NNP_IPC_ERROR_CARD_RESET :: "7 word" where "NNP_IPC_ERROR_CARD_RESET \<equiv> 122"
abbreviation (input) NNP_IPC_ERROR_CHANNEL_KILLED :: "7 word" where "NNP_IPC_ERROR_CHANNEL_KILLED \<equiv> 123"

abbreviation (input) NNP_IPC_NO_SUCH_CONTEXT :: nat where "NNP_IPC_NO_SUCH_CONTEXT \<equiv> 1"
abbreviation (input) NNP_IPC_NO_SUCH_DEVRES :: nat where "NNP_IPC_NO_SUCH_DEVRES \<equiv> 2"
abbreviation (input) NNP_IPC_NO_SUCH_COPY :: nat where "NNP_IPC_NO_SUCH_COPY \<equiv> 3"
abbreviation (input) NNP_IPC_NO_SUCH_NET :: nat where "NNP_IPC_NO_SUCH_NET \<equiv> 4"
abbreviation (input) NNP_IPC_NO_SUCH_INFREQ :: nat where "NNP_IPC_NO_SUCH_INFREQ \<equiv> 5"
abbreviation (input) NNP_IPC_ALREADY_EXIST :: nat where "NNP_IPC_ALREADY_EXIST \<equiv> 6"
abbreviation (input) NNP_IPC_NO_DAEMON :: nat where "NNP_IPC_NO_DAEMON \<equiv> 7"
abbreviation (input) NNP_IPC_NO_MEMORY :: nat where "NNP_IPC_NO_MEMORY \<equiv> 8"
abbreviation (input) NNP_IPC_RUNTIME_FAILED :: nat where "NNP_IPC_RUNTIME_FAILED \<equiv> 9"
abbreviation (input) NNP_IPC_RUNTIME_LAUNCH_FAILED :: nat where "NNP_IPC_RUNTIME_LAUNCH_FAILED \<equiv> 10"
abbreviation (input) NNP_IPC_DMA_ERROR :: nat where "NNP_IPC_DMA_ERROR \<equiv> 11"
abbreviation (input) NNP_IPC_RUNTIME_NOT_SUPPORTED :: nat where "NNP_IPC_RUNTIME_NOT_SUPPORTED \<equiv> 12"
abbreviation (input) NNP_IPC_RUNTIME_INVALID_EXECUTABLE_NETWORK_BINARY :: nat where "NNP_IPC_RUNTIME_INVALID_EXECUTABLE_NETWORK_BINARY \<equiv> 13"
abbreviation (input) NNP_IPC_RUNTIME_INFER_MISSING_RESOURCE :: nat where "NNP_IPC_RUNTIME_INFER_MISSING_RESOURCE \<equiv> 14"
abbreviation (input) NNP_IPC_RUNTIME_INFER_EXEC_ERROR :: nat where "NNP_IPC_RUNTIME_INFER_EXEC_ERROR \<equiv> 15"
abbreviation (input) NNP_IPC_RUNTIME_INFER_SCHEDULE_ERROR :: nat where "NNP_IPC_RUNTIME_INFER_SCHEDULE_ERROR \<equiv> 16"
abbreviation (input) NNP_IPC_CONTEXT_BROKEN :: nat where "NNP_IPC_CONTEXT_BROKEN \<equiv> 17"
abbreviation (input) NNP_IPC_DEVNET_RESERVE_INSUFFICIENT_RESOURCES :: nat where "NNP_IPC_DEVNET_RESERVE_INSUFFICIENT_RESOURCES \<equiv> 18"
abbreviation (input) NNP_IPC_TIMEOUT_EXCEEDED :: nat where "NNP_IPC_TIMEOUT_EXCEEDED \<equiv> 19"
abbreviation (input) NNP_IPC_ECC_ALLOC_FAILED :: nat where "NNP_IPC_ECC_ALLOC_FAILED \<equiv> 20"
abbreviation (input) NNP_IPC_NO_SUCH_CHANNEL :: nat where "NNP_IPC_NO_SUCH_CHANNEL \<equiv> 21"
abbreviation (input) NNP_IPC_NO_SUCH_CMD :: nat where "NNP_IPC_NO_SUCH_CMD \<equiv> 22"
abbreviation (input) NNP_IPC_NOT_SUPPORTED :: nat where "NNP_IPC_NOT_SUPPORTED \<equiv> 26"
abbreviation (input) NNP_IPC_ICEDRV_INFER_EXEC_ERROR :: nat where "NNP_IPC_ICEDRV_INFER_EXEC_ERROR \<equiv> 27"
abbreviation (input) NNP_IPC_ICEDRV_INFER_EXEC_ERROR_NEED_RESET :: nat where "NNP_IPC_ICEDRV_INFER_EXEC_ERROR_NEED_RESET \<equiv> 28"
abbreviation (input) NNP_IPC_ICEDRV_INFER_EXEC_ERROR_NEED_CARD_RESET :: nat where "NNP_IPC_ICEDRV_INFER_EXEC_ERROR_NEED_CARD_RESET \<equiv> 29"
abbreviation (input) NNP_IPC_IO_ERROR :: nat where "NNP_IPC_IO_ERROR \<equiv> 31"
abbreviation (input) NNP_IPC_INPUT_IS_DIRTY :: nat where "NNP_IPC_INPUT_IS_DIRTY \<equiv> 32"
abbreviation (input) NNP_IPC_FAILED_TO_RELEASE_CREDIT :: nat where "NNP_IPC_FAILED_TO_RELEASE_CREDIT \<equiv> 33"
abbreviation (input) NNP_IPC_CMDLIST_FINISHED :: nat where "NNP_IPC_CMDLIST_FINISHED \<equiv> 128"

section \<open>Resource usage flags\<close>

abbreviation (input) NNP_RESOURCE_USAGE_NN_INPUT :: u32 where "NNP_RESOURCE_USAGE_NN_INPUT \<equiv> 1"
abbreviation (input) NNP_RESOURCE_USAGE_NN_OUTPUT :: u32 where "NNP_RESOURCE_USAGE_NN_OUTPUT \<equiv> 2"
abbreviation (input) NNP_RESOURCE_USAGE_NETWORK :: u32 where "NNP_RESOURCE_USAGE_NETWORK \<equiv> 4"
abbreviation (input) NNP_RESOURECE_USAGE_FORCE_4G_ALLOC :: u32 where "NNP_RESOURECE_USAGE_FORCE_4G_ALLOC \<equiv> 8"
abbreviation (input) NNP_RESOURECE_USAGE_ECC :: u32 where "NNP_RESOURECE_USAGE_ECC \<equiv> 16"
abbreviation (input) NNP_RESOURECE_USAGE_P2P_DST :: u32 where "NNP_RESOURECE_USAGE_P2P_DST \<equiv> 32"
abbreviation (input) NNP_RESOURECE_USAGE_P2P_SRC :: u32 where "NNP_RESOURECE_USAGE_P2P_SRC \<equiv> 64"
abbreviation (input) NNP_RESOURECE_USAGE_LOCKLESS :: u32 where "NNP_RESOURECE_USAGE_LOCKLESS \<equiv> 128"

text \<open>The test \<open>flags & mask\<close> of the sources.\<close>

definition has_flag :: "u32 \<Rightarrow> u32 \<Rightarrow> bool" where
  "has_flag flags bits \<longleftrightarrow> and flags bits \<noteq> 0"

section \<open>Translations\<close>

definition event_valToNNPError :: "nat \<Rightarrow> NNPError" where
  "event_valToNNPError ev =
    (if ev = 0 then NNP_NO_ERROR
     else if ev = NNP_IPC_NO_SUCH_CONTEXT then NNP_NO_SUCH_CONTEXT
     else if ev = NNP_IPC_NO_SUCH_DEVRES then NNP_NO_SUCH_RESOURCE
     else if ev = NNP_IPC_NO_SUCH_COPY then NNP_NO_SUCH_COPY_HANDLE
     else if ev = NNP_IPC_NO_SUCH_NET then NNP_NO_SUCH_NETWORK
     else if ev = NNP_IPC_NO_SUCH_INFREQ then NNP_NO_SUCH_INFREQ_HANDLE
     else if ev = NNP_IPC_NO_DAEMON then NNP_DEVICE_NOT_READY
     else if ev = NNP_IPC_NO_MEMORY then NNP_OUT_OF_MEMORY
     else if ev = NNP_IPC_RUNTIME_NOT_SUPPORTED then NNP_NOT_SUPPORTED
     else if ev = NNP_IPC_RUNTIME_INVALID_EXECUTABLE_NETWORK_BINARY then NNP_INVALID_EXECUTABLE_NETWORK_BINARY
     else if ev = NNP_IPC_RUNTIME_INFER_MISSING_RESOURCE then NNP_INFER_MISSING_RESOURCE
     else if ev = NNP_IPC_DEVNET_RESERVE_INSUFFICIENT_RESOURCES then NNP_DEVNET_RESERVE_INSUFFICIENT_RESOURCES
     else if ev = NNP_IPC_TIMEOUT_EXCEEDED then NNP_TIMED_OUT
     else if ev = NNP_IPC_ECC_ALLOC_FAILED then NNP_OUT_OF_ECC_MEMORY
     else if ev = NNP_IPC_CONTEXT_BROKEN then NNP_CONTEXT_BROKEN
     else if ev \<in> {NNP_IPC_RUNTIME_LAUNCH_FAILED, NNP_IPC_RUNTIME_FAILED, NNP_IPC_ALREADY_EXIST, NNP_IPC_DMA_ERROR, NNP_IPC_RUNTIME_INFER_EXEC_ERROR, NNP_IPC_RUNTIME_INFER_SCHEDULE_ERROR, NNP_IPC_NO_SUCH_CHANNEL, NNP_IPC_NO_SUCH_CMD} then NNP_INTERNAL_DRIVER_ERROR
     else NNP_UNKNOWN_ERROR)"

text \<open>Linux error numbers, and the driver's own above 200.\<close>

abbreviation (input) EPERM :: nat where "EPERM \<equiv> 1"
abbreviation (input) EINTR :: nat where "EINTR \<equiv> 4"
abbreviation (input) EIO :: nat where "EIO \<equiv> 5"
abbreviation (input) ENXIO :: nat where "ENXIO \<equiv> 6"
abbreviation (input) EBADF :: nat where "EBADF \<equiv> 9"
abbreviation (input) EAGAIN :: nat where "EAGAIN \<equiv> 11"
abbreviation (input) ENOMEM :: nat where "ENOMEM \<equiv> 12"
abbreviation (input) EFAULT :: nat where "EFAULT \<equiv> 14"
abbreviation (input) EBUSY :: nat where "EBUSY \<equiv> 16"
abbreviation (input) ENODEV :: nat where "ENODEV \<equiv> 19"
abbreviation (input) EINVAL :: nat where "EINVAL \<equiv> 22"
abbreviation (input) ENOTTY :: nat where "ENOTTY \<equiv> 25"
abbreviation (input) EFBIG :: nat where "EFBIG \<equiv> 27"
abbreviation (input) ENOSPC :: nat where "ENOSPC \<equiv> 28"
abbreviation (input) EPIPE :: nat where "EPIPE \<equiv> 32"
abbreviation (input) EBADRQC :: nat where "EBADRQC \<equiv> 56"
abbreviation (input) ETIME :: nat where "ETIME \<equiv> 62"
abbreviation (input) EBADFD :: nat where "EBADFD \<equiv> 77"
abbreviation (input) ENOBUFS :: nat where "ENOBUFS \<equiv> 105"
abbreviation (input) NNPER_DEVICE_NOT_READY :: nat where "NNPER_DEVICE_NOT_READY \<equiv> 201"
abbreviation (input) NNPER_NO_SUCH_RESOURCE :: nat where "NNPER_NO_SUCH_RESOURCE \<equiv> 202"
abbreviation (input) NNPER_INCOMPATIBLE_RESOURCES :: nat where "NNPER_INCOMPATIBLE_RESOURCES \<equiv> 203"
abbreviation (input) NNPER_DEVICE_ERROR :: nat where "NNPER_DEVICE_ERROR \<equiv> 204"
abbreviation (input) NNPER_NO_SUCH_CHANNEL :: nat where "NNPER_NO_SUCH_CHANNEL \<equiv> 205"
abbreviation (input) NNPER_NO_SUCH_HOSTRES_MAP :: nat where "NNPER_NO_SUCH_HOSTRES_MAP \<equiv> 206"
abbreviation (input) NNPER_VERSIONS_MISMATCH :: nat where "NNPER_VERSIONS_MISMATCH \<equiv> 207"
abbreviation (input) NNPER_NO_SUCH_CONTEXT :: nat where "NNPER_NO_SUCH_CONTEXT \<equiv> 223"
abbreviation (input) NNPER_NO_SUCH_NETWORK :: nat where "NNPER_NO_SUCH_NETWORK \<equiv> 225"
abbreviation (input) NNPER_TOO_MANY_CONTEXTS :: nat where "NNPER_TOO_MANY_CONTEXTS \<equiv> 226"
abbreviation (input) NNPER_CONTEXT_BROKEN :: nat where "NNPER_CONTEXT_BROKEN \<equiv> 227"
abbreviation (input) NNPER_TIMED_OUT :: nat where "NNPER_TIMED_OUT \<equiv> 229"
abbreviation (input) NNPER_BROKEN_MARKER :: nat where "NNPER_BROKEN_MARKER \<equiv> 230"
abbreviation (input) NNPER_NO_SUCH_COPY_HANDLE :: nat where "NNPER_NO_SUCH_COPY_HANDLE \<equiv> 231"
abbreviation (input) NNPER_NO_SUCH_INFREQ_HANDLE :: nat where "NNPER_NO_SUCH_INFREQ_HANDLE \<equiv> 232"
abbreviation (input) NNPER_INTERNAL_DRIVER_ERROR :: nat where "NNPER_INTERNAL_DRIVER_ERROR \<equiv> 233"
abbreviation (input) NNPER_NOT_SUPPORTED :: nat where "NNPER_NOT_SUPPORTED \<equiv> 234"
abbreviation (input) NNPER_INVALID_EXECUTABLE_NETWORK_BINARY :: nat where "NNPER_INVALID_EXECUTABLE_NETWORK_BINARY \<equiv> 235"
abbreviation (input) NNPER_INFER_MISSING_RESOURCE :: nat where "NNPER_INFER_MISSING_RESOURCE \<equiv> 236"
abbreviation (input) NNPER_INFER_EXEC_ERROR :: nat where "NNPER_INFER_EXEC_ERROR \<equiv> 237"
abbreviation (input) NNPER_INFER_SCHEDULE_ERROR :: nat where "NNPER_INFER_SCHEDULE_ERROR \<equiv> 238"
abbreviation (input) NNPER_NO_SUCH_CMDLIST :: nat where "NNPER_NO_SUCH_CMDLIST \<equiv> 239"
abbreviation (input) NNPER_ERROR_RUNTIME_LAUNCH :: nat where "NNPER_ERROR_RUNTIME_LAUNCH \<equiv> 240"
abbreviation (input) NNPER_ERROR_RUNTIME_DIED :: nat where "NNPER_ERROR_RUNTIME_DIED \<equiv> 241"
abbreviation (input) NNPER_ERROR_OS_CRASHED :: nat where "NNPER_ERROR_OS_CRASHED \<equiv> 242"
abbreviation (input) NNPER_ERROR_EXECUTE_COPY_FAILED :: nat where "NNPER_ERROR_EXECUTE_COPY_FAILED \<equiv> 243"
abbreviation (input) NNPER_CRITICAL_ERROR_UNKNOWN :: nat where "NNPER_CRITICAL_ERROR_UNKNOWN \<equiv> 244"
abbreviation (input) NNPER_HOSTRES_BROKEN :: nat where "NNPER_HOSTRES_BROKEN \<equiv> 245"
abbreviation (input) NNPER_GRACEFUL_DESTROY :: nat where "NNPER_GRACEFUL_DESTROY \<equiv> 246"
abbreviation (input) NNPER_CARD_RESET :: nat where "NNPER_CARD_RESET \<equiv> 247"
abbreviation (input) NNPER_INCOMPLETE_NETWORK :: nat where "NNPER_INCOMPLETE_NETWORK \<equiv> 248"
abbreviation (input) NNPER_INSUFFICIENT_RESOURCES :: nat where "NNPER_INSUFFICIENT_RESOURCES \<equiv> 249"
abbreviation (input) NNPER_ECC_ALLOC_FAILED :: nat where "NNPER_ECC_ALLOC_FAILED \<equiv> 250"

text \<open>\<open>errnoToNNPError\<close>: the argument is a \<open>uint8_t\<close>; when it is 0 the thread's \<open>errno\<close> is
  translated instead.\<close>

definition errnoToNNPError :: "nat \<Rightarrow> u8 \<Rightarrow> NNPError" where
  "errnoToNNPError errno nnp_kernel_error =
    (let error = (if nnp_kernel_error = 0 then errno else unat nnp_kernel_error)
     in if error = 0 then NNP_NO_ERROR
        else if error \<in> {ENOTTY, EBADF, ENODEV} then NNP_NO_SUCH_DEVICE
        else if error = NNPER_DEVICE_NOT_READY then NNP_DEVICE_NOT_READY
        else if error \<in> {ENOSPC, ENOMEM} then NNP_OUT_OF_MEMORY
        else if error = NNPER_NO_SUCH_RESOURCE then NNP_NO_SUCH_RESOURCE
        else if error = NNPER_NO_SUCH_CONTEXT then NNP_NO_SUCH_CONTEXT
        else if error \<in> {EBADFD, EPERM, NNPER_INCOMPATIBLE_RESOURCES} then NNP_INCOMPATIBLE_RESOURCES
        else if error = NNPER_NO_SUCH_NETWORK then NNP_NO_SUCH_NETWORK
        else if error = NNPER_INCOMPLETE_NETWORK then NNP_INCOMPLETE_NETWORK
        else if error \<in> {EFBIG, NNPER_TOO_MANY_CONTEXTS} then NNP_TOO_MANY_CONTEXTS
        else if error \<in> {ENOBUFS, EINVAL} then NNP_INVALID_ARGUMENT
        else if error = NNPER_CONTEXT_BROKEN then NNP_CONTEXT_BROKEN
        else if error = NNPER_HOSTRES_BROKEN then NNP_HOSTRES_BROKEN
        else if error \<in> {EPIPE, NNPER_DEVICE_ERROR} then NNP_DEVICE_ERROR
        else if error \<in> {EBUSY, ETIME, NNPER_TIMED_OUT} then NNP_TIMED_OUT
        else if error \<in> {EBADRQC, NNPER_BROKEN_MARKER} then NNP_BROKEN_MARKER
        else if error = EIO then NNP_IO_ERROR
        else if error = NNPER_NO_SUCH_COPY_HANDLE then NNP_NO_SUCH_COPY_HANDLE
        else if error = NNPER_NO_SUCH_CMDLIST then NNP_NO_SUCH_CMDLIST
        else if error = NNPER_NO_SUCH_INFREQ_HANDLE then NNP_NO_SUCH_INFREQ_HANDLE
        else if error \<in> {EFAULT, NNPER_INTERNAL_DRIVER_ERROR} then NNP_INTERNAL_DRIVER_ERROR
        else if error = EINTR then NNP_OPERATION_INTERRUPTED
        else if error = NNPER_NOT_SUPPORTED then NNP_NOT_SUPPORTED
        else if error = NNPER_INVALID_EXECUTABLE_NETWORK_BINARY then NNP_INVALID_EXECUTABLE_NETWORK_BINARY
        else if error = NNPER_INFER_MISSING_RESOURCE then NNP_INFER_MISSING_RESOURCE
        else if error = NNPER_INSUFFICIENT_RESOURCES then NNP_DEVNET_RESERVE_INSUFFICIENT_RESOURCES
        else if error = NNPER_ECC_ALLOC_FAILED then NNP_OUT_OF_ECC_MEMORY
        else if error = NNPER_VERSIONS_MISMATCH then NNP_VERSIONS_MISMATCH
        else NNP_UNKNOWN_ERROR)"

section \<open>Properties\<close>

text \<open>the event codes are distinct and fit the 7-bit field; a code is context-fatal exactly
  when it is declared in one of the two context-fatal ranges, card-fatal exactly when it is
  declared in one of the two card-fatal ranges, and no code is both.\<close>

theorem event_code_classes:
  "distinct (map snd event_codes) \<and> list_all (\<lambda>(_, e). e < 128) event_codes
   \<and> map fst (filter (\<lambda>(_, e). is_context_fatal_event e) event_codes) =
       [''NNP_IPC_ERROR_RUNTIME_LAUNCH'', ''NNP_IPC_ERROR_RUNTIME_DIED'',
        ''NNP_IPC_CONTEXT_EXEC_ERROR'', ''NNP_IPC_CTX_DRAM_ECC_UNCORRECTABLE'']
   \<and> map fst (filter (\<lambda>(_, e). is_card_fatal_event e) event_codes) =
       [''NNP_IPC_ERROR_OS_CRASHED'', ''NNP_IPC_ERROR_DRAM_ECC_UNCORRECTABLE_FATAL'',
        ''NNP_IPC_ERROR_FATAL_ICE_ERROR'', ''NNP_IPC_ERROR_PCI_ERROR'',
        ''NNP_IPC_ERROR_MCE_UNCORRECTABLE_FATAL'', ''NNP_IPC_ERROR_CARD_RESET'',
        ''NNP_IPC_ERROR_CHANNEL_KILLED'', ''NNP_IPC_ERROR_PROTOCOL_ERROR'',
        ''NNP_IPC_FATAL_DMA_HANG_DETECTED'']
   \<and> \<not> (is_context_fatal_event e \<and> is_card_fatal_event e)"
proof (intro conjI)
  show "distinct (map snd event_codes)" by (simp add: event_codes_def)
  show "list_all (\<lambda>(_, e). e < 128) event_codes" by (simp add: event_codes_def)
qed (simp_all add: event_codes_def is_context_fatal_event_def is_card_fatal_event_def)

text \<open>a failed call is never reported as success: the translation of an event value is
  \<open>NNP_NO_ERROR\<close> only for 0, and the translation of a kernel error is \<open>NNP_NO_ERROR\<close> only
  when both the returned number and \<open>errno\<close> are 0.\<close>

theorem no_error_iff:
  "(event_valToNNPError ev = NNP_NO_ERROR \<longleftrightarrow> ev = 0)
   \<and> (errnoToNNPError errno k = NNP_NO_ERROR \<longleftrightarrow> k = 0 \<and> errno = 0)"
proof
  have if_bool: "(if c then True else False) = c" for c
    by simp
  have if_eq: "((if c then x else y) = z) = (if c then x = z else y = z)" for c and x y z :: NNPError
    by simp
  show "event_valToNNPError ev = NNP_NO_ERROR \<longleftrightarrow> ev = 0"
    by (simp add: event_valToNNPError_def if_eq if_bool split del: if_split cong: if_cong)
  show "errnoToNNPError errno k = NNP_NO_ERROR \<longleftrightarrow> k = 0 \<and> errno = 0"
    by (cases "k = 0") (simp_all add: errnoToNNPError_def Let_def if_eq if_bool unat_eq_zero split del: if_split
        cong: if_cong)
qed

end
