(* ===== verification/Host_Res.thy ===== *)
theory Host_Res
  imports Nnp_Types
begin

text \<open>
  \<open>nnpiHostRes\<close> (\<open>nnpiHostProc.h\<close>, \<open>nnpiHostProc.cpp\<close>): a pinned host buffer with its
  readers/writer lock between the application (CPU access) and the card (copies); the \<open>ioctl\<close> calls are answered by
  a given list of results.
\<close>

section \<open>State\<close>

record hostres =
  m_usage_flags :: u32
  m_byte_size :: u64
  m_kmd_handle :: int
  m_failed_copy_ops :: int
  m_readers :: int
  m_cpu_locked :: int
  m_cpu_sync_needed :: bool
  m_user_hdl :: u64
  m_allocated :: bool
  m_dmaBuf_fd :: int
  m_cpu_addr :: u64
  m_alloced :: bool

text \<open>The two constructors: memory of the process, which \<open>create\<close> has mapped or the application has
  passed, and an imported dma-buf.\<close>

definition hostres_new :: "u64 \<Rightarrow> u32 \<Rightarrow> int \<Rightarrow> u64 \<Rightarrow> bool \<Rightarrow> hostres" where
  "hostres_new byte_size usage_flags kmd_handle mappedAddr alloced =
     \<lparr>m_usage_flags = usage_flags, m_byte_size = byte_size, m_kmd_handle = kmd_handle,
      m_failed_copy_ops = 0, m_readers = 0, m_cpu_locked = 0, m_cpu_sync_needed = False,
      m_user_hdl = 0, m_allocated = True, m_dmaBuf_fd = -1, m_cpu_addr = mappedAddr, m_alloced = alloced\<rparr>"

definition hostres_new_dmabuf :: "u64 \<Rightarrow> int \<Rightarrow> u32 \<Rightarrow> int \<Rightarrow> hostres" where
  "hostres_new_dmabuf byte_size dmaBuf_fd usage_flags kmd_handle =
     (hostres_new byte_size usage_flags kmd_handle 0 False)
       \<lparr>m_cpu_sync_needed := True, m_allocated := False, m_dmaBuf_fd := dmaBuf_fd\<rparr>"

definition enableCPUsync :: "hostres \<Rightarrow> hostres" where
  "enableCPUsync h = h\<lparr>m_cpu_sync_needed := True\<rparr>"

definition update_copy_fail_count :: "int \<Rightarrow> hostres \<Rightarrow> hostres" where
  "update_copy_fail_count n h = h\<lparr>m_failed_copy_ops := m_failed_copy_ops h + n\<rparr>"

definition broken :: "hostres \<Rightarrow> bool" where
  "broken h \<longleftrightarrow> m_failed_copy_ops h > 0"

section \<open>Driver calls\<close>

text \<open>
  The result of one \<open>ioctl\<close>: success, or a failure with \<open>errno\<close> and the driver's \<open>o_errno\<close>.
  \<open>begin_cpu_access\<close> repeats the call while it is interrupted; \<open>None\<close> is a call that is
  interrupted for as long as the list goes.
\<close>

datatype ioctl_result = Ioctl_Ok | Ioctl_Fail (io_errno: nat) (io_o_errno: u8)

definition ioctl_error :: "nat \<Rightarrow> u8 \<Rightarrow> NNPError" where
  "ioctl_error errno o_errno =
     errnoToNNPError errno (if o_errno \<noteq> 0 then o_errno else of_nat errno)"

fun begin_cpu_access :: "ioctl_result list \<Rightarrow> NNPError option" where
  "begin_cpu_access [] = None"
| "begin_cpu_access (Ioctl_Ok # rs) = Some NNP_NO_ERROR"
| "begin_cpu_access (Ioctl_Fail e o_errno # rs) =
     (if e = EINTR then begin_cpu_access rs else Some (ioctl_error e o_errno))"

definition end_cpu_access :: "ioctl_result \<Rightarrow> NNPError" where
  "end_cpu_access r = (case r of Ioctl_Ok \<Rightarrow> NNP_NO_ERROR | Ioctl_Fail e oe \<Rightarrow> ioctl_error e oe)"

section \<open>The lock\<close>

definition lockless :: "hostres \<Rightarrow> bool" where
  "lockless h \<longleftrightarrow> has_flag (m_usage_flags h) NNP_RESOURECE_USAGE_LOCKLESS"

text \<open>
  \<open>lock_cpu_access\<close> is two steps: the tests made without the mutex, and, once the condition of
  the wait holds, the section under the mutex.
\<close>

definition lock_cpu_check :: "hostres \<Rightarrow> NNPError" where
  "lock_cpu_check h =
     (if lockless h then NNP_NOT_SUPPORTED
      else if m_cpu_locked h \<noteq> 0 then NNP_INVALID_ARGUMENT else NNP_NO_ERROR)"

definition lock_cpu_cond :: "bool \<Rightarrow> hostres \<Rightarrow> bool" where
  "lock_cpu_cond for_write h = (if for_write then m_readers h = 0 else m_readers h \<ge> 0)"

definition lock_cpu_section :: "bool \<Rightarrow> ioctl_result list \<Rightarrow> hostres \<Rightarrow> (NNPError \<times> hostres) option" where
  "lock_cpu_section for_write rs h =
     (if broken h then Some (NNP_CONTEXT_BROKEN, h)
      else map_option
        (\<lambda>ret. (ret, if ret = NNP_NO_ERROR
                     then h\<lparr>m_readers := (if for_write then -1 else m_readers h + 1),
                            m_cpu_locked := (if for_write then -1 else 1)\<rparr>
                     else h))
        (if m_cpu_sync_needed h then begin_cpu_access rs else Some NNP_NO_ERROR))"

text \<open>The whole call, when no other thread comes between; \<open>None\<close> is a call that waits.\<close>

definition lock_cpu_access ::
    "u32 \<Rightarrow> bool \<Rightarrow> ioctl_result list \<Rightarrow> hostres \<Rightarrow> (NNPError \<times> hostres) option" where
  "lock_cpu_access timeoutUs for_write rs h =
     (if lock_cpu_check h \<noteq> NNP_NO_ERROR then Some (lock_cpu_check h, h)
      else if \<not> lock_cpu_cond for_write h then
        (if timeoutUs = UINT32_MAX then None else Some (NNP_TIMED_OUT, h))
      else lock_cpu_section for_write rs h)"

definition unlock_cpu_access :: "ioctl_result \<Rightarrow> hostres \<Rightarrow> NNPError \<times> hostres" where
  "unlock_cpu_access r h =
     (if lockless h then (NNP_NOT_SUPPORTED, h)
      else
        let (ret, h') =
          (if m_cpu_locked h < 0 then (NNP_NO_ERROR, h\<lparr>m_readers := 0, m_cpu_locked := 0\<rparr>)
           else if m_cpu_locked h > 0 then
             (NNP_NO_ERROR, h\<lparr>m_readers := m_readers h - 1, m_cpu_locked := 0\<rparr>)
           else (NNP_INVALID_ARGUMENT, h))
        in (if m_cpu_sync_needed h' \<and> ret = NNP_NO_ERROR then (end_cpu_access r, h')
            else (ret, h')))"

definition lock_device_access :: "bool \<Rightarrow> hostres \<Rightarrow> NNPError \<times> hostres" where
  "lock_device_access for_write h =
     (if lockless h then (NNP_NO_ERROR, h)
      else if for_write \<and> m_readers h = 0 then (NNP_NO_ERROR, h\<lparr>m_readers := -1\<rparr>)
      else if \<not> for_write \<and> m_readers h \<ge> 0 then
        (NNP_NO_ERROR, h\<lparr>m_readers := m_readers h + 1\<rparr>)
      else (NNP_DEVICE_BUSY, h))"

definition unlock_device_access :: "bool \<Rightarrow> hostres \<Rightarrow> hostres" where
  "unlock_device_access for_write h =
     (if lockless h then h
      else if for_write then h\<lparr>m_readers := 0\<rparr> else h\<lparr>m_readers := m_readers h - 1\<rparr>)"


lemmas hostres_lock_defs = lock_cpu_access_def lock_cpu_check_def lock_cpu_cond_def
  lock_cpu_section_def unlock_cpu_access_def lock_device_access_def unlock_device_access_def

lemma lockless_simps [simp]:
  "lockless (h\<lparr>m_readers := r\<rparr>) = lockless h"
  "lockless (h\<lparr>m_cpu_locked := c\<rparr>) = lockless h"
  by (simp_all add: lockless_def)

section \<open>The interface of a lock that can be undone\<close>

text \<open>
  What the schedulers of copies, copy lists and infer requests rely on: a refused lock changes
  nothing, and a release takes back a granted lock. \<open>acquire_all\<close> takes the locks of a list
  in order and, when one is refused, gives back those it has.
\<close>

fun acquire_all :: "('k \<Rightarrow> 's \<Rightarrow> bool \<times> 's) \<Rightarrow> ('k \<Rightarrow> 's \<Rightarrow> 's) \<Rightarrow> 'k list \<Rightarrow> 's \<Rightarrow> bool \<times> 's" where
  "acquire_all acq rel [] s = (True, s)"
| "acquire_all acq rel (k # ks) s =
     (case acq k s of
        (False, s1) \<Rightarrow> (False, s1)
      | (True, s1) \<Rightarrow>
          (case acquire_all acq rel ks s1 of
             (True, s2) \<Rightarrow> (True, s2)
           | (False, s2) \<Rightarrow> (False, rel k s2)))"

locale undoable_lock =
  fixes acq :: "'k \<Rightarrow> 's \<Rightarrow> bool \<times> 's"
    and rel :: "'k \<Rightarrow> 's \<Rightarrow> 's"
  assumes refused: "acq k s = (False, s') \<Longrightarrow> s' = s"
    and undo: "acq k s = (True, s') \<Longrightarrow> rel k s' = s"
begin

lemma acquire_all_refused: "acquire_all acq rel ks s = (False, s') \<Longrightarrow> s' = s"
proof (induction ks arbitrary: s s')
  case Nil
  then show ?case by simp
next
  case (Cons k ks)
  obtain b s1 where a: "acq k s = (b, s1)" by fastforce
  show ?case
  proof (cases b)
    case False
    with a Cons.prems refused show ?thesis by auto
  next
    case True
    then obtain s2 where "acquire_all acq rel ks s1 = (False, s2)" "s' = rel k s2"
      using a Cons.prems by (auto split: prod.splits bool.splits)
    with Cons.IH [of s1 s2] undo [of k s s1] a True show ?thesis by simp
  qed
qed

lemma release_all: "acquire_all acq rel ks s = (True, s') \<Longrightarrow> foldr rel ks s' = s"
proof (induction ks arbitrary: s s')
  case Nil
  then show ?case by simp
next
  case (Cons k ks)
  obtain b s1 where a: "acq k s = (b, s1)" by fastforce
  from Cons.prems a have b: "b" and r: "acquire_all acq rel ks s1 = (True, s')"
    by (auto split: prod.splits bool.splits)
  from Cons.IH [OF r] undo [of k s s1] a b show ?case by simp
qed

end

definition dev_acq :: "bool \<Rightarrow> hostres \<Rightarrow> bool \<times> hostres" where
  "dev_acq w h = (let (e, h') = lock_device_access w h in (e = NNP_NO_ERROR, h'))"

lemma lock_device_undo:
  "lock_device_access w h = (NNP_NO_ERROR, h') \<Longrightarrow> unlock_device_access w h' = h"
  by (auto simp: lock_device_access_def unlock_device_access_def split: if_splits)

lemma lock_device_refused: "lock_device_access w h = (e, h') \<Longrightarrow> e \<noteq> NNP_NO_ERROR \<Longrightarrow> h' = h"
  by (auto simp: lock_device_access_def split: if_splits)

interpretation dev: undoable_lock dev_acq unlock_device_access
  by unfold_locales
    (auto simp: dev_acq_def lock_device_undo dest: lock_device_refused split: prod.splits)

section \<open>Who holds the lock\<close>

text \<open>
  The calls on a buffer, each one step, with the copies that hold it for reading, and whether
  one holds it for writing. Only a holder releases.
\<close>

inductive lock_step :: "hostres \<times> nat \<times> bool \<Rightarrow> hostres \<times> nat \<times> bool \<Rightarrow> bool" where
  cpu_lock: "lock_cpu_access t w rs h = Some (e, h') \<Longrightarrow> lock_step (h, r, d) (h', r, d)"
| cpu_unlock: "unlock_cpu_access k h = (e, h') \<Longrightarrow> lock_step (h, r, d) (h', r, d)"
| dev_read: "lock_device_access False h = (NNP_NO_ERROR, h') \<Longrightarrow>
    lock_step (h, r, d) (h', Suc r, d)"
| dev_write: "lock_device_access True h = (NNP_NO_ERROR, h') \<Longrightarrow>
    lock_step (h, r, d) (h', r, True)"
| dev_busy: "lock_device_access w h = (NNP_DEVICE_BUSY, h') \<Longrightarrow> lock_step (h, r, d) (h', r, d)"
| dev_read_done: "lock_step (h, Suc r, d) (unlock_device_access False h, r, d)"
| dev_write_done: "lock_step (h, r, True) (unlock_device_access True h, r, False)"

definition lock_inv :: "hostres \<Rightarrow> nat \<Rightarrow> bool \<Rightarrow> bool" where
  "lock_inv h r d \<longleftrightarrow> \<not> lockless h \<and> m_cpu_locked h \<in> {-1, 0, 1}
     \<and> m_readers h = (if d \<or> m_cpu_locked h = -1 then -1 else int r + m_cpu_locked h)
     \<and> (d \<longrightarrow> r = 0 \<and> m_cpu_locked h = 0) \<and> (m_cpu_locked h = -1 \<longrightarrow> r = 0)"

lemma lock_inv_cpu_lock:
  "lock_inv h r d \<Longrightarrow> lock_cpu_access t w rs h = Some (e, h') \<Longrightarrow> lock_inv h' r d"
  by (auto simp: lock_inv_def hostres_lock_defs split: if_splits)

lemma lock_inv_cpu_unlock:
  "lock_inv h r d \<Longrightarrow> unlock_cpu_access k h = (e, h') \<Longrightarrow> lock_inv h' r d"
  by (auto simp: lock_inv_def hostres_lock_defs Let_def split: if_splits)

lemma lock_inv_dev:
  "lock_inv h r d \<Longrightarrow> lock_device_access False h = (NNP_NO_ERROR, h') \<Longrightarrow> lock_inv h' (Suc r) d"
  "lock_inv h r d \<Longrightarrow> lock_device_access True h = (NNP_NO_ERROR, h') \<Longrightarrow> lock_inv h' r True"
  "lock_inv h (Suc r) d \<Longrightarrow> lock_inv (unlock_device_access False h) r d"
  "lock_inv h r True \<Longrightarrow> lock_inv (unlock_device_access True h) r False"
  by (auto simp: lock_inv_def hostres_lock_defs split: if_splits)

lemma lock_step_inv:
  assumes "lock_step (h, r, d) (h', r', d')" and "lock_inv h r d"
  shows "lock_inv h' r' d'"
  using assms(1)
proof cases
  case cpu_lock
  with assms(2) show ?thesis using lock_inv_cpu_lock by blast
next
  case cpu_unlock
  with assms(2) show ?thesis using lock_inv_cpu_unlock by blast
next
  case dev_read
  with assms(2) show ?thesis using lock_inv_dev(1) by blast
next
  case dev_write
  with assms(2) show ?thesis using lock_inv_dev(2) by blast
next
  case (dev_busy w)
  with assms(2) show ?thesis using lock_device_refused by blast
next
  case dev_read_done
  with assms(2) show ?thesis using lock_inv_dev(3) by blast
next
  case dev_write_done
  with assms(2) show ?thesis using lock_inv_dev(4) by blast
qed

lemma lock_reach_inv:
  assumes "lock_step\<^sup>*\<^sup>* (h0, 0, False) (h, r, d)" and "lock_inv h0 0 False"
  shows "lock_inv h r d"
proof -
  have "lock_inv (fst st) (fst (snd st)) (snd (snd st))"
    if "lock_step\<^sup>*\<^sup>* (h0, 0, False) st" for st
    using that
  proof (induction rule: rtranclp_induct)
    case base
    with assms(2) show ?case by simp
  next
    case (step y z)
    then show ?case using lock_step_inv by (metis prod.collapse)
  qed
  from this [OF assms(1)] show ?thesis by simp
qed

lemma lock_inv_init: "\<not> has_flag fl NNP_RESOURECE_USAGE_LOCKLESS \<Longrightarrow> lock_inv (hostres_new n fl k p al) 0 False"
  by (simp add: lock_inv_def hostres_new_def lockless_def)


section \<open>Properties\<close>



text \<open>C37: a lock that is refused, that fails or that times out leaves the buffer as it was,
  and the release of a granted CPU lock restores it; no failure leaves a lock behind.\<close>

theorem lock_failure_restores:
  assumes "lock_cpu_access t w rs h = Some (e, h')" and "m_cpu_locked h = 0"
  shows "if e = NNP_NO_ERROR
    then snd (unlock_cpu_access k h') = h
      \<and> (m_cpu_sync_needed h \<or> fst (unlock_cpu_access k h') = NNP_NO_ERROR)
    else h' = h"
  using assms by (auto simp: hostres_lock_defs Let_def split: if_splits)

theorem lock_failure_restores_witness:
  "if NNP_NO_ERROR = NNP_NO_ERROR
    then snd (unlock_cpu_access Ioctl_Ok ((hostres_new 16 1 3 4096 True)\<lparr>m_readers := -1, m_cpu_locked := -1\<rparr>))
        = hostres_new 16 1 3 4096 True
      \<and> (m_cpu_sync_needed (hostres_new 16 1 3 4096 True)
         \<or> fst (unlock_cpu_access Ioctl_Ok ((hostres_new 16 1 3 4096 True)\<lparr>m_readers := -1, m_cpu_locked := -1\<rparr>))
           = NNP_NO_ERROR)
    else (hostres_new 16 1 3 4096 True)\<lparr>m_readers := -1, m_cpu_locked := -1\<rparr> = hostres_new 16 1 3 4096 True"
  by (rule lock_failure_restores [of 5 True "[]"])
    (simp_all add: hostres_lock_defs hostres_new_def lockless_def has_flag_def broken_def)

text \<open>C38: the test that refuses a second CPU lock is made without the mutex. When two threads
  both pass it before either enters the section, both get a read lock, and of the two unlock
  calls only the first is accepted: the buffer stays read-locked by nobody, and no copy can
  write it any more.\<close>

theorem cpu_lock_race:
  assumes "\<not> lockless h" and "m_cpu_locked h = 0" and "m_readers h = 0" and "\<not> broken h"
    and "\<not> m_cpu_sync_needed h"
  shows "lock_cpu_check h = NNP_NO_ERROR \<and>
    (\<exists>h1 h2 h3. lock_cpu_section False [] h = Some (NNP_NO_ERROR, h1)
       \<and> lock_cpu_section False [] h1 = Some (NNP_NO_ERROR, h2)
       \<and> unlock_cpu_access k h2 = (NNP_NO_ERROR, h3)
       \<and> unlock_cpu_access k h3 = (NNP_INVALID_ARGUMENT, h3)
       \<and> m_readers h3 = 1 \<and> lock_device_access True h3 = (NNP_DEVICE_BUSY, h3))"
  using assms by (simp add: hostres_lock_defs broken_def)

theorem cpu_lock_race_witness:
  "lock_cpu_check (hostres_new 16 1 3 4096 True) = NNP_NO_ERROR \<and>
    (\<exists>h1 h2 h3. lock_cpu_section False [] (hostres_new 16 1 3 4096 True) = Some (NNP_NO_ERROR, h1)
       \<and> lock_cpu_section False [] h1 = Some (NNP_NO_ERROR, h2)
       \<and> unlock_cpu_access Ioctl_Ok h2 = (NNP_NO_ERROR, h3)
       \<and> unlock_cpu_access Ioctl_Ok h3 = (NNP_INVALID_ARGUMENT, h3)
       \<and> m_readers h3 = 1 \<and> lock_device_access True h3 = (NNP_DEVICE_BUSY, h3))"
  by (rule cpu_lock_race) (simp_all add: hostres_new_def lockless_def has_flag_def broken_def)

end
