(* ===== verification/Error_List.thy ===== *)
theory Error_List
  imports Host_Res
begin

text \<open>
  \<open>nnpiExecErrorList\<close> (\<open>nnpiExecErrorList.h\<close>, \<open>nnpiExecErrorList.cpp\<close>): the list of execution
  errors a context or a command list fetches from the card. The card sends it in packets; the
  list assembles them, then finds the descriptors in the buffer. \<open>m_buf\<close> is the part of the
  allocated buffer that is filled (its length is \<open>m_size\<close>), and a descriptor is its offset.
\<close>

section \<open>Descriptors\<close>

record ipc_exec_error_desc =
  cmd_type :: u8
  desc_obj_id :: u16
  desc_devnet_id :: u16
  desc_event_val :: u16
  error_msg_size :: u32

abbreviation sizeof_desc :: nat where
  "sizeof_desc \<equiv> 11"

definition encode_desc :: "ipc_exec_error_desc \<Rightarrow> u8 list" where
  "encode_desc d =
     le_bytes 1 (unat (cmd_type d)) @ le_bytes 2 (unat (desc_obj_id d)) @
     le_bytes 2 (unat (desc_devnet_id d)) @ le_bytes 2 (unat (desc_event_val d)) @
     le_bytes 4 (unat (error_msg_size d))"

definition decode_desc :: "u8 list \<Rightarrow> nat \<Rightarrow> ipc_exec_error_desc" where
  "decode_desc bs pos =
     \<lparr>cmd_type = of_nat (le_val (bytes_at pos 1 bs)),
      desc_obj_id = of_nat (le_val (bytes_at (pos + 1) 2 bs)),
      desc_devnet_id = of_nat (le_val (bytes_at (pos + 3) 2 bs)),
      desc_event_val = of_nat (le_val (bytes_at (pos + 5) 2 bs)),
      error_msg_size = of_nat (le_val (bytes_at (pos + 7) 4 bs))\<rparr>"

section \<open>State\<close>

datatype ErrorListState = STATE_CLEARED | STATE_QUERY_STARTED | STATE_COMPLETED

record error_list =
  el_buf :: "u8 list option"
  el_buf_size :: u32
  el_size :: u32
  m_complete_eventVal :: u16
  m_state :: ErrorListState
  m_desc_vec :: "nat list"
  m_failed_hostres :: "u64 list"

definition error_list_new :: error_list where
  "error_list_new =
     \<lparr>el_buf = None, el_buf_size = 0, el_size = 0, m_complete_eventVal = 0,
      m_state = STATE_CLEARED, m_desc_vec = [], m_failed_hostres = []\<rparr>"

definition queryCompleted :: "error_list \<Rightarrow> bool" where
  "queryCompleted l \<longleftrightarrow> m_state l = STATE_COMPLETED"

definition numErrors :: "error_list \<Rightarrow> u32" where
  "numErrors l = of_nat (length (m_desc_vec l))"

definition clear_list :: "error_list \<Rightarrow> error_list" where
  "clear_list l =
     l\<lparr>m_desc_vec := [], el_buf := None, el_size := 0, el_buf_size := 0,
       m_complete_eventVal := 0, m_state := STATE_CLEARED\<rparr>"

definition startQuery :: "error_list \<Rightarrow> error_list" where
  "startQuery l = l\<lparr>m_complete_eventVal := 0, m_state := STATE_QUERY_STARTED\<rparr>"

text \<open>
  The loop of \<open>completeQuery\<close>: the descriptor at \<open>pos\<close> is followed by its message. \<open>pos\<close> is a
  \<open>uint32_t\<close>. \<open>None\<close> is a loop that does not end; \<open>Undefined\<close> a descriptor that reaches past
  the received bytes.
\<close>

partial_function (option) find_descs :: "u8 list \<Rightarrow> u32 \<Rightarrow> u32 \<Rightarrow> nat list \<Rightarrow> nat list outcome option" where
  "find_descs bs sz pos acc =
     (if \<not> pos < sz then Some (Done acc)
      else if length bs < unat pos + sizeof_desc then Some Undefined
      else find_descs bs sz (pos + of_nat sizeof_desc + error_msg_size (decode_desc bs (unat pos)))
             (acc @ [unat pos]))"

definition completeQuery :: "u16 \<Rightarrow> error_list \<Rightarrow> error_list outcome option" where
  "completeQuery ev l =
     (if ev = 0 then
        map_option
          (\<lambda>r. case r of Done ds \<Rightarrow> Done (l\<lparr>m_desc_vec := ds, m_state := STATE_COMPLETED,
                                                m_complete_eventVal := ev\<rparr>)
                       | _ \<Rightarrow> Undefined)
          (find_descs (case el_buf l of Some bs \<Rightarrow> bs | None \<Rightarrow> []) (el_size l) 0 (m_desc_vec l))
      else Some (Done (l\<lparr>m_state := STATE_COMPLETED, m_complete_eventVal := ev\<rparr>)))"

text \<open>
  \<open>appendErrorListPacket\<close>: a packet of bytes, or none for an error report; \<open>malloc_ok\<close> is the
  answer of \<open>malloc\<close>.
\<close>

definition el_alloc :: "bool \<Rightarrow> u32 \<Rightarrow> error_list \<Rightarrow> error_list" where
  "el_alloc malloc_ok total_size l =
     (if el_buf l = None
      then l\<lparr>el_buf := (if malloc_ok then Some [] else None), el_buf_size := total_size\<rparr> else l)"

definition appendErrorListPacket ::
    "bool \<Rightarrow> u8 list option \<Rightarrow> u32 \<Rightarrow> u16 \<Rightarrow> error_list \<Rightarrow> error_list outcome option" where
  "appendErrorListPacket malloc_ok packet total_size error_eventVal l =
     (if m_state l \<noteq> STATE_QUERY_STARTED then Some (Done l)
      else case packet of
        Some (b # bs) \<Rightarrow>
          (let psize = of_nat (length (b # bs));
               l1 = el_alloc malloc_ok total_size l
           in case el_buf l1 of
                Some old \<Rightarrow>
                  if el_size l1 + psize \<le> el_buf_size l1 then
                    (let l2 = l1\<lparr>el_buf := Some (old @ b # bs), el_size := el_size l1 + psize\<rparr>
                     in if el_size l2 = total_size then completeQuery 0 l2 else Some (Done l2))
                  else completeQuery (of_nat NNP_IPC_NO_MEMORY) l1
              | None \<Rightarrow> completeQuery (of_nat NNP_IPC_NO_MEMORY) l1)
      | _ \<Rightarrow> completeQuery error_eventVal l)"

definition getDesc :: "u32 \<Rightarrow> error_list \<Rightarrow> ipc_exec_error_desc option" where
  "getDesc idx l =
     (if unat idx < length (m_desc_vec l)
      then map_option (\<lambda>bs. decode_desc bs (m_desc_vec l ! unat idx)) (el_buf l)
      else None)"

text \<open>
  \<open>getErrorMessage\<close>: the error, the reported size, and what is copied to a user buffer of
  \<open>buf_size\<close> bytes (\<open>None\<close> for a null buffer).
\<close>

definition getErrorMessage ::
    "u32 \<Rightarrow> u32 option \<Rightarrow> error_list \<Rightarrow> NNPError \<times> u32 option \<times> u8 list option" where
  "getErrorMessage idx buf_size l =
     (if length (m_desc_vec l) \<le> unat idx then (NNP_INVALID_ARGUMENT, None, None)
      else
        let bs = (case el_buf l of Some b \<Rightarrow> b | None \<Rightarrow> []);
            pos = m_desc_vec l ! unat idx;
            n = error_msg_size (decode_desc bs pos)
        in if n = 0 then (NNP_INVALID_ARGUMENT, None, None)
           else (NNP_NO_ERROR, Some n,
                 case buf_size of
                   Some k \<Rightarrow> (if k > 0 \<and> k \<ge> n then Some (bytes_at (pos + sizeof_desc) (unat n) bs)
                              else None)
                 | None \<Rightarrow> None))"

section \<open>Failed host resources\<close>

text \<open>The buffers that failed copies marked as broken, in a store of buffers.\<close>

type_synonym hostres_store = "u64 \<Rightarrow> hostres"

definition addFailedHostRes :: "u64 \<Rightarrow> error_list \<Rightarrow> hostres_store \<Rightarrow> error_list \<times> hostres_store" where
  "addFailedHostRes a l st =
     (l\<lparr>m_failed_hostres := m_failed_hostres l @ [a]\<rparr>, st(a := update_copy_fail_count 1 (st a)))"

definition clearFailedHostRes :: "error_list \<Rightarrow> hostres_store \<Rightarrow> error_list \<times> hostres_store" where
  "clearFailedHostRes l st =
     (l\<lparr>m_failed_hostres := []\<rparr>,
      fold (\<lambda>a s. s(a := update_copy_fail_count (-1) (s a))) (m_failed_hostres l) st)"

definition clearRequestSucceeded :: "error_list \<Rightarrow> hostres_store \<Rightarrow> error_list \<times> hostres_store" where
  "clearRequestSucceeded l st =
     (let (l', st') = clearFailedHostRes (clear_list l) st
      in (l'\<lparr>m_state := STATE_COMPLETED, m_complete_eventVal := 0\<rparr>, st'))"

section \<open>The bytes of a list of errors\<close>

definition entry_bytes :: "ipc_exec_error_desc \<times> u8 list \<Rightarrow> u8 list" where
  "entry_bytes e = encode_desc (fst e) @ snd e"

definition serialise_errors :: "(ipc_exec_error_desc \<times> u8 list) list \<Rightarrow> u8 list" where
  "serialise_errors es = concat (map entry_bytes es)"

definition errors_ok :: "(ipc_exec_error_desc \<times> u8 list) list \<Rightarrow> bool" where
  "errors_ok es \<longleftrightarrow> list_all (\<lambda>(d, msg). unat (error_msg_size d) = length msg) es
     \<and> length (serialise_errors es) < 2 ^ 32"

lemma length_encode_desc [simp]: "length (encode_desc d) = sizeof_desc"
  by (simp add: encode_desc_def)

lemma bytes_at_drop: "bytes_at (p + k) n bs = bytes_at k n (drop p bs)"
  by (simp add: bytes_at_def add.commute)

lemma decode_desc_drop: "decode_desc bs pos = decode_desc (drop pos bs) 0"
  unfolding decode_desc_def bytes_at_drop using bytes_at_drop [of pos 0] by simp

lemma take_drop_fields:
  "length a = 1 \<Longrightarrow> length b = 2 \<Longrightarrow> length c = 2 \<Longrightarrow> length d = 2 \<Longrightarrow> length e = 4 \<Longrightarrow>
    bytes_at 0 1 (a @ b @ c @ d @ e @ r) = a \<and> bytes_at 1 2 (a @ b @ c @ d @ e @ r) = b
    \<and> bytes_at 3 2 (a @ b @ c @ d @ e @ r) = c \<and> bytes_at 5 2 (a @ b @ c @ d @ e @ r) = d
    \<and> bytes_at 7 4 (a @ b @ c @ d @ e @ r) = e"
  by (simp add: bytes_at_def)

lemma decode_encode_desc: "decode_desc (encode_desc d @ r) 0 = d"
proof -
  let ?a = "le_bytes 1 (unat (cmd_type d))" and ?b = "le_bytes 2 (unat (desc_obj_id d))"
    and ?c = "le_bytes 2 (unat (desc_devnet_id d))" and ?e = "le_bytes 2 (unat (desc_event_val d))"
    and ?f = "le_bytes 4 (unat (error_msg_size d))"
  have "le_val ?a = unat (cmd_type d)" "le_val ?b = unat (desc_obj_id d)"
    "le_val ?c = unat (desc_devnet_id d)" "le_val ?e = unat (desc_event_val d)"
    "le_val ?f = unat (error_msg_size d)"
    by (rule le_val_unat, simp)+
  then show ?thesis
    unfolding decode_desc_def encode_desc_def append_assoc
    using take_drop_fields [of ?a ?b ?c ?e ?f r] by simp
qed

lemma serialise_Cons: "serialise_errors (e # es) = entry_bytes e @ serialise_errors es"
  by (simp add: serialise_errors_def)

lemma serialise_append:
  "serialise_errors (xs @ ys) = serialise_errors xs @ serialise_errors ys"
  by (simp add: serialise_errors_def)

lemma length_entry: "length (entry_bytes e) = sizeof_desc + length (snd e)"
  by (simp add: entry_bytes_def)

fun desc_offsets :: "nat \<Rightarrow> (ipc_exec_error_desc \<times> u8 list) list \<Rightarrow> nat list" where
  "desc_offsets k [] = []"
| "desc_offsets k (e # es) = k # desc_offsets (k + length (entry_bytes e)) es"

lemma length_desc_offsets [simp]: "length (desc_offsets k es) = length es"
  by (induction k es rule: desc_offsets.induct) auto

lemma desc_offsets_nth:
  "i < length es \<Longrightarrow> desc_offsets k es ! i = k + length (serialise_errors (take i es))"
proof (induction k es arbitrary: i rule: desc_offsets.induct)
  case (1 k)
  then show ?case by simp
next
  case (2 k e es)
  then show ?case by (cases i) (simp_all add: serialise_Cons serialise_errors_def)
qed

lemma find_descs_step:
  "pos < sz \<Longrightarrow> unat pos + sizeof_desc \<le> length bs \<Longrightarrow>
    find_descs bs sz pos acc =
    find_descs bs sz (pos + of_nat sizeof_desc + error_msg_size (decode_desc bs (unat pos)))
      (acc @ [unat pos])"
  by (subst find_descs.simps) simp

text \<open>The loop of \<open>completeQuery\<close> ends, and finds exactly the descriptors.\<close>

lemma find_descs_serialise:
  assumes "list_all (\<lambda>(d, msg). unat (error_msg_size d) = length msg) es"
    and "length (pre @ serialise_errors es) < 2 ^ 32"
  shows "find_descs (pre @ serialise_errors es) (of_nat (length (pre @ serialise_errors es)))
     (of_nat (length pre)) acc = Some (Done (acc @ desc_offsets (length pre) es))"
  using assms
proof (induction es arbitrary: pre acc)
  case Nil
  then show ?case by (subst find_descs.simps) (simp add: serialise_errors_def)
next
  case (Cons e es)
  let ?bs = "pre @ serialise_errors (e # es)"
  have len: "length pre + sizeof_desc + length (snd e) + length (serialise_errors es) < 2 ^ 32"
    and bs: "?bs = (pre @ entry_bytes e) @ serialise_errors es"
    using Cons.prems(2) by (simp_all add: serialise_Cons length_entry)
  have lb: "length ?bs = length pre + sizeof_desc + length (snd e) + length (serialise_errors es)"
    by (simp add: serialise_Cons length_entry)
  have u: "unat (of_nat n :: u32) = n" if "n \<le> length ?bs" for n
    using that len lb by (simp add: unat_of_nat take_bit_nat_eq_self)
  have up: "unat (of_nat (length pre) :: u32) = length pre" using u lb by simp
  have lt: "(of_nat (length pre) :: u32) < of_nat (length ?bs)"
    using u [of "length pre"] u [of "length ?bs"] lb by (simp add: word_less_nat_alt)
  have d: "decode_desc ?bs (length pre) = fst e"
    by (subst decode_desc_drop)
      (simp add: serialise_Cons entry_bytes_def decode_encode_desc del: decode_desc_def)
  have sz: "unat (error_msg_size (fst e)) = length (snd e)"
    using Cons.prems(1) by (simp add: case_prod_unfold)
  have nx: "(of_nat (length pre) + of_nat sizeof_desc + error_msg_size (fst e) :: u32)
      = of_nat (length (pre @ entry_bytes e))"
    by (simp add: length_entry sz [symmetric] ac_simps)
  have "find_descs ?bs (of_nat (length ?bs)) (of_nat (length pre)) acc =
      find_descs ?bs (of_nat (length ?bs)) (of_nat (length (pre @ entry_bytes e))) (acc @ [length pre])"
    using find_descs_step [OF lt, of ?bs acc] lb unfolding up d nx by simp
  also have "\<dots> = Some (Done ((acc @ [length pre]) @ desc_offsets (length (pre @ entry_bytes e)) es))"
    unfolding bs using Cons.prems len by (intro Cons.IH) (simp_all add: length_entry serialise_Cons)
  finally show ?case by simp
qed

section \<open>Assembling the packets\<close>

fun feed_packets :: "u32 \<Rightarrow> u8 list list \<Rightarrow> error_list \<Rightarrow> error_list outcome option" where
  "feed_packets tot [] l = Some (Done l)"
| "feed_packets tot (p # ps) l =
     (case appendErrorListPacket True (Some p) tot 0 l of
        Some (Done l') \<Rightarrow> feed_packets tot ps l' | r \<Rightarrow> r)"

definition receiving :: "u8 list \<Rightarrow> u32 \<Rightarrow> error_list \<Rightarrow> bool" where
  "receiving got tot l \<longleftrightarrow>
     m_state l = STATE_QUERY_STARTED \<and> m_desc_vec l = [] \<and> el_size l = of_nat (length got)
     \<and> (el_buf l = None \<and> got = [] \<or> el_buf l = Some got \<and> el_buf_size l = tot)"

lemma receiving_start: "receiving [] tot (startQuery (clear_list l))"
  by (simp add: receiving_def startQuery_def clear_list_def)

lemma append_receiving:
  assumes r: "receiving got tot l" and p: "p \<noteq> []"
    and fit: "length (got @ p) \<le> unat tot"
  defines "l2 \<equiv> l\<lparr>el_buf_size := tot, el_buf := Some (got @ p), el_size := of_nat (length (got @ p))\<rparr>"
  shows "appendErrorListPacket True (Some p) tot ev l =
    (if length (got @ p) = unat tot then completeQuery 0 l2 else Some (Done l2))"
proof -
  obtain b bs where pb: "p = b # bs" using p by (cases p) auto
  define n where "n = length got + length p"
  have s: "(of_nat (length got) + of_nat (length p) :: u32) = of_nat n" by (simp add: n_def)
  have n: "n \<le> unat tot" "length (got @ p) = n" using fit by (simp_all add: n_def)
  then have "n < 2 ^ 32" using unat_lt [of tot] by simp
  then have u: "unat (of_nat n :: u32) = n" by (simp add: unat_of_nat take_bit_nat_eq_self)
  have le: "(of_nat n :: u32) \<le> tot" using n u by (simp add: word_le_nat_alt)
  have eq: "(of_nat n = tot) = (n = unat tot)" using u by (simp add: word_unat_eq_iff)
  have sz: "el_size l = of_nat (length got)" using r by (simp add: receiving_def)
  from r show ?thesis
    unfolding receiving_def
  proof (elim conjE disjE)
    assume "el_buf l = None" "got = []" "m_state l = STATE_QUERY_STARTED"
    then show ?thesis
      using le eq sz s unfolding n(2) l2_def
      by (simp add: appendErrorListPacket_def el_alloc_def Let_def pb)
  next
    assume a: "el_buf l = Some got" "el_buf_size l = tot" "m_state l = STATE_QUERY_STARTED"
    then have e: "l\<lparr>el_buf_size := tot, el_buf := x, el_size := y\<rparr>
        = l\<lparr>el_buf := x, el_size := y\<rparr>" for x y
      by (cases l) simp
    show ?thesis
      using a le eq sz s unfolding n(2) l2_def e
      by (simp add: appendErrorListPacket_def el_alloc_def Let_def pb)
  qed
qed

lemma feed_packets_complete:
  assumes "receiving got tot l" and "[] \<notin> set ps" and "ps \<noteq> []"
    and "length (got @ concat ps) = unat tot"
  shows "feed_packets tot ps l =
    completeQuery 0 (l\<lparr>el_buf_size := tot, el_buf := Some (got @ concat ps), el_size := tot\<rparr>)"
  using assms
proof (induction ps arbitrary: got l)
  case Nil
  then show ?case by simp
next
  case (Cons p ps)
  have p: "p \<noteq> []" "length (got @ p) \<le> unat tot" using Cons.prems by auto
  let ?l2 = "l\<lparr>el_buf_size := tot, el_buf := Some (got @ p), el_size := of_nat (length (got @ p))\<rparr>"
  note step = append_receiving [OF Cons.prems(1) p, of 0]
  show ?case
  proof (cases "ps = []")
    case True
    then have len: "length (got @ p) = unat tot" using Cons.prems(4) by simp
    then have "of_nat (length (got @ p)) = tot" by (simp only: len of_nat_unat ucast_id)
    then show ?thesis using step True len
      by (simp add: completeQuery_def split: option.splits outcome.splits)
  next
    case False
    then have "concat ps \<noteq> []" using Cons.prems(2) by (cases ps) auto
    then have "length (got @ p) \<noteq> unat tot" using Cons.prems(4) by (cases "concat ps") auto
    then have "feed_packets tot (p # ps) l = feed_packets tot ps ?l2" using step by simp
    also have "\<dots> = completeQuery 0 (?l2\<lparr>el_buf_size := tot, el_buf := Some ((got @ p) @ concat ps), el_size := tot\<rparr>)"
      using Cons.prems(1,2,4) False by (intro Cons.IH) (simp_all add: receiving_def)
    finally show ?thesis by simp
  qed
qed

lemma completeQuery_serialise:
  assumes "errors_ok es" and "el_buf l = Some (serialise_errors es)"
    and "el_size l = of_nat (length (serialise_errors es))" and "m_desc_vec l = []"
  shows "completeQuery 0 l = Some (Done (l\<lparr>m_desc_vec := desc_offsets 0 es,
    m_state := STATE_COMPLETED, m_complete_eventVal := 0\<rparr>))"
  using find_descs_serialise [of es "[]" "[]"] assms
  by (simp add: completeQuery_def errors_ok_def)

text \<open>What a completed list answers about its entries.\<close>

lemma completed_entries:
  assumes "errors_ok es" and "i < length es" and "length es < 2 ^ 32"
    and "el_buf l = Some (serialise_errors es)" and "m_desc_vec l = desc_offsets 0 es"
  shows "getDesc (of_nat i) l = Some (fst (es ! i))
    \<and> (snd (es ! i) \<noteq> [] \<longrightarrow> error_msg_size (fst (es ! i)) \<le> k \<longrightarrow>
        getErrorMessage (of_nat i) (Some k) l =
          (NNP_NO_ERROR, Some (error_msg_size (fst (es ! i))), Some (snd (es ! i))))"
proof -
  let ?p = "length (serialise_errors (take i es))" and ?e = "es ! i"
  have ui: "unat (of_nat i :: u32) = i" using assms(2,3) by (simp add: unat_of_nat take_bit_nat_eq_self)
  have "es = take i es @ ?e # drop (Suc i) es" by (simp add: id_take_nth_drop assms(2))
  then have "serialise_errors es =
      serialise_errors (take i es) @ entry_bytes ?e @ serialise_errors (drop (Suc i) es)"
    by (metis serialise_append serialise_Cons)
  then have dr: "drop ?p (serialise_errors es) = entry_bytes ?e @ serialise_errors (drop (Suc i) es)"
    by simp
  have d: "decode_desc (serialise_errors es) ?p = fst ?e"
    by (subst decode_desc_drop) (simp add: dr entry_bytes_def decode_encode_desc)
  have sz: "unat (error_msg_size (fst ?e)) = length (snd ?e)"
    using assms(1,2) by (auto simp: errors_ok_def list_all_length case_prod_unfold)
  have msg: "bytes_at (?p + sizeof_desc) (length (snd ?e)) (serialise_errors es) = snd ?e"
    unfolding bytes_at_drop by (simp add: dr bytes_at_def entry_bytes_def)
  have off: "m_desc_vec l ! unat (of_nat i :: u32) = ?p"
    using assms(2,5) by (simp add: ui desc_offsets_nth)
  have "error_msg_size (fst ?e) = 0 \<longleftrightarrow> snd ?e = []"
    using sz by (metis length_0_conv unat_eq_zero)
  moreover have "k \<ge> error_msg_size (fst ?e) \<longrightarrow> error_msg_size (fst ?e) \<noteq> 0 \<longrightarrow> k > 0"
    by (auto simp: word_gt_0)
  ultimately show ?thesis
    using assms(2,4,5) ui off d msg sz by (auto simp: getDesc_def getErrorMessage_def Let_def)
qed


text \<open>The filled part of the buffer is within the allocated size.\<close>

definition el_ok :: "error_list \<Rightarrow> bool" where
  "el_ok l \<longleftrightarrow> (case el_buf l of None \<Rightarrow> el_size l = 0
     | Some bs \<Rightarrow> length bs = unat (el_size l) \<and> el_size l \<le> el_buf_size l)"

lemma completeQuery_Done:
  assumes "completeQuery ev l = Some (Done l')"
  shows "el_buf l' = el_buf l \<and> el_size l' = el_size l \<and> el_buf_size l' = el_buf_size l
    \<and> m_state l' = STATE_COMPLETED \<and> m_complete_eventVal l' = ev"
proof (cases "ev = 0")
  case True
  with assms obtain r where "find_descs (case el_buf l of Some bs \<Rightarrow> bs | None \<Rightarrow> []) (el_size l) 0
      (m_desc_vec l) = Some r"
    by (auto simp: completeQuery_def)
  with assms True show ?thesis by (cases r) (auto simp: completeQuery_def)
next
  case False
  with assms show ?thesis by (auto simp: completeQuery_def)
qed

lemma completeQuery_ok: "el_ok l \<Longrightarrow> completeQuery ev l = Some (Done l') \<Longrightarrow> el_ok l'"
  using completeQuery_Done [of ev l l'] by (simp add: el_ok_def split: option.splits)

section \<open>A message size that makes the loop endless\<close>

text \<open>A descriptor whose size field is 2^32 - 11 takes \<open>pos\<close> back to itself.\<close>

lemma find_descs_endless:
  assumes "pos < sz" and "unat pos + sizeof_desc \<le> length bs"
    and "of_nat sizeof_desc + error_msg_size (decode_desc bs (unat pos)) = 0"
  shows "find_descs bs sz pos acc = None"
proof (rule ccontr)
  assume "find_descs bs sz pos acc \<noteq> None"
  then obtain r where r: "find_descs bs sz pos acc = Some r" by auto
  have stay: "pos + of_nat sizeof_desc + error_msg_size (decode_desc bs (unat pos)) = pos"
    using assms(3) by (simp add: add.assoc)
  have "\<not> (b = bs \<and> s = sz \<and> q = pos)" if "find_descs b s q a = Some y" for b s q a y
  proof (rule find_descs.raw_induct [where P = "\<lambda>b s q a y. \<not> (b = bs \<and> s = sz \<and> q = pos)",
        OF _ that])
    fix fd b s q a y
    assume IH: "\<And>b s q a y. fd b s q a = Some y \<Longrightarrow> \<not> (b = bs \<and> s = sz \<and> q = pos)"
      and body: "(if \<not> q < s then Some (Done a)
        else if length b < unat q + sizeof_desc then Some Undefined
        else fd b s (q + of_nat sizeof_desc + error_msg_size (decode_desc b (unat q))) (a @ [unat q]))
        = Some y"
    show "\<not> (b = bs \<and> s = sz \<and> q = pos)"
    proof
      assume "b = bs \<and> s = sz \<and> q = pos"
      with body assms(1,2) have "fd bs sz pos (a @ [unat pos]) = Some y" by (simp add: stay del: of_nat_numeral)
      with IH show False by blast
    qed
  qed
  with r show False by blast
qed

section \<open>The buffers marked as broken\<close>

lemma fold_clear_counts:
  "fold (\<lambda>a s. s(a := update_copy_fail_count (-1) (s a))) as st =
     (\<lambda>a. update_copy_fail_count (- int (count_list as a)) (st a))"
  by (induction as arbitrary: st) (auto simp: fun_eq_iff update_copy_fail_count_def)

fun add_failed :: "u64 list \<Rightarrow> error_list \<Rightarrow> hostres_store \<Rightarrow> error_list \<times> hostres_store" where
  "add_failed [] l st = (l, st)"
| "add_failed (a # as) l st = (case addFailedHostRes a l st of (l1, st1) \<Rightarrow> add_failed as l1 st1)"

lemma add_failed_eq:
  "add_failed as l st =
     (l\<lparr>m_failed_hostres := m_failed_hostres l @ as\<rparr>,
      \<lambda>a. update_copy_fail_count (int (count_list as a)) (st a))"
  by (induction as arbitrary: l st)
    (auto simp: fun_eq_iff addFailedHostRes_def update_copy_fail_count_def)

section \<open>Properties\<close>

text \<open>A list of one error with a two-byte message, for the examples.\<close>

definition sample_errors :: "(ipc_exec_error_desc \<times> u8 list) list" where
  "sample_errors = [(\<lparr>cmd_type = 1, desc_obj_id = 5, desc_devnet_id = 0, desc_event_val = 11,
     error_msg_size = 2\<rparr>, [7, 8])]"

lemma sample_errors_bytes:
  "serialise_errors sample_errors = [1, 5, 0, 0, 0, 11, 0, 2, 0, 0, 0, 7, 8]"
  by (simp add: sample_errors_def serialise_errors_def entry_bytes_def encode_desc_def le_bytes_small)

lemma sample_errors_ok: "errors_ok sample_errors"
  by (simp add: errors_ok_def sample_errors_bytes) (simp add: sample_errors_def)

text \<open>C18: a list of errors the card splits into packets arrives whole. Whatever the non-empty
  packets it is cut into, the query completes without error, and every entry answers with its
  descriptor and, to a large enough buffer, with its message.\<close>

theorem error_list_roundtrip:
  assumes "errors_ok es" and "es \<noteq> []" and "concat ps = serialise_errors es" and "[] \<notin> set ps"
  shows "\<exists>l'. feed_packets (of_nat (length (serialise_errors es))) ps (startQuery (clear_list l))
      = Some (Done l')
    \<and> queryCompleted l' \<and> m_complete_eventVal l' = 0 \<and> numErrors l' = of_nat (length es)
    \<and> (\<forall>i < length es. getDesc (of_nat i) l' = Some (fst (es ! i))
        \<and> (snd (es ! i) \<noteq> [] \<longrightarrow> error_msg_size (fst (es ! i)) \<le> k \<longrightarrow>
            getErrorMessage (of_nat i) (Some k) l' =
              (NNP_NO_ERROR, Some (error_msg_size (fst (es ! i))), Some (snd (es ! i)))))"
proof -
  let ?bs = "serialise_errors es" and ?l0 = "startQuery (clear_list l)"
  let ?tot = "of_nat (length ?bs) :: u32"
  have lt: "length ?bs < 2 ^ 32" using assms(1) by (simp add: errors_ok_def)
  then have u: "unat ?tot = length ?bs" by (simp add: unat_of_nat take_bit_nat_eq_self)
  have "length es \<le> length ?bs"
    by (induction es) (simp_all add: serialise_Cons length_entry)
  with lt have le: "length es < 2 ^ 32" by simp
  have ps: "ps \<noteq> []"
    using assms(2,3) by (cases es) (auto simp: serialise_Cons entry_bytes_def encode_desc_def)
  define l1 where "l1 = ?l0\<lparr>el_buf_size := ?tot, el_buf := Some ?bs, el_size := ?tot\<rparr>"
  define l2 where "l2 = l1\<lparr>m_desc_vec := desc_offsets 0 es, m_state := STATE_COMPLETED,
    m_complete_eventVal := 0\<rparr>"
  have "feed_packets ?tot ps ?l0 = completeQuery 0 l1"
    using feed_packets_complete [OF receiving_start assms(4) ps, of ?tot l] u assms(3)
    by (simp add: l1_def)
  also have "\<dots> = Some (Done l2)"
    unfolding l2_def using assms(1)
    by (intro completeQuery_serialise) (simp_all add: l1_def startQuery_def clear_list_def)
  finally have "feed_packets ?tot ps ?l0 = Some (Done l2)" .
  moreover have "queryCompleted l2 \<and> m_complete_eventVal l2 = 0 \<and> numErrors l2 = of_nat (length es)"
    by (simp add: l2_def queryCompleted_def numErrors_def)
  ultimately show ?thesis
    using completed_entries [OF assms(1) _ le, of _ l2] by (simp add: l2_def l1_def)
qed

theorem error_list_roundtrip_witness:
  "\<exists>l'. feed_packets (of_nat (length (serialise_errors sample_errors)))
      [[1, 5, 0, 0, 0], [11, 0, 2, 0, 0, 0, 7, 8]] (startQuery (clear_list error_list_new)) = Some (Done l')
    \<and> queryCompleted l' \<and> m_complete_eventVal l' = 0 \<and> numErrors l' = of_nat (length sample_errors)
    \<and> (\<forall>i < length sample_errors. getDesc (of_nat i) l' = Some (fst (sample_errors ! i))
        \<and> (snd (sample_errors ! i) \<noteq> [] \<longrightarrow> error_msg_size (fst (sample_errors ! i)) \<le> 9 \<longrightarrow>
            getErrorMessage (of_nat i) (Some 9) l' = (NNP_NO_ERROR,
              Some (error_msg_size (fst (sample_errors ! i))), Some (snd (sample_errors ! i)))))"
  by (rule error_list_roundtrip [OF sample_errors_ok])
    (simp_all add: sample_errors_bytes, simp add: sample_errors_def)

lemma el_alloc_simps [simp]:
  "el_size (el_alloc m tot l) = el_size l" "m_state (el_alloc m tot l) = m_state l"
  by (simp_all add: el_alloc_def)

lemma append_cases:
  assumes "m_state l = STATE_QUERY_STARTED" and "p \<noteq> []"
    and "appendErrorListPacket m (Some p) tot ev l = Some (Done l')"
  obtains
    (stored) old where "el_buf (el_alloc m tot l) = Some old"
      "el_size l + of_nat (length p) \<le> el_buf_size (el_alloc m tot l)"
      "el_buf l' = Some (old @ p)" "el_size l' = el_size l + of_nat (length p)"
      "el_buf_size l' = el_buf_size (el_alloc m tot l)"
  | (full) "completeQuery (of_nat NNP_IPC_NO_MEMORY) (el_alloc m tot l) = Some (Done l')"
proof -
  let ?l1 = "el_alloc m tot l" and ?n = "of_nat (length p) :: u32"
  obtain b bs where p: "p = b # bs" using assms(2) by (cases p) auto
  show thesis
  proof (cases "\<exists>old. el_buf ?l1 = Some old \<and> el_size l + ?n \<le> el_buf_size ?l1")
    case True
    then obtain old where old: "el_buf ?l1 = Some old" "el_size l + ?n \<le> el_buf_size ?l1" by blast
    let ?l2 = "?l1\<lparr>el_buf := Some (old @ p), el_size := el_size l + ?n\<rparr>"
    have "(if el_size ?l2 = tot then completeQuery 0 ?l2 else Some (Done ?l2)) = Some (Done l')"
      using assms(1,3) old unfolding p
      by (simp add: appendErrorListPacket_def Let_def split del: if_split cong: if_cong)
    then have "el_buf l' = el_buf ?l2 \<and> el_size l' = el_size ?l2 \<and> el_buf_size l' = el_buf_size ?l2"
      using completeQuery_Done [of 0 ?l2 l'] by (auto split: if_splits)
    with old show thesis by (intro stored) simp_all
  next
    case False
    with assms(1,3) have "completeQuery (of_nat NNP_IPC_NO_MEMORY) ?l1 = Some (Done l')"
      unfolding p by (cases "el_buf ?l1") (simp_all add: appendErrorListPacket_def Let_def)
    then show thesis by (rule full)
  qed
qed



text \<open>C40: a message size of 2^32 - 11 in a received descriptor makes the search for the next
  descriptor start at the same one again: \<open>completeQuery\<close> never returns.\<close>

theorem complete_query_endless:
  assumes "el_buf l = Some bs" and "sizeof_desc \<le> length bs" and "0 < el_size l"
    and "error_msg_size (decode_desc bs 0) = - of_nat sizeof_desc"
  shows "completeQuery 0 l = None"
  using find_descs_endless [of 0 "el_size l" bs "m_desc_vec l"] assms by (simp add: completeQuery_def)

theorem complete_query_endless_witness:
  "completeQuery 0 (error_list_new\<lparr>el_buf := Some [1, 0, 0, 0, 0, 0, 0, 0xF5, 0xFF, 0xFF, 0xFF],
     el_size := 11\<rparr>) = None"
proof (rule complete_query_endless)
  show "sizeof_desc \<le> length [1, 0, 0, 0, 0, 0, 0, 0xF5, 0xFF, 0xFF, 0xFF :: u8]"
    by (simp add: numeral_eq_Suc)
  have "bytes_at 7 4 [1, 0, 0, 0, 0, 0, 0, 0xF5, 0xFF, 0xFF, 0xFF] = [0xF5, 0xFF, 0xFF, 0xFF]"
    by (simp add: bytes_at_def take_Cons' drop_Cons')
  then show "error_msg_size (decode_desc [1, 0, 0, 0, 0, 0, 0, 0xF5, 0xFF, 0xFF, 0xFF] 0)
      = - of_nat sizeof_desc"
    by (simp add: decode_desc_def)
qed (simp_all add: error_list_new_def)

text \<open>the buffers a list marks as broken are exactly unmarked again by a successful clear
  request: their failure counts return to what they were, and in between a marked buffer is
  broken.\<close>

theorem failed_hostres_balanced:
  assumes "m_failed_hostres l = []" and "add_failed as l st = (l1, st1)"
    and "clearRequestSucceeded l1 st1 = (l2, st2)"
  shows "st2 = st \<and> m_failed_hostres l2 = [] \<and> queryCompleted l2
    \<and> (m_failed_copy_ops (st a) \<ge> 0 \<longrightarrow> a \<in> set as \<longrightarrow> broken (st1 a))"
proof -
  have l1: "m_failed_hostres (clear_list l1) = as"
    and st1: "st1 = (\<lambda>a. update_copy_fail_count (int (count_list as a)) (st a))"
    using assms(1,2) by (auto simp: add_failed_eq clear_list_def)
  have st2: "st2 = (\<lambda>a. update_copy_fail_count (- int (count_list as a)) (st1 a))"
    and "m_failed_hostres l2 = []" "queryCompleted l2"
    using assms(3) l1
    by (auto simp: clearRequestSucceeded_def clearFailedHostRes_def fold_clear_counts
        queryCompleted_def)
  moreover have "st2 = st" by (simp add: st2 st1 update_copy_fail_count_def)
  moreover have "a \<in> set as \<Longrightarrow> 0 < count_list as a"
    by (metis count_list_0_iff gr0I)
  ultimately show ?thesis by (auto simp: st1 broken_def update_copy_fail_count_def)
qed

theorem failed_hostres_balanced_witness:
  "\<exists>l1 st1 l2. (\<lambda>_. hostres_new 16 2 3 4096 True) = (\<lambda>_. hostres_new 16 2 3 4096 True) \<and> m_failed_hostres l2 = []
    \<and> queryCompleted l2
    \<and> (m_failed_copy_ops (hostres_new 16 2 3 4096 True) \<ge> 0 \<longrightarrow> (7 :: u64) \<in> set [7, 7] \<longrightarrow> broken (st1 (7 :: u64)))"
proof -
  obtain l1 st1 where a: "add_failed [7, 7] error_list_new (\<lambda>_. hostres_new 16 2 3 4096 True) = (l1, st1)"
    by fastforce
  obtain l2 st2 where c: "clearRequestSucceeded l1 st1 = (l2, st2)" by fastforce
  have "m_failed_hostres error_list_new = []" by (simp add: error_list_new_def)
  from failed_hostres_balanced [OF this a c, of 7] show ?thesis by blast
qed

end
