(* ===== verification/Inf_Objects.thy ===== *)
theory Inf_Objects
  imports Handle_Map Id_Allocator Error_List
begin

text \<open>
  The objects of an inference context and the heap they live in: device resources
  (\<open>nnpiDevRes.h\<close>), copy commands (\<open>nnpiCopyCommand.h\<close>), device networks (\<open>nnpiDevNet.h\<close>) and
  infer requests (\<open>nnpiInfReq.h\<close>). A \<open>std::shared_ptr\<close> is the address of its object; host
  resources are shared by all copies that use them, so the locks of two copies can interact.
  The scheduling half of the copy command is here; what talks to the card is in
  \<open>Dev_Objects\<close>.
\<close>

section \<open>Objects\<close>

record devres =
  dr_ctx :: addr
  dr_id :: u16
  dr_size :: u64
  dr_depth :: u32
  dr_align :: u64
  dr_flags :: u32
  dr_host_addr :: u64
  dr_buf_id :: u8
  dr_peer :: addr
  dr_user_hdl :: u64

record copy_cmd =
  cp_ctx :: addr
  cp_id :: u16
  cp_is_subres :: bool
  cp_devres :: addr
  cp_hostres :: addr
  cp_hostres_map_id :: u16
  cp_c2h :: bool
  cp_user_hdl :: u64
  cp_need_prepare :: bool
  cp_is_d2d :: bool
  cp_scheduled :: bool
  cp_src_devres :: addr

record devnet =
  dn_ctx :: addr
  dn_id :: u16
  dn_infreq_ida :: ida
  dn_devres_vec :: "addr list"
  dn_user_hdl :: u64

record infreq =
  rq_devnet :: addr
  rq_id :: u16
  rq_inputs :: "addr list"
  rq_outputs :: "addr list"
  rq_user_hdl :: u64

text \<open>The heap. \<open>o_next\<close> is where the next object is allocated.\<close>

record objects =
  o_hostres :: hostres_store
  o_devres :: "addr \<Rightarrow> devres"
  o_copies :: "addr \<Rightarrow> copy_cmd"
  o_devnets :: "addr \<Rightarrow> devnet"
  o_infreqs :: "addr \<Rightarrow> infreq"
  o_next :: addr

definition set_hostres :: "addr \<Rightarrow> hostres \<Rightarrow> 'a objects_scheme \<Rightarrow> 'a objects_scheme" where
  "set_hostres a h s = s\<lparr>o_hostres := (o_hostres s)(a := h)\<rparr>"

definition set_copy :: "addr \<Rightarrow> copy_cmd \<Rightarrow> 'a objects_scheme \<Rightarrow> 'a objects_scheme" where
  "set_copy a c s = s\<lparr>o_copies := (o_copies s)(a := c)\<rparr>"

definition set_devres :: "addr \<Rightarrow> devres \<Rightarrow> 'a objects_scheme \<Rightarrow> 'a objects_scheme" where
  "set_devres a d s = s\<lparr>o_devres := (o_devres s)(a := d)\<rparr>"

definition set_devnet :: "addr \<Rightarrow> devnet \<Rightarrow> 'a objects_scheme \<Rightarrow> 'a objects_scheme" where
  "set_devnet a d s = s\<lparr>o_devnets := (o_devnets s)(a := d)\<rparr>"

definition set_infreq :: "addr \<Rightarrow> infreq \<Rightarrow> 'a objects_scheme \<Rightarrow> 'a objects_scheme" where
  "set_infreq a r s = s\<lparr>o_infreqs := (o_infreqs s)(a := r)\<rparr>"

definition new_addr :: "'a objects_scheme \<Rightarrow> addr \<times> 'a objects_scheme" where
  "new_addr s = (o_next s, s\<lparr>o_next := o_next s + 1\<rparr>)"

lemmas heap_defs = set_hostres_def set_copy_def set_devres_def set_devnet_def set_infreq_def

section \<open>Constructors\<close>

definition devres_new ::
    "addr \<Rightarrow> u16 \<Rightarrow> u64 \<Rightarrow> u32 \<Rightarrow> u64 \<Rightarrow> u32 \<Rightarrow> u64 \<Rightarrow> u8 \<Rightarrow> devres" where
  "devres_new ctx i sz depth align flags host_addr buf =
     \<lparr>dr_ctx = ctx, dr_id = i, dr_size = sz, dr_depth = depth, dr_align = align, dr_flags = flags,
      dr_host_addr = host_addr, dr_buf_id = buf, dr_peer = null, dr_user_hdl = 0\<rparr>"

text \<open>A copy between a host and a device resource, of part of a resource, between devices.\<close>

definition copy_new :: "addr \<Rightarrow> u16 \<Rightarrow> addr \<Rightarrow> addr \<Rightarrow> u32 \<Rightarrow> u16 \<Rightarrow> bool \<Rightarrow> copy_cmd" where
  "copy_new ctx i dev host host_flags map_id c2h =
     \<lparr>cp_ctx = ctx, cp_id = i, cp_is_subres = False, cp_devres = dev, cp_hostres = host,
      cp_hostres_map_id = map_id, cp_c2h = c2h, cp_user_hdl = 0,
      cp_need_prepare = (\<not> has_flag host_flags NNP_RESOURECE_USAGE_LOCKLESS), cp_is_d2d = False,
      cp_scheduled = False, cp_src_devres = null\<rparr>"

definition copy_new_subres :: "addr \<Rightarrow> u16 \<Rightarrow> addr \<Rightarrow> copy_cmd" where
  "copy_new_subres ctx i dev =
     \<lparr>cp_ctx = ctx, cp_id = i, cp_is_subres = True, cp_devres = dev, cp_hostres = null,
      cp_hostres_map_id = 0xffff, cp_c2h = False, cp_user_hdl = 0, cp_need_prepare = True,
      cp_is_d2d = False, cp_scheduled = False, cp_src_devres = null\<rparr>"

definition copy_new_d2d :: "addr \<Rightarrow> u16 \<Rightarrow> addr \<Rightarrow> addr \<Rightarrow> copy_cmd" where
  "copy_new_d2d ctx i dst src =
     \<lparr>cp_ctx = ctx, cp_id = i, cp_is_subres = False, cp_devres = dst, cp_hostres = null,
      cp_hostres_map_id = 0xffff, cp_c2h = True, cp_user_hdl = 0, cp_need_prepare = False,
      cp_is_d2d = True, cp_scheduled = False, cp_src_devres = src\<rparr>"

definition devnet_new :: "addr \<Rightarrow> u16 \<Rightarrow> addr list \<Rightarrow> devnet" where
  "devnet_new ctx i ds =
     \<lparr>dn_ctx = ctx, dn_id = i, dn_infreq_ida = ida_init 0xffff, dn_devres_vec = ds,
      dn_user_hdl = 0\<rparr>"

definition infreq_new :: "addr \<Rightarrow> u16 \<Rightarrow> addr list \<Rightarrow> addr list \<Rightarrow> infreq" where
  "infreq_new net i ins outs =
     \<lparr>rq_devnet = net, rq_id = i, rq_inputs = ins, rq_outputs = outs, rq_user_hdl = 0\<rparr>"

section \<open>Scheduling a copy\<close>

definition max_size :: "addr \<Rightarrow> 'a objects_scheme \<Rightarrow> u64" where
  "max_size a s =
     (let cp = o_copies s a
      in min (dr_size (o_devres s (cp_devres cp)))
           (if cp_is_d2d cp then dr_size (o_devres s (cp_src_devres cp))
            else m_byte_size (o_hostres s (cp_hostres cp))))"

text \<open>\<open>preSchedule\<close> takes the copy's lock on a host resource: the given one, or its own.\<close>

definition pre_schedule_on ::
    "addr \<Rightarrow> addr \<Rightarrow> 'a objects_scheme \<Rightarrow> (bool \<times> 'a objects_scheme) outcome" where
  "pre_schedule_on hr a s =
     (let cp = o_copies s a
      in if cp_is_d2d cp then Done (True, s)
         else if hr = null then Undefined
         else let (e, h) = lock_device_access (cp_c2h cp) (o_hostres s hr);
                  s1 = set_hostres hr h s
              in if e = NNP_NO_ERROR
                 then Done (True, set_copy a (cp\<lparr>cp_scheduled := True\<rparr>) s1)
                 else Done (False, s1))"

definition pre_schedule :: "addr \<Rightarrow> 'a objects_scheme \<Rightarrow> (bool \<times> 'a objects_scheme) outcome" where
  "pre_schedule a s = pre_schedule_on (cp_hostres (o_copies s a)) a s"

text \<open>\<open>postSchedule\<close> gives the lock back; a failed copy is recorded in an error list.\<close>

definition post_schedule ::
    "error_list option \<Rightarrow> addr \<Rightarrow> 'a objects_scheme \<Rightarrow>
     (error_list option \<times> 'a objects_scheme) outcome" where
  "post_schedule el a s =
     (let cp = o_copies s a
      in if \<not> cp_scheduled cp then Done (el, s)
         else
           let cp1 = cp\<lparr>cp_scheduled := False\<rparr>
           in if cp_is_d2d cp then Done (el, set_copy a cp1 s)
              else if cp_hostres cp = null then Undefined
              else
                let hr = cp_hostres cp;
                    (el', st) = (case el of
                        None \<Rightarrow> (None, o_hostres s)
                      | Some l \<Rightarrow> map_prod Some id (addFailedHostRes hr l (o_hostres s)));
                    cp2 = (if cp_is_subres cp then cp1\<lparr>cp_hostres := null\<rparr> else cp1);
                    s1 = set_copy a cp2 (s\<lparr>o_hostres := st\<rparr>)
                in Done (el', set_hostres hr (unlock_device_access (cp_c2h cp) (st hr)) s1))"

section \<open>What the locks of copies come to\<close>

lemma pre_schedule_d2d: "cp_is_d2d (o_copies s a) \<Longrightarrow> pre_schedule a s = Done (True, s)"
  by (simp add: pre_schedule_def pre_schedule_on_def)

lemma pre_schedule_refused: "pre_schedule a s = Done (False, s') \<Longrightarrow> s' = s"
  by (auto simp: pre_schedule_def pre_schedule_on_def set_hostres_def Let_def
      split: if_splits prod.splits dest!: lock_device_refused)

text \<open>A granted lock is taken back, for a copy that was not already under way.\<close>

lemma post_pre_schedule:
  assumes "pre_schedule a s = Done (True, s')" and "\<not> cp_scheduled (o_copies s a)"
    and "\<not> cp_is_subres (o_copies s a)"
  shows "post_schedule None a s' = Done (None, s)"
proof (cases "cp_is_d2d (o_copies s a)")
  case True
  with assms show ?thesis by (simp add: pre_schedule_d2d post_schedule_def)
next
  case False
  let ?cp = "o_copies s a"
  obtain h where l: "lock_device_access (cp_c2h ?cp) (o_hostres s (cp_hostres ?cp)) = (NNP_NO_ERROR, h)"
    and nn: "cp_hostres ?cp \<noteq> null"
    and s': "s' = set_copy a (?cp\<lparr>cp_scheduled := True\<rparr>) (set_hostres (cp_hostres ?cp) h s)"
    using assms(1) False
    by (auto simp: pre_schedule_def pre_schedule_on_def Let_def split: if_splits prod.splits)
  have "?cp\<lparr>cp_scheduled := True, cp_scheduled := False\<rparr> = ?cp"
    using assms(2) by (cases ?cp) simp
  then show ?thesis
    using s' nn False assms(3) lock_device_undo [OF l]
    by (simp add: post_schedule_def heap_defs)
qed

end
