(* ===== verification/Sched_Params.thy ===== *)
theory Sched_Params
  imports Inf_Objects
begin

text \<open>
  The commands of a command list (\<open>nnpiCommandList.h\<close>): a copy, a list of copies, an infer
  request, each with the parameters it is scheduled with. The class hierarchy under
  \<open>nnpiInfCommandSchedParams\<close> is a datatype, its virtual functions are case distinctions.
  Pointer arithmetic in \<open>pack\<close> is the list of bytes written: \<open>pack\<close> returns whether it was
  complete, the bytes, and the command with its edit marks updated.
\<close>

section \<open>Data\<close>

record copy_params =
  cpp_copy :: addr
  cpp_priority :: u8
  cpp_size :: u64
  cpp_idx :: u16
  cpp_edited :: bool

record copylist_params =
  clp_copies :: "copy_params list"
  clp_idx :: u16
  clp_edited :: bool
  clp_num_edits :: u16
  clp_need_prepare :: bool

record infreq_params =
  irp_infreq :: addr
  irp_null_params :: bool
  irp_batchSize :: u16
  irp_priority :: u8
  irp_debugOn :: bool
  irp_collectInfo :: bool
  irp_idx :: u16
  irp_edited :: bool

datatype sched_cmd =
    Cmd_Copy copy_params
  | Cmd_CopyList copylist_params
  | Cmd_InfReq infreq_params

text \<open>\<open>enum CmdListCommandType\<close>.\<close>

abbreviation (input) CMDLIST_CMD_INFREQ :: nat where "CMDLIST_CMD_INFREQ \<equiv> 0"
abbreviation (input) CMDLIST_CMD_COPY :: nat where "CMDLIST_CMD_COPY \<equiv> 1"
abbreviation (input) CMDLIST_CMD_COPYLIST :: nat where "CMDLIST_CMD_COPYLIST \<equiv> 2"

primrec cmd_type_of :: "sched_cmd \<Rightarrow> nat" where
  "cmd_type_of (Cmd_Copy _) = CMDLIST_CMD_COPY"
| "cmd_type_of (Cmd_CopyList _) = CMDLIST_CMD_COPYLIST"
| "cmd_type_of (Cmd_InfReq _) = CMDLIST_CMD_INFREQ"

text \<open>\<open>nnpdrvinfSchedParams\<close>; a null pointer is \<open>None\<close>.\<close>

record inf_sched_params =
  isp_batchSize :: u16
  isp_priority :: u8
  isp_debugOn :: bool
  isp_collectInfo :: bool

section \<open>Construction and overwriting\<close>

definition copy_params_new :: "addr \<Rightarrow> u8 \<Rightarrow> u64 \<Rightarrow> 'a objects_scheme \<Rightarrow> copy_params" where
  "copy_params_new a priority sz s =
     \<lparr>cpp_copy = a, cpp_priority = priority, cpp_size = min sz (max_size a s), cpp_idx = 0xffff,
      cpp_edited = True\<rparr>"

definition copy_params_overwrite :: "u8 \<Rightarrow> u64 \<Rightarrow> 'a objects_scheme \<Rightarrow> copy_params \<Rightarrow> copy_params" where
  "copy_params_overwrite priority sz s p =
     p\<lparr>cpp_priority := priority, cpp_size := min sz (max_size (cpp_copy p) s)\<rparr>"

fun index_copies :: "nat \<Rightarrow> copy_params list \<Rightarrow> copy_params list" where
  "index_copies i [] = []"
| "index_copies i (p # ps) = p\<lparr>cpp_idx := of_nat i\<rparr> # index_copies (Suc i) ps"

definition copylist_new :: "copy_params list \<Rightarrow> 'a objects_scheme \<Rightarrow> copylist_params" where
  "copylist_new ps s =
     \<lparr>clp_copies = index_copies 0 ps, clp_idx = 0xffff, clp_edited = True,
      clp_num_edits = of_nat (length ps),
      clp_need_prepare = list_ex (\<lambda>p. cp_need_prepare (o_copies s (cpp_copy p))) ps\<rparr>"

definition infreq_params_new :: "addr \<Rightarrow> inf_sched_params option \<Rightarrow> infreq_params" where
  "infreq_params_new a sp =
     \<lparr>irp_infreq = a, irp_null_params = (sp = None),
      irp_batchSize = (case sp of Some p \<Rightarrow> isp_batchSize p | None \<Rightarrow> 0),
      irp_priority = (case sp of Some p \<Rightarrow> isp_priority p | None \<Rightarrow> 0),
      irp_debugOn = (case sp of Some p \<Rightarrow> isp_debugOn p | None \<Rightarrow> False),
      irp_collectInfo = (case sp of Some p \<Rightarrow> isp_collectInfo p | None \<Rightarrow> False),
      irp_idx = 0xffff, irp_edited = True\<rparr>"

text \<open>The priority is not overwritten.\<close>

definition infreq_params_overwrite :: "inf_sched_params option \<Rightarrow> infreq_params \<Rightarrow> infreq_params" where
  "infreq_params_overwrite sp p =
     (case sp of
        None \<Rightarrow> p\<lparr>irp_null_params := True\<rparr>
      | Some q \<Rightarrow> p\<lparr>irp_null_params := False, irp_batchSize := isp_batchSize q,
                    irp_debugOn := isp_debugOn q, irp_collectInfo := isp_collectInfo q\<rparr>)"

section \<open>The virtual functions\<close>

primrec set_index :: "u16 \<Rightarrow> sched_cmd \<Rightarrow> sched_cmd" where
  "set_index i (Cmd_Copy p) = Cmd_Copy (p\<lparr>cpp_idx := i\<rparr>)"
| "set_index i (Cmd_CopyList l) = Cmd_CopyList (l\<lparr>clp_idx := i\<rparr>)"
| "set_index i (Cmd_InfReq r) = Cmd_InfReq (r\<lparr>irp_idx := i\<rparr>)"

primrec is_edited :: "sched_cmd \<Rightarrow> bool" where
  "is_edited (Cmd_Copy p) = cpp_edited p"
| "is_edited (Cmd_CopyList l) = clp_edited l"
| "is_edited (Cmd_InfReq r) = irp_edited r"

text \<open>\<open>clear_edits\<close>; the assertion in the list's version can fail only on a list with the mark
  set and no edits counted, which the operations never make.\<close>

definition clear_copy_edits :: "copy_params \<Rightarrow> copy_params" where
  "clear_copy_edits p = p\<lparr>cpp_edited := False\<rparr>"

primrec clear_edits :: "sched_cmd \<Rightarrow> sched_cmd" where
  "clear_edits (Cmd_Copy p) = Cmd_Copy (clear_copy_edits p)"
| "clear_edits (Cmd_CopyList l) =
     Cmd_CopyList (if clp_num_edits l = 0 then l
                   else l\<lparr>clp_num_edits := 0, clp_edited := False,
                          clp_copies := map clear_copy_edits (clp_copies l)\<rparr>)"
| "clear_edits (Cmd_InfReq r) = Cmd_InfReq (r\<lparr>irp_edited := False\<rparr>)"

primrec num_of_subcmds :: "sched_cmd \<Rightarrow> u16" where
  "num_of_subcmds (Cmd_Copy p) = 1"
| "num_of_subcmds (Cmd_CopyList l) = of_nat (length (clp_copies l))"
| "num_of_subcmds (Cmd_InfReq r) = 1"

text \<open>\<open>get_cmd_for_overwrite\<close> returns a pointer to the parameters to overwrite, after marking
  them; the marked command stands for it, \<open>None\<close> for a null pointer.\<close>

primrec mark_for_overwrite :: "u16 \<Rightarrow> sched_cmd \<Rightarrow> sched_cmd option" where
  "mark_for_overwrite i (Cmd_Copy p) =
     (if i > 0 then None else Some (Cmd_Copy (p\<lparr>cpp_edited := True\<rparr>)))"
| "mark_for_overwrite i (Cmd_CopyList l) =
     (if i \<ge> of_nat (length (clp_copies l)) then None
      else
        let p = clp_copies l ! unat i;
            l1 = (if \<not> cpp_edited p
                  then l\<lparr>clp_num_edits := clp_num_edits l + 1, clp_edited := True\<rparr> else l)
        in Some (Cmd_CopyList
             (l1\<lparr>clp_copies := (clp_copies l)[unat i := p\<lparr>cpp_edited := True\<rparr>]\<rparr>)))"
| "mark_for_overwrite i (Cmd_InfReq r) =
     (if i > 0 then None else Some (Cmd_InfReq (r\<lparr>irp_edited := True\<rparr>)))"

section \<open>Packing\<close>

definition copy_bytes :: "'a objects_scheme \<Rightarrow> copy_params \<Rightarrow> u8 list" where
  "copy_bytes s p =
     le_bytes 4 (unat (cpp_idx p)) @ le_bytes 1 CMDLIST_CMD_COPY @
     le_bytes 2 (unat (cp_id (o_copies s (cpp_copy p)))) @ le_bytes 1 (unat (cpp_priority p)) @
     le_bytes 8 (unat (cpp_size p))"

definition pack_copy :: "'a objects_scheme \<Rightarrow> nat \<Rightarrow> copy_params \<Rightarrow> bool \<times> u8 list \<times> copy_params" where
  "pack_copy s room p =
     (if \<not> cpp_edited p then (True, [], p)
      else if room < 16 then (False, [], p)
      else (True, copy_bytes s p, p\<lparr>cpp_edited := False\<rparr>))"

fun pack_copies :: "'a objects_scheme \<Rightarrow> nat \<Rightarrow> copy_params list \<Rightarrow> bool \<times> u8 list \<times> copy_params list" where
  "pack_copies s room [] = (True, [], [])"
| "pack_copies s room (p # ps) =
     (case pack_copy s room p of
        (ok, bs, p') \<Rightarrow>
          if \<not> ok then (False, bs, p' # ps)
          else (case pack_copies s (room - length bs) ps of
                  (ok', bs', ps') \<Rightarrow> (ok', bs @ bs', p' # ps')))"

definition copylist_header :: "copylist_params \<Rightarrow> u8 list" where
  "copylist_header l =
     le_bytes 4 (unat (clp_idx l)) @ le_bytes 1 CMDLIST_CMD_COPYLIST @
     le_bytes 2 (unat (clp_num_edits l))"

definition pack_copylist ::
    "'a objects_scheme \<Rightarrow> nat \<Rightarrow> copylist_params \<Rightarrow> bool \<times> u8 list \<times> copylist_params" where
  "pack_copylist s room l =
     (if clp_edited l \<and> room < 7 then (False, [], l)
      else
        let hdr = (if clp_edited l then copylist_header l else []);
            l1 = l\<lparr>clp_edited := False\<rparr>
        in if clp_num_edits l = 0 then (True, hdr, l1)
           else (case pack_copies s (room - length hdr) (clp_copies l) of
                   (ok, bs, ps) \<Rightarrow>
                     (ok, hdr @ bs,
                      (if ok then l1\<lparr>clp_copies := ps, clp_num_edits := 0\<rparr>
                       else l1\<lparr>clp_copies := ps\<rparr>))))"

definition infreq_bytes :: "'a objects_scheme \<Rightarrow> infreq_params \<Rightarrow> u8 list" where
  "infreq_bytes s r =
     (let q = o_infreqs s (irp_infreq r)
      in le_bytes 4 (unat (irp_idx r)) @ le_bytes 1 CMDLIST_CMD_INFREQ @
         le_bytes 2 (unat (dn_id (o_devnets s (rq_devnet q)))) @ le_bytes 2 (unat (rq_id q)) @
         le_bytes 1 (of_bool (irp_null_params r)) @
         (if irp_null_params r then []
          else le_bytes 2 (unat (irp_batchSize r)) @ le_bytes 1 (unat (irp_priority r)) @
               le_bytes 1 (of_bool (irp_debugOn r)) @ le_bytes 1 (of_bool (irp_collectInfo r))))"

definition pack_infreq ::
    "'a objects_scheme \<Rightarrow> nat \<Rightarrow> infreq_params \<Rightarrow> bool \<times> u8 list \<times> infreq_params" where
  "pack_infreq s room r =
     (if \<not> irp_edited r then (True, [], r)
      else if room < 10 \<or> (\<not> irp_null_params r \<and> room < 15) then (False, [], r)
      else (True, infreq_bytes s r, r\<lparr>irp_edited := False\<rparr>))"

primrec pack :: "'a objects_scheme \<Rightarrow> nat \<Rightarrow> sched_cmd \<Rightarrow> bool \<times> u8 list \<times> sched_cmd" where
  "pack s room (Cmd_Copy p) = (case pack_copy s room p of (ok, bs, p') \<Rightarrow> (ok, bs, Cmd_Copy p'))"
| "pack s room (Cmd_CopyList l) =
     (case pack_copylist s room l of (ok, bs, l') \<Rightarrow> (ok, bs, Cmd_CopyList l'))"
| "pack s room (Cmd_InfReq r) =
     (case pack_infreq s room r of (ok, bs, r') \<Rightarrow> (ok, bs, Cmd_InfReq r'))"

section \<open>Locking the buffers of a command\<close>

text \<open>The loop of \<open>nnpiCopyListParams::prepare_schedule\<close>, with the copies it has tried.\<close>

fun prepare_copies ::
    "addr list \<Rightarrow> 'a objects_scheme \<Rightarrow> (bool \<times> addr list \<times> 'a objects_scheme) outcome" where
  "prepare_copies [] s = Done (True, [], s)"
| "prepare_copies (a # as) s =
     obind (pre_schedule a s) (\<lambda>(r, s1).
       if r then obind (prepare_copies as s1) (\<lambda>(r', tried, s2). Done (r', a # tried, s2))
       else Done (False, [a], s1))"

fun done_copies ::
    "error_list option \<Rightarrow> addr list \<Rightarrow> 'a objects_scheme \<Rightarrow>
     (error_list option \<times> 'a objects_scheme) outcome" where
  "done_copies el [] s = Done (el, s)"
| "done_copies el (a # as) s =
     obind (post_schedule el a s) (\<lambda>(el1, s1). done_copies el1 as s1)"

primrec prepare_schedule :: "sched_cmd \<Rightarrow> 'a objects_scheme \<Rightarrow> (bool \<times> 'a objects_scheme) outcome" where
  "prepare_schedule (Cmd_Copy p) s = pre_schedule (cpp_copy p) s"
| "prepare_schedule (Cmd_CopyList l) s =
     (if clp_need_prepare l then
        obind (prepare_copies (map cpp_copy (clp_copies l)) s) (\<lambda>(r, tried, s1).
          if r then Done (True, s1)
          else obind (done_copies None tried s1) (\<lambda>(_, s2). Done (False, s2)))
      else Done (True, s))"
| "prepare_schedule (Cmd_InfReq r) s = Done (True, s)"

primrec schedule_done ::
    "error_list option \<Rightarrow> sched_cmd \<Rightarrow> 'a objects_scheme \<Rightarrow>
     (error_list option \<times> 'a objects_scheme) outcome" where
  "schedule_done el (Cmd_Copy p) s = post_schedule el (cpp_copy p) s"
| "schedule_done el (Cmd_CopyList l) s =
     (if clp_need_prepare l then done_copies el (map cpp_copy (clp_copies l)) s else Done (el, s))"
| "schedule_done el (Cmd_InfReq r) s = Done (el, s)"

end
