(* ===== verification/Bit_Layout.thy ===== *)
theory Bit_Layout
  imports Nnp_Prelude
begin

text \<open>
  The memory layout of the packed bit-field structures the protocol messages are declared
  with. A structure is the list of its fields with their widths; the compiler allocates the
  fields from the least significant bit up, without padding (\<open>#pragma pack(1)\<close>, little-endian
  target), and an assignment to a field keeps the low bits of the value.
\<close>

section \<open>Fields\<close>

type_synonym layout = "(string \<times> nat) list"

definition layout_bits :: "layout \<Rightarrow> nat" where
  "layout_bits lay = sum_list (map snd lay)"

fun pack_bits :: "nat list \<Rightarrow> nat list \<Rightarrow> nat" where
  "pack_bits (w # ws) (v # vs) = v mod 2 ^ w + 2 ^ w * pack_bits ws vs"
| "pack_bits ws vs = 0"

fun unpack_bits :: "nat list \<Rightarrow> nat \<Rightarrow> nat list" where
  "unpack_bits [] n = []"
| "unpack_bits (w # ws) n = n mod 2 ^ w # unpack_bits ws (n div 2 ^ w)"

lemma unpack_pack:
  "length ws = length vs \<Longrightarrow> unpack_bits ws (pack_bits ws vs) = map2 (\<lambda>w v. v mod 2 ^ w) ws vs"
  by (induction ws vs rule: pack_bits.induct) auto

lemma pack_bits_less: "pack_bits ws vs < 2 ^ sum_list ws"
proof (induction ws vs rule: pack_bits.induct)
  case (1 w ws v vs)
  have "v mod 2 ^ w + 2 ^ w * pack_bits ws vs < 2 ^ w + 2 ^ w * pack_bits ws vs" by simp
  also have "\<dots> = 2 ^ w * Suc (pack_bits ws vs)" by simp
  also have "\<dots> \<le> 2 ^ w * 2 ^ sum_list ws" using 1 by (intro mult_le_mono2) simp
  finally show ?case by (simp add: power_add)
qed auto

lemma length_unpack [simp]: "length (unpack_bits ws n) = length ws"
  by (induction ws n rule: unpack_bits.induct) auto

lemma unpack_append:
  "unpack_bits (ws @ vs) n = unpack_bits ws n @ unpack_bits vs (n div 2 ^ sum_list ws)"
  by (induction ws n rule: unpack_bits.induct) (auto simp: power_add div_mult2_eq)

section \<open>Messages as 64-bit words\<close>

definition qwords :: "nat \<Rightarrow> nat \<Rightarrow> u64 list" where
  "qwords k n = map of_nat (unpack_bits (replicate k 64) n)"

definition of_qwords :: "u64 list \<Rightarrow> nat" where
  "of_qwords ws = pack_bits (replicate (length ws) 64) (map unat ws)"

lemma length_qwords [simp]: "length (qwords k n) = k"
  by (simp add: qwords_def)

lemma of_qwords_qwords: "n < 2 ^ (64 * k) \<Longrightarrow> of_qwords (qwords k n) = n"
proof (induction k arbitrary: n)
  case 0
  then show ?case by (simp add: of_qwords_def qwords_def)
next
  case (Suc k)
  from Suc.prems have "n div 2 ^ 64 < 2 ^ (64 * k)"
    by (intro less_mult_imp_div_less) (simp add: power_add)
  then have "of_qwords (qwords k (n div 2 ^ 64)) = n div 2 ^ 64" by (rule Suc.IH)
  then have "of_qwords (qwords (Suc k) n) = n mod 2 ^ 64 + 2 ^ 64 * (n div 2 ^ 64)"
    by (simp add: of_qwords_def qwords_def unat_of_nat take_bit_eq_mod)
  then show ?case by simp
qed

text \<open>
  Writing a message of the layout, one value per field; reading its fields. The union of a
  message gives the structure whole 64-bit words.
\<close>

definition msg_qwords :: "layout \<Rightarrow> nat" where
  "msg_qwords lay = (layout_bits lay + 63) div 64"

definition encode_fields :: "layout \<Rightarrow> nat list \<Rightarrow> u64 list" where
  "encode_fields lay vs = qwords (msg_qwords lay) (pack_bits (map snd lay) vs)"

definition decode_fields :: "layout \<Rightarrow> u64 list \<Rightarrow> nat list" where
  "decode_fields lay ws = unpack_bits (map snd lay) (of_qwords ws)"

lemma length_encode_fields [simp]: "length (encode_fields lay vs) = msg_qwords lay"
  by (simp add: encode_fields_def)

lemma decode_encode_fields:
  assumes "length vs = length lay"
  shows "decode_fields lay (encode_fields lay vs) = map2 (\<lambda>(_, w) v. v mod 2 ^ w) lay vs"
proof -
  let ?n = "pack_bits (map snd lay) vs"
  have "?n < 2 ^ layout_bits lay"
    using pack_bits_less [of "map snd lay" vs] by (simp add: layout_bits_def)
  also have "(2 :: nat) ^ layout_bits lay \<le> 2 ^ (64 * msg_qwords lay)"
    unfolding msg_qwords_def by (rule power_increasing) linarith+
  finally have "decode_fields lay (encode_fields lay vs) = unpack_bits (map snd lay) ?n"
    by (simp add: decode_fields_def encode_fields_def of_qwords_qwords)
  also have "\<dots> = map2 (\<lambda>w v. v mod 2 ^ w) (map snd lay) vs"
    using assms by (simp add: unpack_pack)
  also have "\<dots> = map2 (\<lambda>(_, w) v. v mod 2 ^ w) lay vs"
    by (simp add: zip_map1 case_prod_unfold)
  finally show ?thesis .
qed

text \<open>What an assignment to a field of the given width keeps of a value.\<close>

definition trunc :: "nat \<Rightarrow> nat \<Rightarrow> nat" where
  "trunc w v = v mod 2 ^ w"

lemma trunc_unat: "LENGTH('a) = w \<Longrightarrow> trunc w (unat (x :: 'a::len word)) = unat x"
  by (auto simp: trunc_def unat_lt)

lemma trunc_of_bool: "0 < w \<Longrightarrow> trunc w (of_bool b) = of_bool b"
  by (cases w) (auto simp: trunc_def)

lemma trunc_0: "trunc w 0 = 0"
  by (simp add: trunc_def)

lemma trunc_numeral: "trunc w (numeral n) = numeral n mod 2 ^ w"
  by (simp add: trunc_def)

lemma decode_encode_trunc:
  "length vs = length lay \<Longrightarrow>
    decode_fields lay (encode_fields lay vs) = map2 trunc (map snd lay) vs"
  by (simp add: decode_encode_fields zip_map1 case_prod_unfold trunc_def)

lemmas trunc_simps = trunc_unat trunc_of_bool trunc_0 trunc_numeral

text \<open>Two layouts that agree on their leading fields read the same values there.\<close>

lemma decode_header:
  "take (length pre) (decode_fields (pre @ lay) ws) = decode_fields pre ws"
  by (simp add: decode_fields_def unpack_append)

end
