(* ===== verification/Ipc_Layouts.thy ===== *)
theory Ipc_Layouts
  imports Bit_Layout
begin

text \<open>
  The declarations of \<open>ipc_protocol.h\<close> and \<open>ipc_chan_protocol.h\<close>: every message union as a
  layout, and the opcode tables of \<open>ipc_chan_h2c_opcodes.h\<close> and \<open>ipc_chan_c2h_opcodes.h\<close>.
  The sources check the sizes and the opcode ranges with \<open>CHECK_MESSAGE_SIZE\<close> and
  \<open>NNP_STATIC_ASSERT\<close>, which expand to nothing in the user-mode library; the theorems here
  stand for them.
\<close>

section \<open>Field widths\<close>

abbreviation (input) NNP_IPC_INF_CONTEXT_BITS :: nat where "NNP_IPC_INF_CONTEXT_BITS \<equiv> 8"
abbreviation (input) NNP_IPC_CHANNEL_BITS :: nat where "NNP_IPC_CHANNEL_BITS \<equiv> 10"
abbreviation (input) NNP_IPC_DMA_PFN_BITS :: nat where "NNP_IPC_DMA_PFN_BITS \<equiv> 45"
abbreviation (input) NNP_IPC_INF_CMDS_BITS :: nat where "NNP_IPC_INF_CMDS_BITS \<equiv> 16"
abbreviation (input) NNP_IPC_INF_DEVRES_BITS :: nat where "NNP_IPC_INF_DEVRES_BITS \<equiv> 16"
abbreviation (input) NNP_IPC_INF_DEVNET_BITS :: nat where "NNP_IPC_INF_DEVNET_BITS \<equiv> 16"
abbreviation (input) NNP_IPC_INF_REQ_BITS :: nat where "NNP_IPC_INF_REQ_BITS \<equiv> 16"
abbreviation (input) NNP_NET_SKB_HANDLE_BITS :: nat where "NNP_NET_SKB_HANDLE_BITS \<equiv> 8"

section \<open>Message unions\<close>

definition c2h_query_version_reply_msg :: layout where
  "c2h_query_version_reply_msg =
    [(''opcode'', 6), (''protocolversion'', 16), (''fw_version'', 16),
     (''chan_protocol_ver'', 16), (''reserved'', 10)]"

definition c2h_query_version_reply2_msg :: layout where
  "c2h_query_version_reply2_msg =
    [(''opcode'', 6), (''protocolversion'', 16), (''fw_version'', 16),
     (''chan_protocol_ver'', 16), (''reserved'', 10), (''chan_resp_op_size'', 64)]"

definition c2h_query_version_reply3_msg :: layout where
  "c2h_query_version_reply3_msg =
    [(''opcode'', 6), (''protocolversion'', 16), (''fw_version'', 16),
     (''chan_protocol_ver'', 16), (''reserved'', 10), (''chan_resp_op_size'', 64),
     (''chan_cmd_op_size'', 64)]"

definition c2h_event_report :: layout where
  "c2h_event_report =
    [(''opcode'', 6), (''event_code'', 7), (''context_id'', NNP_IPC_INF_CONTEXT_BITS),
     (''obj_id'', 16), (''obj_id_2'', 16), (''event_val'', 8), (''ctx_valid'', 1),
     (''obj_valid'', 1), (''obj_valid_2'', 1)]"

definition c2h_sys_info :: layout where
  "c2h_sys_info =
    [(''opcode'', 6), (''reserved'', 58)]"

definition h2c_query_version_msg :: layout where
  "h2c_query_version_msg =
    [(''opcode'', 6), (''reserved'', 58)]"

definition h2c_setup_crash_dump_msg :: layout where
  "h2c_setup_crash_dump_msg =
    [(''opcode'', 6), (''reserved'', 13), (''dma_addr'', NNP_IPC_DMA_PFN_BITS),
     (''membar_addr'', 64)]"

definition h2c_setup_sys_info_page :: layout where
  "h2c_setup_sys_info_page =
    [(''opcode'', 6), (''reserved'', 13), (''dma_addr'', NNP_IPC_DMA_PFN_BITS)]"

definition h2c_channel_op :: layout where
  "h2c_channel_op =
    [(''opcode'', 6), (''protocol_id'', NNP_IPC_CHANNEL_BITS), (''destroy'', 1),
     (''reserved'', 14), (''privileged'', 1), (''uid'', 32)]"

definition h2c_channel_data_ringbuf_op :: layout where
  "h2c_channel_data_ringbuf_op =
    [(''opcode'', 6), (''chan_id'', NNP_IPC_CHANNEL_BITS), (''h2c'', 1), (''rb_id'', 1),
     (''destroy'', 1), (''host_ptr'', NNP_IPC_DMA_PFN_BITS)]"

definition h2c_channel_hostres_op :: layout where
  "h2c_channel_hostres_op =
    [(''opcode'', 6), (''chan_id'', NNP_IPC_CHANNEL_BITS), (''hostres_id'', 16),
     (''unmap'', 1), (''reserved'', 31), (''host_ptr'', NNP_IPC_DMA_PFN_BITS),
     (''reserved2'', 19)]"

definition h2c_p2_pdev :: layout where
  "h2c_p2_pdev =
    [(''opcode'', 6), (''destroy'', 1), (''dev_id'', 5), (''is_producer'', 1),
     (''db_addr'', 57), (''cr_fifo_addr'', NNP_IPC_DMA_PFN_BITS), (''reserved'', 13)]"

definition h2c_peer_buf :: layout where
  "h2c_peer_buf =
    [(''opcode'', 6), (''buf_id'', 5), (''is_src_buf'', 1), (''dev_id'', 5),
     (''peer_buf_id'', 5), (''destroy'', 1), (''reserved1'', 41)]"

definition h2c_get_cr_fifo :: layout where
  "h2c_get_cr_fifo =
    [(''opcode'', 6), (''tr_id'', 8), (''peer_id'', 5), (''fw_fifo'', 1),
     (''reserved'', 44)]"

definition nnp_bios_ipc_header :: layout where
  "nnp_bios_ipc_header =
    [(''opcode'', 6), (''reserved1'', 2), (''msg_type'', 8), (''size'', 16),
     (''reserved2'', 32)]"

definition h2c_boot_image_ready :: layout where
  "h2c_boot_image_ready =
    [(''opcode'', 6), (''reserved1'', 2), (''msg_type'', 8), (''size'', 16),
     (''reserved2'', 32), (''descriptor_addr'', 64), (''descriptor_size'', 32),
     (''image_size'', 32)]"

definition h2c_bios_system_info_req :: layout where
  "h2c_bios_system_info_req =
    [(''opcode'', 6), (''reserved1'', 2), (''msg_type'', 8), (''size'', 16),
     (''reserved2'', 32), (''sysinfo_addr'', 64), (''sysinfo_size'', 32),
     (''reserved3'', 32)]"

definition h2c_chan_msg_header :: layout where
  "h2c_chan_msg_header =
    [(''opcode'', 6), (''chan_id'', NNP_IPC_CHANNEL_BITS), (''reserved'', 48)]"

definition c2h_chan_msg_header :: layout where
  "c2h_chan_msg_header =
    [(''opcode'', 6), (''chan_id'', NNP_IPC_CHANNEL_BITS), (''reserved'', 48)]"

definition h2c_ChanRingBufUpdate :: layout where
  "h2c_ChanRingBufUpdate =
    [(''opcode'', 6), (''chan_id'', NNP_IPC_CHANNEL_BITS), (''rb_id'', 1),
     (''reserved'', 15), (''size'', 32)]"

definition h2c_ChanGenericMessaging :: layout where
  "h2c_ChanGenericMessaging =
    [(''opcode'', 6), (''chan_id'', NNP_IPC_CHANNEL_BITS), (''rb_id'', 1),
     (''connect'', 1), (''hangup'', 1), (''service_list_req'', 1), (''size'', 12),
     (''card_client_id'', 12), (''reserved'', 20)]"

definition h2c_ChanInferenceContextOp :: layout where
  "h2c_ChanInferenceContextOp =
    [(''opcode'', 6), (''chan_id'', NNP_IPC_CHANNEL_BITS), (''rb_id'', 1),
     (''destroy'', 1), (''recover'', 1), (''cflags'', 8), (''reserved'', 37)]"

definition h2c_ChanInferenceResourceOp :: layout where
  "h2c_ChanInferenceResourceOp =
    [(''opcode'', 6), (''chan_id'', NNP_IPC_CHANNEL_BITS), (''rb_id'', 1),
     (''resID'', NNP_IPC_INF_DEVRES_BITS), (''destroy'', 1), (''is_input'', 1),
     (''is_output'', 1), (''is_network'', 1), (''is_force_4G'', 1), (''is_ecc'', 1),
     (''is_p2p_dst'', 1), (''is_p2p_src'', 1), (''depth'', 7), (''align'', 16),
     (''size'', 64)]"

definition h2c_ChanMarkInferenceResource :: layout where
  "h2c_ChanMarkInferenceResource =
    [(''opcode'', 6), (''chan_id'', NNP_IPC_CHANNEL_BITS),
     (''resID'', NNP_IPC_INF_DEVRES_BITS), (''reserved'', 32)]"

definition h2c_ChanInferenceCopyOp :: layout where
  "h2c_ChanInferenceCopyOp =
    [(''opcode'', 6), (''chan_id'', NNP_IPC_CHANNEL_BITS), (''protResID'', 16),
     (''protCopyID'', 16), (''d2d'', 1), (''c2h'', 1), (''destroy'', 1),
     (''hostres'', NNP_IPC_DMA_PFN_BITS), (''subres_copy'', 1),
     (''peerChanID'', NNP_IPC_CHANNEL_BITS), (''peerProtResID'', 16), (''peerDevID'', 5)]"

definition h2c_ChanInferenceSchedCopy :: layout where
  "h2c_ChanInferenceSchedCopy =
    [(''opcode'', 6), (''chan_id'', NNP_IPC_CHANNEL_BITS), (''protCopyID'', 16),
     (''copySize'', 30), (''priority'', 2)]"

definition h2c_ChanInferenceSchedCopyLarge :: layout where
  "h2c_ChanInferenceSchedCopyLarge =
    [(''opcode'', 6), (''chan_id'', NNP_IPC_CHANNEL_BITS), (''protCopyID'', 16),
     (''priority'', 8), (''reserved'', 24), (''copySize'', 64)]"

definition h2c_ChanInferenceSchedCopySubres :: layout where
  "h2c_ChanInferenceSchedCopySubres =
    [(''opcode'', 6), (''chan_id'', NNP_IPC_CHANNEL_BITS), (''protCopyID'', 16),
     (''hostres_id'', 16), (''copySize'', 16), (''dstOffset'', 64)]"

definition h2c_ChanInferenceNetworkOp :: layout where
  "h2c_ChanInferenceNetworkOp =
    [(''opcode'', 6), (''chan_id'', NNP_IPC_CHANNEL_BITS),
     (''netID'', NNP_IPC_INF_DEVNET_BITS), (''rb_id'', 1), (''destroy'', 1),
     (''create'', 1), (''num_res'', 24), (''reserved'', 5), (''size'', 32),
     (''start_res_idx'', 24), (''reserved2'', 7), (''chained'', 1)]"

definition h2c_ChanInferenceReqOp :: layout where
  "h2c_ChanInferenceReqOp =
    [(''opcode'', 6), (''chan_id'', NNP_IPC_CHANNEL_BITS),
     (''netID'', NNP_IPC_INF_DEVNET_BITS), (''infreqID'', NNP_IPC_INF_REQ_BITS),
     (''size'', 12), (''rb_id'', 1), (''destroy'', 1), (''reserved1'', 2)]"

definition h2c_ChanInferenceReqSchedule :: layout where
  "h2c_ChanInferenceReqSchedule =
    [(''opcode'', 6), (''chan_id'', NNP_IPC_CHANNEL_BITS),
     (''netID'', NNP_IPC_INF_DEVNET_BITS), (''infreqID'', NNP_IPC_INF_REQ_BITS),
     (''reserved'', 16), (''batchSize'', 16), (''priority'', 8), (''debugOn'', 1),
     (''collectInfo'', 1), (''schedParamsIsNull'', 1), (''reserve'', 37)]"

definition h2c_ChanSync :: layout where
  "h2c_ChanSync =
    [(''opcode'', 6), (''chan_id'', NNP_IPC_CHANNEL_BITS), (''syncSeq'', 16),
     (''reserved'', 32)]"

definition h2c_ChanInferenceNetworkSetProperty :: layout where
  "h2c_ChanInferenceNetworkSetProperty =
    [(''opcode'', 6), (''chan_id'', NNP_IPC_CHANNEL_BITS),
     (''netID'', NNP_IPC_INF_DEVNET_BITS), (''timeout'', 32), (''property'', 32),
     (''property_val'', 32)]"

definition h2c_ChanInferenceCmdListOp :: layout where
  "h2c_ChanInferenceCmdListOp =
    [(''opcode'', 6), (''chan_id'', NNP_IPC_CHANNEL_BITS),
     (''cmdID'', NNP_IPC_INF_CMDS_BITS), (''destroy'', 1), (''is_first'', 1),
     (''is_last'', 1), (''opt_dependencies'', 1), (''size'', 16), (''unused'', 12)]"

definition h2c_ExecErrorList :: layout where
  "h2c_ExecErrorList =
    [(''opcode'', 6), (''chan_id'', NNP_IPC_CHANNEL_BITS),
     (''cmdID'', NNP_IPC_INF_CMDS_BITS), (''cmdID_valid'', 1), (''clear'', 1),
     (''reserved'', 30)]"

definition h2c_ChanEthernetConfig :: layout where
  "h2c_ChanEthernetConfig =
    [(''opcode'', 6), (''chan_id'', NNP_IPC_CHANNEL_BITS), (''reserved'', 16),
     (''card_ip'', 32), (''reserved2'', 16), (''card_mac'', 48)]"

definition h2c_ChanEthernetMsgDscr :: layout where
  "h2c_ChanEthernetMsgDscr =
    [(''opcode'', 6), (''chan_id'', NNP_IPC_CHANNEL_BITS), (''size'', 12),
     (''skb_handle'', NNP_NET_SKB_HANDLE_BITS), (''is_ack'', 1), (''reserved'', 27)]"

definition c2h_ChanRingBufUpdate :: layout where
  "c2h_ChanRingBufUpdate =
    [(''opcode'', 6), (''chan_id'', NNP_IPC_CHANNEL_BITS), (''rb_id'', 1),
     (''reserved'', 15), (''size'', 32)]"

definition c2h_ChanGenericMessaging :: layout where
  "c2h_ChanGenericMessaging =
    [(''opcode'', 6), (''chan_id'', NNP_IPC_CHANNEL_BITS), (''rb_id'', 1),
     (''size'', 12), (''connect'', 1), (''no_such_service'', 1), (''hangup'', 1),
     (''card_client_id'', 12), (''reserved'', 18)]"

definition c2h_ChanServiceListMsg :: layout where
  "c2h_ChanServiceListMsg =
    [(''opcode'', 6), (''chan_id'', NNP_IPC_CHANNEL_BITS), (''rb_id'', 1),
     (''failure'', 3), (''size'', 12), (''num_services'', 32)]"

definition c2h_ChanSyncDone :: layout where
  "c2h_ChanSyncDone =
    [(''opcode'', 6), (''chan_id'', NNP_IPC_CHANNEL_BITS), (''syncSeq'', 16),
     (''reserved'', 32)]"

definition c2h_ChanInfReqFailed :: layout where
  "c2h_ChanInfReqFailed =
    [(''opcode'', 6), (''chan_id'', NNP_IPC_CHANNEL_BITS),
     (''netID'', NNP_IPC_INF_DEVNET_BITS), (''infreqID'', NNP_IPC_INF_REQ_BITS),
     (''cmdID'', NNP_IPC_INF_CMDS_BITS), (''reason'', 16), (''cmdID_valid'', 1),
     (''reserved'', 47)]"

definition c2h_ExecErrorList :: layout where
  "c2h_ExecErrorList =
    [(''opcode'', 6), (''chan_id'', NNP_IPC_CHANNEL_BITS),
     (''cmdID'', NNP_IPC_INF_CMDS_BITS), (''cmdID_valid'', 1), (''clear_status'', 2),
     (''pkt_size'', 12), (''total_size'', 16), (''is_error'', 1)]"

definition c2h_ChanEthernetConfig :: layout where
  "c2h_ChanEthernetConfig =
    [(''opcode'', 6), (''chan_id'', NNP_IPC_CHANNEL_BITS), (''reserved'', 16),
     (''card_ip'', 32)]"

definition c2h_ChanEthernetMsgDscr :: layout where
  "c2h_ChanEthernetMsgDscr =
    [(''opcode'', 6), (''chan_id'', NNP_IPC_CHANNEL_BITS), (''size'', 12),
     (''skb_handle'', NNP_NET_SKB_HANDLE_BITS), (''is_ack'', 1), (''reserved'', 27)]"

definition h2c_ChanHwTraceAddResource :: layout where
  "h2c_ChanHwTraceAddResource =
    [(''opcode'', 6), (''chan_id'', NNP_IPC_CHANNEL_BITS), (''mapID'', 16),
     (''resourceIndex'', 8), (''resource_size'', 32), (''reserved'', 56)]"

definition c2h_ChanHwTraceState :: layout where
  "c2h_ChanHwTraceState =
    [(''opcode'', 6), (''chan_id'', NNP_IPC_CHANNEL_BITS), (''subOpcode'', 5),
     (''val1'', 32), (''val2'', 8), (''val3'', 32), (''err'', 8), (''reserved'', 27)]"

definition h2c_ChanHwTraceState :: layout where
  "h2c_ChanHwTraceState =
    [(''opcode'', 6), (''chan_id'', NNP_IPC_CHANNEL_BITS), (''reserved'', 11),
     (''subOpcode'', 5), (''val'', 32)]"

definition h2c_ChanGetCrFIFO :: layout where
  "h2c_ChanGetCrFIFO =
    [(''opcode'', 6), (''chan_id'', NNP_IPC_CHANNEL_BITS), (''p2p_tr_id'', 16),
     (''peer_id'', 5), (''fw_fifo'', 1), (''reserved'', 26)]"

definition h2c_ChanConnectPeers :: layout where
  "h2c_ChanConnectPeers =
    [(''opcode'', 6), (''chan_id'', NNP_IPC_CHANNEL_BITS), (''p2p_tr_id'', 16),
     (''buf_id'', 8), (''is_src_buf'', 1), (''peer_dev_id'', 5), (''peer_buf_id'', 8),
     (''disconnect'', 1), (''reserved'', 9)]"

definition h2c_ChanUpdatePeerDev :: layout where
  "h2c_ChanUpdatePeerDev =
    [(''opcode'', 6), (''chan_id'', NNP_IPC_CHANNEL_BITS), (''p2p_tr_id'', 16),
     (''dev_id'', 5), (''is_producer'', 1), (''db_addr'', 57),
     (''cr_fifo_addr'', NNP_IPC_DMA_PFN_BITS), (''reserved'', 52)]"

definition h2c_ChanTraceUserData :: layout where
  "h2c_ChanTraceUserData =
    [(''opcode'', 6), (''chan_id'', NNP_IPC_CHANNEL_BITS), (''key'', 48),
     (''user_data'', 64)]"

definition h2c_ChanIdsMap :: layout where
  "h2c_ChanIdsMap =
    [(''opcode'', 6), (''chan_id'', NNP_IPC_CHANNEL_BITS), (''objType'', 16),
     (''val1'', NNP_IPC_INF_DEVNET_BITS), (''val2'', NNP_IPC_INF_DEVNET_BITS),
     (''user_handle'', 64)]"

section \<open>Sizes\<close>

text \<open>The declared sizes, in 64-bit words, of the \<open>CHECK_MESSAGE_SIZE\<close> lines.\<close>

definition declared_sizes :: "(layout \<times> nat) list" where
  "declared_sizes =
    [(c2h_query_version_reply_msg, 1), (c2h_query_version_reply2_msg, 2),
     (c2h_query_version_reply3_msg, 3), (c2h_event_report, 1), (c2h_sys_info, 1),
     (h2c_query_version_msg, 1), (h2c_setup_crash_dump_msg, 2),
     (h2c_setup_sys_info_page, 1), (h2c_channel_op, 1),
     (h2c_channel_data_ringbuf_op, 1), (h2c_channel_hostres_op, 2), (h2c_p2_pdev, 2),
     (h2c_peer_buf, 1), (h2c_get_cr_fifo, 1), (nnp_bios_ipc_header, 1),
     (h2c_boot_image_ready, 3), (h2c_bios_system_info_req, 3),
     (h2c_ChanRingBufUpdate, 1), (h2c_ChanGenericMessaging, 1),
     (h2c_ChanInferenceContextOp, 1), (h2c_ChanInferenceResourceOp, 2),
     (h2c_ChanMarkInferenceResource, 1), (h2c_ChanInferenceCopyOp, 2),
     (h2c_ChanInferenceSchedCopy, 1), (h2c_ChanInferenceSchedCopyLarge, 2),
     (h2c_ChanInferenceSchedCopySubres, 2), (h2c_ChanInferenceNetworkOp, 2),
     (h2c_ChanInferenceReqOp, 1), (h2c_ChanInferenceReqSchedule, 2), (h2c_ChanSync, 1),
     (h2c_ChanInferenceNetworkSetProperty, 2), (h2c_ChanInferenceCmdListOp, 1),
     (h2c_ExecErrorList, 1), (h2c_ChanEthernetConfig, 2), (h2c_ChanEthernetMsgDscr, 1),
     (c2h_ChanRingBufUpdate, 1), (c2h_ChanGenericMessaging, 1),
     (c2h_ChanServiceListMsg, 1), (c2h_ChanSyncDone, 1), (c2h_ChanInfReqFailed, 2),
     (c2h_ExecErrorList, 1), (c2h_ChanEthernetConfig, 1), (c2h_ChanEthernetMsgDscr, 1),
     (h2c_ChanHwTraceAddResource, 2), (c2h_ChanHwTraceState, 2),
     (h2c_ChanHwTraceState, 1), (h2c_ChanGetCrFIFO, 1), (h2c_ChanConnectPeers, 1),
     (h2c_ChanUpdatePeerDev, 3), (h2c_ChanTraceUserData, 2), (h2c_ChanIdsMap, 2)]"

text \<open>\<open>sizeof\<close> of a packed structure: its bits, rounded up to bytes.\<close>

definition layout_bytes :: "layout \<Rightarrow> nat" where
  "layout_bytes lay = (layout_bits lay + 7) div 8"

definition CHECK_MESSAGE_SIZE :: "layout \<Rightarrow> nat \<Rightarrow> bool" where
  "CHECK_MESSAGE_SIZE lay n_qw \<longleftrightarrow> layout_bytes lay = 8 * n_qw"

section \<open>Opcodes\<close>

definition nnp_chan_h2c_opcode :: "(string \<times> nat \<times> layout) list" where
  "nnp_chan_h2c_opcode =
    [(''CHANNEL_RB_UPDATE'', 32, h2c_ChanRingBufUpdate),
     (''CHAN_GENERIC_MSG_PACKET'', 33, h2c_ChanGenericMessaging),
     (''CHAN_INF_CONTEXT'', 34, h2c_ChanInferenceContextOp),
     (''CHAN_INF_RESOURCE'', 35, h2c_ChanInferenceResourceOp),
     (''CHAN_COPY_OP'', 36, h2c_ChanInferenceCopyOp),
     (''CHAN_SCHEDULE_COPY'', 37, h2c_ChanInferenceSchedCopy),
     (''CHAN_SCHEDULE_COPY_LARGE'', 38, h2c_ChanInferenceSchedCopyLarge),
     (''CHAN_SCHEDULE_COPY_SUBRES'', 39, h2c_ChanInferenceSchedCopySubres),
     (''CHAN_INF_NETWORK'', 40, h2c_ChanInferenceNetworkOp),
     (''CHAN_INF_REQ_OP'', 41, h2c_ChanInferenceReqOp),
     (''CHAN_SCHEDULE_INF_REQ'', 42, h2c_ChanInferenceReqSchedule),
     (''CHAN_SYNC'', 43, h2c_ChanSync),
     (''CHAN_NETWORK_PROPERTY'', 45, h2c_ChanInferenceNetworkSetProperty),
     (''CHAN_INF_CMDLIST'', 46, h2c_ChanInferenceCmdListOp),
     (''CHAN_SCHEDULE_CMDLIST'', 47, h2c_ChanInferenceCmdListOp),
     (''CHAN_HWTRACE_ADD_RESOURCE'', 48, h2c_ChanHwTraceAddResource),
     (''CHAN_HWTRACE_STATE'', 49, h2c_ChanHwTraceState),
     (''CHAN_EXEC_ERROR_LIST'', 50, h2c_ExecErrorList),
     (''CHAN_P2P_GET_CR_FIFO'', 51, h2c_ChanGetCrFIFO),
     (''CHAN_P2P_CONNECT_PEERS'', 52, h2c_ChanConnectPeers),
     (''CHAN_P2P_UPDATE_PEER_DEV'', 53, h2c_ChanUpdatePeerDev),
     (''CHAN_TRACE_USER_DATA'', 54, h2c_ChanTraceUserData),
     (''CHAN_IDS_MAP'', 55, h2c_ChanIdsMap),
     (''CHAN_MARK_INF_RESOURCE'', 56, h2c_ChanMarkInferenceResource),
     (''CHAN_ETH_CONFIG'', 57, h2c_ChanEthernetConfig),
     (''CHAN_ETH_MSG_DSCR'', 58, h2c_ChanEthernetMsgDscr)]"

definition nnp_chan_c2h_opcode :: "(string \<times> nat \<times> layout) list" where
  "nnp_chan_c2h_opcode =
    [(''CHANNEL_RB_UPDATE'', 32, c2h_ChanRingBufUpdate),
     (''CHAN_GENERIC_MSG_PACKET'', 33, c2h_ChanGenericMessaging),
     (''CHAN_SERVICE_LIST'', 34, c2h_ChanServiceListMsg),
     (''CHAN_SYNC_DONE'', 35, c2h_ChanSyncDone),
     (''CHAN_INFREQ_FAILED'', 36, c2h_ChanInfReqFailed),
     (''CHAN_HWTRACE_STATE'', 37, c2h_ChanHwTraceState),
     (''CHAN_EXEC_ERROR_LIST'', 38, c2h_ExecErrorList),
     (''CHAN_ETH_CONFIG'', 39, c2h_ChanEthernetConfig),
     (''CHAN_ETH_MSG_DSCR'', 40, c2h_ChanEthernetMsgDscr)]"

definition nnp_h2c_opcodes :: "(string \<times> nat) list" where
  "nnp_h2c_opcodes =
    [(''QUERY_VERSION'', 0), (''CLOCK_STAMP'', 2), (''SETUP_CRASH_DUMP'', 6),
     (''SETUP_SYS_INFO_PAGE'', 7), (''CHANNEL_OP'', 22), (''CHANNEL_RB_OP'', 23),
     (''CHANNEL_HOSTRES_OP'', 24), (''BIOS_PROTOCOL'', 31)]"

definition nnp_c2h_opcodes :: "(string \<times> nat) list" where
  "nnp_c2h_opcodes =
    [(''QUERY_VERSION_REPLY'', 0), (''QUERY_VERSION_REPLY2'', 1), (''QUERY_VERSION_REPLY3'', 2),
     (''EVENT_REPORT'', 4), (''SYS_INFO'', 11), (''BIOS_PROTOCOL'', 31)]"

text \<open>Every channel message starts with the fields of \<open>h2c_chan_msg_header\<close>.\<close>

definition chan_header_ok :: "layout \<Rightarrow> bool" where
  "chan_header_ok lay \<longleftrightarrow> take 2 lay = [(''opcode'', 6), (''chan_id'', NNP_IPC_CHANNEL_BITS)]"

section \<open>Properties\<close>

lemmas layout_defs = c2h_query_version_reply_msg_def c2h_query_version_reply2_msg_def
  c2h_query_version_reply3_msg_def c2h_event_report_def c2h_sys_info_def
  h2c_query_version_msg_def h2c_setup_crash_dump_msg_def h2c_setup_sys_info_page_def
  h2c_channel_op_def h2c_channel_data_ringbuf_op_def h2c_channel_hostres_op_def
  h2c_p2_pdev_def h2c_peer_buf_def h2c_get_cr_fifo_def nnp_bios_ipc_header_def
  h2c_boot_image_ready_def h2c_bios_system_info_req_def h2c_chan_msg_header_def
  c2h_chan_msg_header_def h2c_ChanRingBufUpdate_def h2c_ChanGenericMessaging_def
  h2c_ChanInferenceContextOp_def h2c_ChanInferenceResourceOp_def
  h2c_ChanMarkInferenceResource_def h2c_ChanInferenceCopyOp_def
  h2c_ChanInferenceSchedCopy_def h2c_ChanInferenceSchedCopyLarge_def
  h2c_ChanInferenceSchedCopySubres_def h2c_ChanInferenceNetworkOp_def
  h2c_ChanInferenceReqOp_def h2c_ChanInferenceReqSchedule_def h2c_ChanSync_def
  h2c_ChanInferenceNetworkSetProperty_def h2c_ChanInferenceCmdListOp_def
  h2c_ExecErrorList_def h2c_ChanEthernetConfig_def h2c_ChanEthernetMsgDscr_def
  c2h_ChanRingBufUpdate_def c2h_ChanGenericMessaging_def c2h_ChanServiceListMsg_def
  c2h_ChanSyncDone_def c2h_ChanInfReqFailed_def c2h_ExecErrorList_def
  c2h_ChanEthernetConfig_def c2h_ChanEthernetMsgDscr_def h2c_ChanHwTraceAddResource_def
  c2h_ChanHwTraceState_def h2c_ChanHwTraceState_def h2c_ChanGetCrFIFO_def
  h2c_ChanConnectPeers_def h2c_ChanUpdatePeerDev_def h2c_ChanTraceUserData_def
  h2c_ChanIdsMap_def

lemma layout_sizes_aux: "list_all (\<lambda>(lay, n). layout_bytes lay = 8 * n) declared_sizes"
  by (simp add: declared_sizes_def layout_bytes_def layout_bits_def layout_defs)

text \<open>every message union has the size its \<open>CHECK_MESSAGE_SIZE\<close> line declares (the check
  the user-mode build compiles out), so that it is sent as that many 64-bit words.\<close>

theorem message_sizes:
  "list_all (\<lambda>(lay, n). CHECK_MESSAGE_SIZE lay n \<and> msg_qwords lay = n) declared_sizes"
proof -
  have "CHECK_MESSAGE_SIZE lay n \<and> msg_qwords lay = n" if "layout_bytes lay = 8 * n" for lay n
    using that by (simp add: CHECK_MESSAGE_SIZE_def layout_bytes_def msg_qwords_def)
  then show ?thesis using layout_sizes_aux by (auto simp: list_all_iff)
qed

text \<open>the channel opcodes are distinct per direction and lie in 32 to 63, the range the
  device protocol leaves free (its own opcodes are below 32), every channel message starts
  with the common header, and a response takes at most three words.\<close>

theorem opcode_tables:
  "distinct (map (fst \<circ> snd) nnp_chan_h2c_opcode) \<and> distinct (map (fst \<circ> snd) nnp_chan_c2h_opcode)
    \<and> list_all (\<lambda>(_, v, lay). 32 \<le> v \<and> v < 64 \<and> chan_header_ok lay) nnp_chan_h2c_opcode
    \<and> list_all (\<lambda>(_, v, lay). 32 \<le> v \<and> v < 64 \<and> chan_header_ok lay \<and> msg_qwords lay \<le> 3)
        nnp_chan_c2h_opcode
    \<and> list_all (\<lambda>(_, v). v < 32) nnp_h2c_opcodes \<and> list_all (\<lambda>(_, v). v < 32) nnp_c2h_opcodes"
  by (simp add: nnp_chan_h2c_opcode_def nnp_chan_c2h_opcode_def nnp_h2c_opcodes_def
      nnp_c2h_opcodes_def chan_header_ok_def msg_qwords_def layout_bits_def layout_defs)

end
