(* ===== verification/Ipc_Messages.thy ===== *)
theory Ipc_Messages
  imports Ipc_Layouts
begin

text \<open>
  The messages the library exchanges with the card, with every field at its width in the
  message, and their encoding into the 64-bit words that cross the channel. Reserved fields
  are zero. A field assignment of the sources is a \<open>ucast\<close> (or \<open>of_nat\<close>) to the field's type
  where a message is built.
\<close>

section \<open>Host to card\<close>

type_synonym chan_id = "10 word"

datatype h2c_msg =
    H2C_RbUpdate chan_id bool u32
  | H2C_InfContext chan_id (ic_destroy: bool) (ic_recover: bool) (ic_cflags: u8)
  | H2C_InfResource chan_id u16 (ir_destroy: bool) (ir_input: bool) (ir_output: bool)
      (ir_network: bool) (ir_force_4G: bool) (ir_ecc: bool) (ir_p2p_dst: bool)
      (ir_p2p_src: bool) (ir_depth: "7 word") (ir_align: u16) (ir_size: u64)
  | H2C_MarkInfResource chan_id u16
  | H2C_CopyOp chan_id (co_res: u16) (co_copy: u16) (co_d2d: bool) (co_c2h: bool)
      (co_destroy: bool) (co_hostres: "45 word") (co_subres: bool) (co_peer_chan: chan_id)
      (co_peer_res: u16) (co_peer_dev: "5 word")
  | H2C_SchedCopy chan_id u16 "30 word" "2 word"
  | H2C_SchedCopyLarge chan_id u16 u8 u64
  | H2C_SchedCopySubres chan_id u16 u16 u16 u64
  | H2C_InfNetwork chan_id (nw_id: u16) (nw_rb: bool) (nw_destroy: bool) (nw_create: bool)
      (nw_num_res: "24 word") (nw_size: u32) (nw_start: "24 word") (nw_chained: bool)
  | H2C_InfReqOp chan_id (ro_net: u16) (ro_req: u16) (ro_size: "12 word") (ro_rb: bool)
      (ro_destroy: bool)
  | H2C_SchedInfReq chan_id u16 u16 u16 u8 bool bool bool
  | H2C_Sync chan_id u16
  | H2C_NetProperty chan_id u16 u32 u32 u32
  | H2C_CmdList (cl_sched: bool) chan_id (cl_id: u16) (cl_destroy: bool) (cl_first: bool)
      (cl_last: bool) (cl_opt_dep: bool) (cl_size: u16)
  | H2C_ExecErrorList chan_id u16 bool bool
  | H2C_GetCrFIFO chan_id u16 "5 word" bool
  | H2C_ConnectPeers chan_id u16 u8 bool "5 word" u8 bool
  | H2C_UpdatePeerDev chan_id u16 "5 word" bool "57 word" "45 word"
  | H2C_TraceUserData chan_id "48 word" u64
  | H2C_IdsMap chan_id u16 u16 u16 u64

text \<open>The layout of a message and the values of its fields, in the order of the layout.\<close>

fun h2c_fields :: "h2c_msg \<Rightarrow> layout \<times> nat list" where
  "h2c_fields (H2C_RbUpdate c rb sz) =
     (h2c_ChanRingBufUpdate, [32, unat c, of_bool rb, 0, unat sz])"
| "h2c_fields (H2C_InfContext c d r fl) =
     (h2c_ChanInferenceContextOp, [34, unat c, 0, of_bool d, of_bool r, unat fl, 0])"
| "h2c_fields (H2C_InfResource c i d inp out net f4g ecc pdst psrc dep al sz) =
     (h2c_ChanInferenceResourceOp,
      [35, unat c, 0, unat i, of_bool d, of_bool inp, of_bool out, of_bool net, of_bool f4g,
       of_bool ecc, of_bool pdst, of_bool psrc, unat dep, unat al, unat sz])"
| "h2c_fields (H2C_MarkInfResource c i) =
     (h2c_ChanMarkInferenceResource, [56, unat c, unat i, 0])"
| "h2c_fields (H2C_CopyOp c r i d2d c2h d hr sub pc pr pd) =
     (h2c_ChanInferenceCopyOp,
      [36, unat c, unat r, unat i, of_bool d2d, of_bool c2h, of_bool d, unat hr, of_bool sub,
       unat pc, unat pr, unat pd])"
| "h2c_fields (H2C_SchedCopy c i sz pr) =
     (h2c_ChanInferenceSchedCopy, [37, unat c, unat i, unat sz, unat pr])"
| "h2c_fields (H2C_SchedCopyLarge c i pr sz) =
     (h2c_ChanInferenceSchedCopyLarge, [38, unat c, unat i, unat pr, 0, unat sz])"
| "h2c_fields (H2C_SchedCopySubres c i hr sz off) =
     (h2c_ChanInferenceSchedCopySubres, [39, unat c, unat i, unat hr, unat sz, unat off])"
| "h2c_fields (H2C_InfNetwork c i rb d cr n sz st ch) =
     (h2c_ChanInferenceNetworkOp,
      [40, unat c, unat i, of_bool rb, of_bool d, of_bool cr, unat n, 0, unat sz, unat st, 0,
       of_bool ch])"
| "h2c_fields (H2C_InfReqOp c n i sz rb d) =
     (h2c_ChanInferenceReqOp,
      [41, unat c, unat n, unat i, unat sz, of_bool rb, of_bool d, 0])"
| "h2c_fields (H2C_SchedInfReq c n i b p dbg ci nul) =
     (h2c_ChanInferenceReqSchedule,
      [42, unat c, unat n, unat i, 0, unat b, unat p, of_bool dbg, of_bool ci, of_bool nul, 0])"
| "h2c_fields (H2C_Sync c sq) = (h2c_ChanSync, [43, unat c, unat sq, 0])"
| "h2c_fields (H2C_NetProperty c n t p v) =
     (h2c_ChanInferenceNetworkSetProperty, [45, unat c, unat n, unat t, unat p, unat v])"
| "h2c_fields (H2C_CmdList sch c i d f l od sz) =
     (h2c_ChanInferenceCmdListOp,
      [if sch then 47 else 46, unat c, unat i, of_bool d, of_bool f, of_bool l, of_bool od,
       unat sz, 0])"
| "h2c_fields (H2C_ExecErrorList c i v cl) =
     (h2c_ExecErrorList, [50, unat c, unat i, of_bool v, of_bool cl, 0])"
| "h2c_fields (H2C_GetCrFIFO c t p f) =
     (h2c_ChanGetCrFIFO, [51, unat c, unat t, unat p, of_bool f, 0])"
| "h2c_fields (H2C_ConnectPeers c t b s pd pb d) =
     (h2c_ChanConnectPeers,
      [52, unat c, unat t, unat b, of_bool s, unat pd, unat pb, of_bool d, 0])"
| "h2c_fields (H2C_UpdatePeerDev c t d p db cr) =
     (h2c_ChanUpdatePeerDev, [53, unat c, unat t, unat d, of_bool p, unat db, unat cr, 0])"
| "h2c_fields (H2C_TraceUserData c k u) = (h2c_ChanTraceUserData, [54, unat c, unat k, unat u])"
| "h2c_fields (H2C_IdsMap c t a b u) =
     (h2c_ChanIdsMap, [55, unat c, unat t, unat a, unat b, unat u])"

definition encode_h2c :: "h2c_msg \<Rightarrow> u64 list" where
  "encode_h2c m = (case h2c_fields m of (lay, vs) \<Rightarrow> encode_fields lay vs)"

text \<open>What the card reads from the words, by the opcode in the common header.\<close>

definition msg_opcode :: "u64 list \<Rightarrow> nat" where
  "msg_opcode ws = decode_fields h2c_chan_msg_header ws ! 0"

definition fld :: "layout \<Rightarrow> u64 list \<Rightarrow> nat \<Rightarrow> 'a::len word" where
  "fld lay ws i = of_nat (decode_fields lay ws ! i)"

definition flg :: "layout \<Rightarrow> u64 list \<Rightarrow> nat \<Rightarrow> bool" where
  "flg lay ws i = (decode_fields lay ws ! i \<noteq> 0)"

definition decode_h2c :: "u64 list \<Rightarrow> h2c_msg option" where
  "decode_h2c ws =
    (let oc = msg_opcode ws
     in if oc = 32 then let l = h2c_ChanRingBufUpdate in
          Some (H2C_RbUpdate (fld l ws 1) (flg l ws 2) (fld l ws 4))
        else if oc = 34 then let l = h2c_ChanInferenceContextOp in
          Some (H2C_InfContext (fld l ws 1) (flg l ws 3) (flg l ws 4) (fld l ws 5))
        else if oc = 35 then let l = h2c_ChanInferenceResourceOp in
          Some (H2C_InfResource (fld l ws 1) (fld l ws 3) (flg l ws 4) (flg l ws 5) (flg l ws 6) (flg l ws 7)
            (flg l ws 8) (flg l ws 9) (flg l ws 10) (flg l ws 11) (fld l ws 12) (fld l ws 13) (fld l ws 14))
        else if oc = 56 then let l = h2c_ChanMarkInferenceResource in
          Some (H2C_MarkInfResource (fld l ws 1) (fld l ws 2))
        else if oc = 36 then let l = h2c_ChanInferenceCopyOp in
          Some (H2C_CopyOp (fld l ws 1) (fld l ws 2) (fld l ws 3) (flg l ws 4) (flg l ws 5)
            (flg l ws 6) (fld l ws 7) (flg l ws 8) (fld l ws 9) (fld l ws 10) (fld l ws 11))
        else if oc = 37 then let l = h2c_ChanInferenceSchedCopy in
          Some (H2C_SchedCopy (fld l ws 1) (fld l ws 2) (fld l ws 3) (fld l ws 4))
        else if oc = 38 then let l = h2c_ChanInferenceSchedCopyLarge in
          Some (H2C_SchedCopyLarge (fld l ws 1) (fld l ws 2) (fld l ws 3)
            (fld l ws 5))
        else if oc = 39 then let l = h2c_ChanInferenceSchedCopySubres in
          Some (H2C_SchedCopySubres (fld l ws 1) (fld l ws 2) (fld l ws 3)
            (fld l ws 4) (fld l ws 5))
        else if oc = 40 then let l = h2c_ChanInferenceNetworkOp in
          Some (H2C_InfNetwork (fld l ws 1) (fld l ws 2) (flg l ws 3) (flg l ws 4) (flg l ws 5)
            (fld l ws 6) (fld l ws 8) (fld l ws 9) (flg l ws 11))
        else if oc = 41 then let l = h2c_ChanInferenceReqOp in
          Some (H2C_InfReqOp (fld l ws 1) (fld l ws 2) (fld l ws 3) (fld l ws 4)
            (flg l ws 5) (flg l ws 6))
        else if oc = 42 then let l = h2c_ChanInferenceReqSchedule in
          Some (H2C_SchedInfReq (fld l ws 1) (fld l ws 2) (fld l ws 3)
            (fld l ws 5) (fld l ws 6) (flg l ws 7) (flg l ws 8) (flg l ws 9))
        else if oc = 43 then let l = h2c_ChanSync in
          Some (H2C_Sync (fld l ws 1) (fld l ws 2))
        else if oc = 45 then let l = h2c_ChanInferenceNetworkSetProperty in
          Some (H2C_NetProperty (fld l ws 1) (fld l ws 2) (fld l ws 3)
            (fld l ws 4) (fld l ws 5))
        else if oc = 46 \<or> oc = 47 then let l = h2c_ChanInferenceCmdListOp in
          Some (H2C_CmdList (oc = 47) (fld l ws 1) (fld l ws 2) (flg l ws 3) (flg l ws 4) (flg l ws 5)
            (flg l ws 6) (fld l ws 7))
        else if oc = 50 then let l = h2c_ExecErrorList in
          Some (H2C_ExecErrorList (fld l ws 1) (fld l ws 2) (flg l ws 3) (flg l ws 4))
        else if oc = 51 then let l = h2c_ChanGetCrFIFO in
          Some (H2C_GetCrFIFO (fld l ws 1) (fld l ws 2) (fld l ws 3) (flg l ws 4))
        else if oc = 52 then let l = h2c_ChanConnectPeers in
          Some (H2C_ConnectPeers (fld l ws 1) (fld l ws 2) (fld l ws 3) (flg l ws 4)
            (fld l ws 5) (fld l ws 6) (flg l ws 7))
        else if oc = 53 then let l = h2c_ChanUpdatePeerDev in
          Some (H2C_UpdatePeerDev (fld l ws 1) (fld l ws 2) (fld l ws 3) (flg l ws 4)
            (fld l ws 5) (fld l ws 6))
        else if oc = 54 then let l = h2c_ChanTraceUserData in
          Some (H2C_TraceUserData (fld l ws 1) (fld l ws 2) (fld l ws 3))
        else if oc = 55 then let l = h2c_ChanIdsMap in
          Some (H2C_IdsMap (fld l ws 1) (fld l ws 2) (fld l ws 3) (fld l ws 4)
            (fld l ws 5))
        else None)"

text \<open>The opcode is read through the header whatever the message type.\<close>

lemma msg_opcode_encode:
  assumes "take 1 (map snd lay) = [6]" and "length vs = length lay" and "vs ! 0 < 64"
  shows "msg_opcode (encode_fields lay vs) = vs ! 0"
proof -
  from assms(1) obtain x rest where lay: "lay = x # rest" "snd x = 6"
    by (cases lay) auto
  have "msg_opcode ws = decode_fields lay ws ! 0" for ws
    by (simp add: lay decode_fields_def msg_opcode_def h2c_chan_msg_header_def)
  then show ?thesis
    using assms lay by (cases vs) (simp_all add: decode_encode_trunc trunc_def)
qed

lemma fld_encode:
  "length vs = length lay \<Longrightarrow> i < length lay \<Longrightarrow>
    fld lay (encode_fields lay vs) i = of_nat (trunc (snd (lay ! i)) (vs ! i))"
  by (simp add: fld_def decode_encode_trunc)

lemma flg_encode:
  "length vs = length lay \<Longrightarrow> i < length lay \<Longrightarrow>
    flg lay (encode_fields lay vs) i = (trunc (snd (lay ! i)) (vs ! i) \<noteq> 0)"
  by (simp add: flg_def decode_encode_trunc)

lemma h2c_fields_ok:
  "h2c_fields m = (lay, vs) \<Longrightarrow>
    take 1 (map snd lay) = [6] \<and> length vs = length lay \<and> vs ! 0 < 64"
  by (cases m) (auto simp: layout_defs)

lemma decode_encode_h2c: "decode_h2c (encode_h2c m) = Some m"
proof -
  obtain lay vs where m: "h2c_fields m = (lay, vs)" by fastforce
  have oc: "msg_opcode (encode_fields lay vs) = vs ! 0"
    using h2c_fields_ok [OF m] by (intro msg_opcode_encode) auto
  show ?thesis
    using m oc
    by (cases m) (auto simp: encode_h2c_def decode_h2c_def fld_encode flg_encode trunc_simps
        layout_defs)
qed


section \<open>Card to host\<close>

text \<open>\<open>union c2h_event_report\<close>; \<open>None\<close> stands for a report whose \<open>value\<close> is 0.\<close>

record event_report =
  event_code :: "7 word"
  context_id :: u8
  obj_id :: u16
  obj_id_2 :: u16
  event_val :: u8
  ctx_valid :: bool
  obj_valid :: bool
  obj_valid_2 :: bool

datatype c2h_msg =
    C2H_RbUpdate chan_id bool u32
  | C2H_SyncDone chan_id u16
  | C2H_InfReqFailed chan_id (rf_net: u16) (rf_req: u16) (rf_cmd: u16) (rf_reason: u16)
      (rf_cmd_valid: bool)
  | C2H_ExecErrorList chan_id (el_cmd: u16) (el_cmd_valid: bool) (el_clear: "2 word")
      (el_pkt_size: "12 word") (el_total: u16) (el_error: bool)
  | C2H_Event event_report

fun c2h_fields :: "c2h_msg \<Rightarrow> layout \<times> nat list" where
  "c2h_fields (C2H_RbUpdate c rb sz) =
     (c2h_ChanRingBufUpdate, [32, unat c, of_bool rb, 0, unat sz])"
| "c2h_fields (C2H_SyncDone c sq) = (c2h_ChanSyncDone, [35, unat c, unat sq, 0])"
| "c2h_fields (C2H_InfReqFailed c n i k r v) =
     (c2h_ChanInfReqFailed, [36, unat c, unat n, unat i, unat k, unat r, of_bool v, 0])"
| "c2h_fields (C2H_ExecErrorList c i v cl ps ts er) =
     (c2h_ExecErrorList,
      [38, unat c, unat i, of_bool v, unat cl, unat ps, unat ts, of_bool er])"
| "c2h_fields (C2H_Event e) =
     (c2h_event_report,
      [4, unat (event_code e), unat (context_id e), unat (obj_id e), unat (obj_id_2 e),
       unat (event_val e), of_bool (ctx_valid e), of_bool (obj_valid e), of_bool (obj_valid_2 e)])"

definition encode_c2h :: "c2h_msg \<Rightarrow> u64 list" where
  "encode_c2h m = (case c2h_fields m of (lay, vs) \<Rightarrow> encode_fields lay vs)"

text \<open>
  How the library reads a response: by the opcode of the common header, the words are read
  as the union of that opcode. \<open>None\<close> is an opcode the library has no handler for.
\<close>

definition decode_event :: "u64 list \<Rightarrow> event_report" where
  "decode_event ws =
    (let l = c2h_event_report
     in \<lparr>event_code = fld l ws 1, context_id = fld l ws 2, obj_id = fld l ws 3,
         obj_id_2 = fld l ws 4, event_val = fld l ws 5, ctx_valid = flg l ws 6,
         obj_valid = flg l ws 7, obj_valid_2 = flg l ws 8\<rparr>)"

definition decode_c2h :: "u64 list \<Rightarrow> c2h_msg option" where
  "decode_c2h ws =
    (let oc = msg_opcode ws
     in if oc = 32 then let l = c2h_ChanRingBufUpdate in
          Some (C2H_RbUpdate (fld l ws 1) (flg l ws 2) (fld l ws 4))
        else if oc = 35 then let l = c2h_ChanSyncDone in
          Some (C2H_SyncDone (fld l ws 1) (fld l ws 2))
        else if oc = 36 then let l = c2h_ChanInfReqFailed in
          Some (C2H_InfReqFailed (fld l ws 1) (fld l ws 2) (fld l ws 3) (fld l ws 4) (fld l ws 5)
            (flg l ws 6))
        else if oc = 38 then let l = c2h_ExecErrorList in
          Some (C2H_ExecErrorList (fld l ws 1) (fld l ws 2) (flg l ws 3) (fld l ws 4) (fld l ws 5)
            (fld l ws 6) (flg l ws 7))
        else if oc = 4 then Some (C2H_Event (decode_event ws))
        else None)"

lemma c2h_fields_ok:
  "c2h_fields m = (lay, vs) \<Longrightarrow>
    take 1 (map snd lay) = [6] \<and> length vs = length lay \<and> vs ! 0 < 64"
  by (cases m) (auto simp: layout_defs)

lemma decode_encode_c2h: "decode_c2h (encode_c2h m) = Some m"
proof -
  obtain lay vs where m: "c2h_fields m = (lay, vs)" by fastforce
  have oc: "msg_opcode (encode_fields lay vs) = vs ! 0"
    using c2h_fields_ok [OF m] by (intro msg_opcode_encode) auto
  show ?thesis
    using m oc
    by (cases m) (auto simp: encode_c2h_def decode_c2h_def decode_event_def fld_encode flg_encode
        trunc_simps layout_defs)
qed

section \<open>Properties\<close>


text \<open>C28: every response of the card is read by the library as the message that was sent.\<close>

theorem c2h_roundtrip:
  "decode_c2h (encode_c2h m) = Some m \<and> length (encode_c2h m) \<le> 3"
proof -
  have "msg_qwords (fst (c2h_fields m)) \<le> 3"
    by (cases m) (simp_all add: msg_qwords_def layout_bits_def layout_defs)
  then show ?thesis
    using decode_encode_c2h [of m] by (simp add: encode_c2h_def case_prod_unfold)
qed

end
