(* ===== verification/Reply_Map.thy ===== *)
theory Reply_Map
  imports Ipc_Messages Nnp_Types
begin

text \<open>
  The table in which the response thread leaves the card's answers to create requests, and the
  requesting threads look for theirs: \<open>InfContextObjID\<close> (\<open>nnpiInfContext.h\<close>) and the
  \<open>std::map\<close> it keys. An id of -1 means "any" in the comparisons, so the lookup goes by
  equivalence under \<open>operator<\<close>, which the operations below follow as \<open>std::map\<close> does.
\<close>

section \<open>Object ids\<close>

datatype InfContextObjType =
    INF_OBJ_TYPE_CONTEXT | INF_OBJ_TYPE_DEVRES | INF_OBJ_TYPE_COPY | INF_OBJ_TYPE_DEVNET
  | INF_OBJ_TYPE_INFREQ | INF_OBJ_TYPE_CMD | INF_OBJ_TYPE_P2P | INF_OBJ_TYPE_INVALID_OBJ_TYPE

primrec obj_type_val :: "InfContextObjType \<Rightarrow> nat" where
  "obj_type_val INF_OBJ_TYPE_CONTEXT = 0"
| "obj_type_val INF_OBJ_TYPE_DEVRES = 1"
| "obj_type_val INF_OBJ_TYPE_COPY = 2"
| "obj_type_val INF_OBJ_TYPE_DEVNET = 3"
| "obj_type_val INF_OBJ_TYPE_INFREQ = 4"
| "obj_type_val INF_OBJ_TYPE_CMD = 5"
| "obj_type_val INF_OBJ_TYPE_P2P = 6"
| "obj_type_val INF_OBJ_TYPE_INVALID_OBJ_TYPE = 99"

record obj_key =
  key_type :: InfContextObjType
  key_id :: int
  key_id2 :: int

definition obj_less :: "obj_key \<Rightarrow> obj_key \<Rightarrow> bool" where
  "obj_less l r =
     (if key_type l \<noteq> key_type r then obj_type_val (key_type l) < obj_type_val (key_type r)
      else if key_id l \<noteq> -1 \<and> key_id r \<noteq> -1 \<and> key_id l \<noteq> key_id r then key_id l < key_id r
      else if key_id2 l \<noteq> -1 \<and> key_id2 r \<noteq> -1 then key_id2 l < key_id2 r
      else False)"

definition obj_eq :: "obj_key \<Rightarrow> obj_key \<Rightarrow> bool" where
  "obj_eq l r \<longleftrightarrow> key_type l = key_type r
     \<and> (key_id l = -1 \<or> key_id r = -1 \<or> key_id l = key_id r)
     \<and> (key_id2 l = -1 \<or> key_id2 r = -1 \<or> key_id2 l = key_id2 r)"

text \<open>A report with all bits clear.\<close>

definition zero_report :: event_report where
  "zero_report = \<lparr>event_code = 0, context_id = 0, obj_id = 0, obj_id_2 = 0, event_val = 0,
                  ctx_valid = False, obj_valid = False, obj_valid_2 = False\<rparr>"

section \<open>The map\<close>

type_synonym reply_map = "(obj_key \<times> event_report) list"

fun reply_find :: "obj_key \<Rightarrow> reply_map \<Rightarrow> event_report option" where
  "reply_find k [] = None"
| "reply_find k ((k', v) # m) =
     (if obj_less k' k then reply_find k m else if obj_less k k' then None else Some v)"

fun reply_put :: "obj_key \<Rightarrow> event_report \<Rightarrow> reply_map \<Rightarrow> reply_map" where
  "reply_put k v [] = [(k, v)]"
| "reply_put k v ((k', v') # m) =
     (if obj_less k' k then (k', v') # reply_put k v m
      else if obj_less k k' then (k, v) # (k', v') # m else (k', v) # m)"

fun reply_erase :: "obj_key \<Rightarrow> reply_map \<Rightarrow> reply_map" where
  "reply_erase k [] = []"
| "reply_erase k ((k', v') # m) =
     (if obj_less k' k then (k', v') # reply_erase k m
      else if obj_less k k' then (k', v') # m else reply_erase k m)"

section \<open>Which replies belong to whom\<close>

text \<open>The \<open>switch\<close> of \<open>process_create_reply\<close>.\<close>

definition reply_type :: "7 word \<Rightarrow> InfContextObjType option" where
  "reply_type c =
     (if c \<in> {NNP_IPC_CREATE_CONTEXT_SUCCESS, NNP_IPC_CREATE_CONTEXT_FAILED,
              NNP_IPC_RECOVER_CONTEXT_SUCCESS, NNP_IPC_RECOVER_CONTEXT_FAILED}
      then Some INF_OBJ_TYPE_CONTEXT
      else if c \<in> {NNP_IPC_CREATE_DEVRES_SUCCESS, NNP_IPC_CREATE_DEVRES_FAILED}
      then Some INF_OBJ_TYPE_DEVRES
      else if c \<in> {NNP_IPC_CREATE_COPY_SUCCESS, NNP_IPC_CREATE_COPY_FAILED}
      then Some INF_OBJ_TYPE_COPY
      else if c \<in> {NNP_IPC_CREATE_DEVNET_SUCCESS, NNP_IPC_CREATE_DEVNET_FAILED,
                   NNP_IPC_DEVNET_ADD_RES_SUCCESS, NNP_IPC_DEVNET_ADD_RES_FAILED,
                   NNP_IPC_DEVNET_RESOURCES_RESERVATION_SUCCESS,
                   NNP_IPC_DEVNET_RESOURCES_RELEASE_SUCCESS,
                   NNP_IPC_DEVNET_RESOURCES_RESERVATION_FAILED,
                   NNP_IPC_DEVNET_RESOURCES_RELEASE_FAILED,
                   NNP_IPC_DEVNET_SET_PROPERTY_SUCCESS, NNP_IPC_DEVNET_SET_PROPERTY_FAILED}
      then Some INF_OBJ_TYPE_DEVNET
      else if c \<in> {NNP_IPC_CREATE_INFREQ_SUCCESS, NNP_IPC_CREATE_INFREQ_FAILED}
      then Some INF_OBJ_TYPE_INFREQ
      else if c \<in> {NNP_IPC_CREATE_CMD_SUCCESS, NNP_IPC_CREATE_CMD_FAILED}
      then Some INF_OBJ_TYPE_CMD
      else if c \<in> {NNP_IPC_GET_CR_FIFO_REPLY, NNP_IPC_P2P_PEERS_CONNECTED,
                   NNP_IPC_P2P_PEER_DEV_UPDATED}
      then Some INF_OBJ_TYPE_P2P
      else None)"

definition reply_key :: "InfContextObjType \<Rightarrow> event_report \<Rightarrow> obj_key" where
  "reply_key t ev =
     \<lparr>key_type = t, key_id = (if obj_valid ev then uint (obj_id ev) else -1),
      key_id2 = (if obj_valid_2 ev then uint (obj_id_2 ev) else -1)\<rparr>"

abbreviation obj_id_of :: "InfContextObjType \<Rightarrow> u16 \<Rightarrow> obj_key" where
  "obj_id_of t i \<equiv> \<lparr>key_type = t, key_id = uint i, key_id2 = -1\<rparr>"

section \<open>Well-formed tables\<close>

text \<open>The keys of the answers: a context has no ids, every other object has its first one.\<close>

definition key_ok :: "obj_key \<Rightarrow> bool" where
  "key_ok k \<longleftrightarrow> (if key_type k = INF_OBJ_TYPE_CONTEXT then key_id k = -1 \<and> key_id2 k = -1
                       else key_id k \<noteq> -1)"

definition reply_ok :: "reply_map \<Rightarrow> bool" where
  "reply_ok m \<longleftrightarrow> sorted_wrt obj_less (map fst m) \<and> list_all key_ok (map fst m)"

lemma obj_type_val_inject: "obj_type_val t = obj_type_val u \<longleftrightarrow> t = u"
  by (cases t; cases u; simp)

lemma obj_less_cases:
  assumes "key_ok k" and "key_ok l"
  shows "obj_less k l \<longleftrightarrow>
    obj_type_val (key_type k) < obj_type_val (key_type l)
    \<or> key_type k = key_type l \<and> (key_id k < key_id l
        \<or> key_id k = key_id l \<and> key_id2 k \<noteq> -1 \<and> key_id2 l \<noteq> -1 \<and> key_id2 k < key_id2 l)"
  using assms obj_type_val_inject [of "key_type k" "key_type l"]
  by (auto simp: obj_less_def key_ok_def split: if_splits)

lemma obj_less_trans:
  "key_ok k \<Longrightarrow> key_ok l \<Longrightarrow> key_ok n \<Longrightarrow> obj_less k l \<Longrightarrow> obj_less l n \<Longrightarrow> obj_less k n"
  by (simp add: obj_less_cases) (elim disjE conjE; simp)

lemma obj_less_irrefl [simp]: "\<not> obj_less k k"
  by (simp add: obj_less_def)

lemma obj_less_asym: "obj_less k l \<Longrightarrow> \<not> obj_less l k"
  by (auto simp: obj_less_def split: if_splits)

lemma reply_ok_Cons:
  "reply_ok ((k, v) # m) \<longleftrightarrow> key_ok k \<and> (\<forall>l \<in> fst ` set m. obj_less k l) \<and> reply_ok m"
  by (auto simp: reply_ok_def)

lemma reply_ok_Nil [simp]: "reply_ok []"
  by (simp add: reply_ok_def)

lemma reply_ok_key: "reply_ok m \<Longrightarrow> (k, v) \<in> set m \<Longrightarrow> key_ok k"
  by (force simp: reply_ok_def list_all_iff)

lemma keys_reply_put: "fst ` set (reply_put k v m) \<subseteq> insert k (fst ` set m)"
  by (induction k v m rule: reply_put.induct) auto

lemma keys_reply_erase: "fst ` set (reply_erase k m) \<subseteq> fst ` set m"
  by (induction k m rule: reply_erase.induct) auto

lemma reply_ok_put [nnp_inv]: "key_ok k \<Longrightarrow> reply_ok m \<Longrightarrow> reply_ok (reply_put k v m)"
proof (induction k v m rule: reply_put.induct)
  case (2 k v k' v' m)
  then show ?case
    using keys_reply_put [of k v m] obj_less_trans [of k k']
    by (fastforce simp: reply_ok_Cons dest: reply_ok_key)
qed (simp add: reply_ok_Cons)

lemma reply_ok_erase [nnp_inv]: "reply_ok m \<Longrightarrow> reply_ok (reply_erase k m)"
proof (induction k m rule: reply_erase.induct)
  case (2 k k' v' m)
  then have ok: "key_ok k'" "\<forall>l \<in> fst ` set m. obj_less k' l" "reply_ok m"
    by (simp_all add: reply_ok_Cons)
  then have "\<forall>l \<in> fst ` set (reply_erase k m). obj_less k' l"
    using keys_reply_erase [of k m] by blast
  then show ?case
    using 2 ok by (cases "obj_less k' k"; cases "obj_less k k'") (simp_all add: reply_ok_Cons)
qed simp

text \<open>A request names its object by type and first id; every answer about it is equivalent.\<close>

definition about :: "InfContextObjType \<Rightarrow> int \<Rightarrow> obj_key \<Rightarrow> bool" where
  "about t i k \<longleftrightarrow> key_type k = t \<and> key_id k = i"

abbreviation request_key :: "InfContextObjType \<Rightarrow> int \<Rightarrow> obj_key" where
  "request_key t i \<equiv> \<lparr>key_type = t, key_id = i, key_id2 = -1\<rparr>"

lemma request_ok [simp]: "t \<noteq> INF_OBJ_TYPE_CONTEXT \<Longrightarrow> i \<noteq> -1 \<Longrightarrow> key_ok (request_key t i)"
  by (simp add: key_ok_def)

lemma request_equiv:
  assumes "t \<noteq> INF_OBJ_TYPE_CONTEXT" and "i \<noteq> -1" and "key_ok k"
  shows "about t i k \<longleftrightarrow> \<not> obj_less k (request_key t i) \<and> \<not> obj_less (request_key t i) k"
  using assms(3) request_ok [OF assms(1,2)] obj_type_val_inject [of "key_type k" t]
  by (auto simp: obj_less_cases about_def)

lemma reply_find_request:
  assumes "reply_ok m" and "t \<noteq> INF_OBJ_TYPE_CONTEXT" and "i \<noteq> -1"
  shows "reply_find (request_key t i) m = map_option snd (find (\<lambda>(k, _). about t i k) m)"
  using assms(1)
proof (induction m)
  case (Cons e m)
  obtain k v where e: "e = (k, v)" by fastforce
  let ?r = "request_key t i"
  have ok: "key_ok k" "reply_ok m" using Cons.prems by (simp_all add: e reply_ok_Cons)
  have later: "\<not> about t i l" if "obj_less ?r k" "l \<in> fst ` set m" for l
  proof -
    have "key_ok l" "obj_less k l"
      using that(2) Cons.prems reply_ok_key [OF ok(2)] by (auto simp: e reply_ok_Cons)
    then show ?thesis
      using that(1) obj_less_trans [of ?r k l] ok(1) assms request_equiv [of t i l] by simp
  qed
  show ?case
  proof (cases "obj_less ?r k")
    case True
    then have "find (\<lambda>(k, _). about t i k) m = None"
      using later by (force simp: find_None_iff)
    moreover have "\<not> about t i k" using True request_equiv [OF assms(2,3) ok(1)] by simp
    ultimately show ?thesis using True by (simp add: e obj_less_asym)
  next
    case False
    then show ?thesis
      using request_equiv [OF assms(2,3) ok(1)] Cons.IH [OF ok(2)] by (simp add: e)
  qed
qed simp

lemma equiv_about:
  "key_ok k \<Longrightarrow> key_ok l \<Longrightarrow> \<not> obj_less k l \<Longrightarrow> \<not> obj_less l k \<Longrightarrow> about t i k = about t i l"
  using obj_type_val_inject [of "key_type k" "key_type l"] by (auto simp: obj_less_cases about_def)

lemma find_put_other:
  "reply_ok m \<Longrightarrow> key_ok k \<Longrightarrow> \<not> about t i k \<Longrightarrow>
    find (\<lambda>(k, _). about t i k) (reply_put k v m) = find (\<lambda>(k, _). about t i k) m"
proof (induction k v m rule: reply_put.induct)
  case (2 k v k' v' m)
  then have ok: "key_ok k'" "reply_ok m" by (simp_all add: reply_ok_Cons)
  show ?case
    using 2 ok equiv_about [OF ok(1) 2(3), of t i]
    by (cases "obj_less k' k"; cases "obj_less k k'") simp_all
qed simp

lemma find_put_same:
  "reply_ok m \<Longrightarrow> key_ok k \<Longrightarrow> about t i k \<Longrightarrow> find (\<lambda>(k, _). about t i k) m = None \<Longrightarrow>
    map_option snd (find (\<lambda>(k, _). about t i k) (reply_put k v m)) = Some v"
proof (induction k v m rule: reply_put.induct)
  case (2 k v k' v' m)
  then have ok: "key_ok k'" "reply_ok m" "\<not> about t i k'"
    by (simp_all add: reply_ok_Cons split: if_splits)
  show ?case
    using 2 ok equiv_about [OF ok(1) 2(3), of t i]
    by (cases "obj_less k' k"; cases "obj_less k k'") simp_all
qed simp

lemma find_erase:
  assumes "t \<noteq> INF_OBJ_TYPE_CONTEXT" and "i \<noteq> -1" and "reply_ok m"
  shows "find (\<lambda>(k, _). about t' i' k) (reply_erase (request_key t i) m)
    = (if t' = t \<and> i' = i then None else find (\<lambda>(k, _). about t' i' k) m)"
  using assms(3)
proof (induction m)
  case (Cons e m)
  obtain k v where e: "e = (k, v)" by fastforce
  let ?r = "request_key t i"
  have ok: "key_ok k" "reply_ok m" using Cons.prems by (simp_all add: e reply_ok_Cons)
  have k: "about t i k \<longleftrightarrow> \<not> obj_less k ?r \<and> \<not> obj_less ?r k"
    by (rule request_equiv [OF assms(1,2) ok(1)])
  show ?case
  proof (cases "obj_less ?r k")
    case True
    have "\<not> about t i l" if "l \<in> fst ` set m" for l
    proof -
      have "key_ok l" "obj_less k l"
        using that Cons.prems reply_ok_key [OF ok(2)] by (auto simp: e reply_ok_Cons)
      then show ?thesis
        using True obj_less_trans [of ?r k l] ok(1) assms request_equiv [of t i l] by simp
    qed
    then have "find (\<lambda>(k, _). about t i k) (e # m) = None"
      using True k by (force simp: e find_None_iff)
    then show ?thesis using True by (auto simp: e obj_less_asym)
  next
    case False
    then show ?thesis
      using k Cons.IH [OF ok(2)] by (auto simp: e about_def)
  qed
qed simp

section \<open>Properties\<close>



end
