(* ===== verification/Sync_Point.thy ===== *)
theory Sync_Point
  imports Nnp_Prelude
begin

text \<open>
  \<open>SyncPoint\<close> (\<open>nnpiInfContext.h\<close>): the position of a context in the stream of markers. The
  card only echoes 16 bits; the extra \<open>m_wrap\<close> bit tells a number from the one 65536 markers
  earlier. The specification is the number of markers counted without bound.
\<close>

section \<open>Operations\<close>

record sync_point =
  m_val :: u16
  m_wrap :: bool

definition sync_new :: sync_point where
  "sync_new = \<lparr>m_val = 0, m_wrap = False\<rparr>"

definition of_marker :: "u32 \<Rightarrow> sync_point" where
  "of_marker marker = \<lparr>m_val = ucast (and marker 0xffff), m_wrap = (and marker 0x10000 \<noteq> 0)\<rparr>"

definition getMarker :: "sync_point \<Rightarrow> u32" where
  "getMarker p = (if m_wrap p then or (ucast (m_val p)) 0x10000 else ucast (m_val p))"

definition sync_inc :: "sync_point \<Rightarrow> u16 \<times> sync_point" where
  "sync_inc p =
     (let v = m_val p + 1
      in (v, p\<lparr>m_val := v, m_wrap := (if v = 0 then \<not> m_wrap p else m_wrap p)\<rparr>))"

definition sync_set :: "u16 \<Rightarrow> sync_point \<Rightarrow> sync_point" where
  "sync_set v p = p\<lparr>m_wrap := (if v < m_val p then \<not> m_wrap p else m_wrap p), m_val := v\<rparr>"

definition sync_less :: "sync_point \<Rightarrow> sync_point \<Rightarrow> bool" where
  "sync_less p q = (if m_wrap p = m_wrap q then m_val p < m_val q else m_val p > m_val q)"

definition sync_geq :: "sync_point \<Rightarrow> sync_point \<Rightarrow> bool" where
  "sync_geq p q \<longleftrightarrow> \<not> sync_less p q"

section \<open>The unbounded count behind a sync point\<close>

definition sync_at :: "nat \<Rightarrow> sync_point" where
  "sync_at n = \<lparr>m_val = of_nat n, m_wrap = odd (n div 65536)\<rparr>"

lemma sync_at_0 [simp]: "sync_at 0 = sync_new"
  by (simp add: sync_at_def sync_new_def)

lemma unat_sync_val [simp]: "unat (m_val (sync_at n)) = n mod 65536"
  by (simp add: sync_at_def unat_of_nat take_bit_eq_mod)

lemma sync_wrap [simp]: "m_wrap (sync_at n) = odd (n div 65536)"
  by (simp add: sync_at_def)

lemma sync_point_eqI:
  "unat (m_val p) = unat (m_val q) \<Longrightarrow> m_wrap p = m_wrap q \<Longrightarrow> p = (q :: sync_point)"
  by (cases p; cases q) (simp add: word_unat_eq_iff)

lemma sync_inc_at: "sync_inc (sync_at n) = (of_nat (Suc n), sync_at (Suc n))"
proof -
  have val: "m_val (sync_at n) + 1 = (of_nat (Suc n) :: u16)"
    by (simp add: sync_at_def add.commute)
  have "(of_nat (Suc n) :: u16) = 0 \<longleftrightarrow> Suc n mod 65536 = 0"
    by (simp only: word_unat_eq_iff unat_of_nat take_bit_eq_mod unat_0) simp
  moreover have "Suc n div 65536 = (if Suc n mod 65536 = 0 then Suc (n div 65536) else n div 65536)"
    by (simp add: div_Suc)
  ultimately show ?thesis
    unfolding sync_inc_def val Let_def by (simp add: sync_at_def)
qed

text \<open>Numbers less than 65536 apart: the same epoch, or adjacent ones with opposite values.\<close>

lemma epoch_cases:
  assumes "(a :: nat) \<le> b" and "b < a + k" and "0 < k"
  shows "b div k = a div k \<and> a mod k \<le> b mod k \<or> b div k = Suc (a div k) \<and> b mod k < a mod k"
proof -
  have ab: "a = k * (a div k) + a mod k" "b = k * (b div k) + b mod k" by simp_all
  have r: "a mod k < k" "b mod k < k" using assms(3) by simp_all
  have lo: "a div k \<le> b div k" using assms(1) by (rule div_le_mono)
  have "b div k \<le> (a + k) div k" using assms(2) by (intro div_le_mono) simp
  then have hi: "b div k \<le> Suc (a div k)" using div_add_self2 [of k a] assms(3) by simp
  show ?thesis
  proof (cases "b div k = a div k")
    case True
    then show ?thesis using assms(1) ab by (metis add_le_cancel_left)
  next
    case False
    then have s: "b div k = Suc (a div k)" using lo hi by simp
    then have "b = k * (a div k) + k + b mod k" using ab(2) by (simp add: algebra_simps)
    then have "b mod k < a mod k" using assms(2) ab(1) by linarith
    then show ?thesis using s by simp
  qed
qed

lemma sync_less_at:
  assumes "a < b + 65536" and "b < a + 65536"
  shows "sync_less (sync_at a) (sync_at b) \<longleftrightarrow> a < b"
proof -
  have mono: "x \<le> y \<Longrightarrow> x div 65536 = y div 65536 \<Longrightarrow> x mod 65536 < y mod 65536 \<longleftrightarrow> x < y" for x y :: nat
    by (metis div_mult_mod_eq le_neq_implies_less less_irrefl_nat nat_add_left_cancel_less)
  have less: "sync_less (sync_at a) (sync_at b) \<longleftrightarrow>
      (if odd (a div 65536) = odd (b div 65536) then a mod 65536 < b mod 65536
       else b mod 65536 < a mod 65536)"
    by (simp add: sync_less_def word_less_nat_alt)
  show ?thesis
  proof (cases "a \<le> b")
    case True
    from epoch_cases [OF True assms(2) zero_less_numeral] show ?thesis
    proof (elim disjE conjE)
      assume "b div 65536 = a div 65536"
      with mono [OF True] show ?thesis by (simp add: less)
    next
      assume s: "b div 65536 = Suc (a div 65536)" "b mod 65536 < a mod 65536"
      then have "a \<noteq> b" by auto
      with s True show ?thesis by (simp add: less)
    qed
  next
    case False
    then have ba: "b \<le> a" "\<not> a < b" by simp_all
    from epoch_cases [OF ba(1) assms(1) zero_less_numeral] show ?thesis
    proof (elim disjE conjE)
      assume "a div 65536 = b div 65536" "b mod 65536 \<le> a mod 65536"
      with ba show ?thesis by (simp add: less)
    next
      assume "a div 65536 = Suc (b div 65536)" "a mod 65536 < b mod 65536"
      with ba show ?thesis by (simp add: less)
    qed
  qed
qed

lemma sync_set_at:
  assumes "a \<le> b" and "b < a + 65536"
  shows "sync_set (of_nat b) (sync_at a) = sync_at b"
proof -
  have "(of_nat b :: u16) < m_val (sync_at a) \<longleftrightarrow> b mod 65536 < a mod 65536"
    by (simp add: word_less_nat_alt unat_of_nat take_bit_eq_mod)
  then show ?thesis
    using epoch_cases [OF assms zero_less_numeral] by (intro sync_point_eqI) (auto simp: sync_set_def unat_of_nat take_bit_eq_mod)
qed

lemma bit_wrap_flag: "bit (0x10000 :: u32) k \<longleftrightarrow> k = 16"
proof -
  have "(0x10000 :: u32) = 2 ^ 16" by simp
  then show ?thesis by (simp only: bit_exp_iff) auto
qed

lemma unat_getMarker: "unat (getMarker (sync_at n)) = n mod 131072"
proof -
  have w: "n mod 131072 = 65536 * (n div 65536 mod 2) + n mod 65536"
    using mod_mult2_eq [of n 65536 2] by simp
  have "getMarker (sync_at n) = ucast (m_val (sync_at n)) + (if odd (n div 65536) then 0x10000 else 0)"
  proof -
    have "and (ucast (m_val (sync_at n)) :: u32) 0x10000 = 0"
    proof (rule bit_word_eqI)
      fix k assume "k < LENGTH(32)"
      have "\<not> bit (ucast (m_val (sync_at n)) :: u32) 16"
        by (auto simp: bit_simps dest: bit_imp_le_length)
      then show "bit (and (ucast (m_val (sync_at n)) :: u32) 0x10000) k = bit (0 :: u32) k"
        by (simp only: bit_and_iff bit_wrap_flag bit_0_eq bot_fun_def) auto
    qed
    then have "or (ucast (m_val (sync_at n)) :: u32) 0x10000 = ucast (m_val (sync_at n)) + 0x10000"
      by (simp add: disjunctive_add_eq_or)
    then show ?thesis by (simp add: getMarker_def)
  qed
  moreover have "unat (ucast (m_val (sync_at n)) :: u32) = n mod 65536"
    by (simp add: unat_ucast_id order.strict_trans [OF unat_lt])
  ultimately show ?thesis
    using w by (auto simp: unat_word_ariths odd_iff_mod_2_eq_one)
qed

lemma of_marker_getMarker:
  "of_marker (getMarker p) = p \<and> unat (getMarker p) < 2 ^ 17"
proof -
  obtain n where p: "p = sync_at n"
  proof
    let ?n = "unat (m_val p) + (if m_wrap p then 65536 else 0)"
    have "unat (m_val p) < 65536" using unat_lt [of "m_val p"] by simp
    moreover from this have "(unat (m_val p) + 65536) div 65536 = 1"
      using div_add_self2 [of 65536 "unat (m_val p)"] by simp
    ultimately show "p = sync_at ?n" by (intro sync_point_eqI) auto
  qed
  let ?k = "getMarker p"
  have k: "unat ?k = n mod 131072" by (simp add: p unat_getMarker)
  have "of_marker ?k = p"
  proof (rule sync_point_eqI)
    have low: "and ?k 0xffff = take_bit 16 ?k"
      by (simp add: take_bit_eq_mask mask_eq_exp_minus_1)
    have "unat (take_bit 16 ?k) = unat ?k mod 65536"
      by (simp only: unsigned_take_bit_eq) (simp add: take_bit_eq_mod)
    then have "unat (m_val (of_marker ?k)) = unat ?k mod 65536"
      by (simp only: of_marker_def low sync_point.simps unat_ucast_mod) simp
    also have "\<dots> = n mod 65536" using mod_mod_cancel [of 65536 131072 n] by (simp add: k)
    finally show "unat (m_val (of_marker ?k)) = unat (m_val p)" by (simp add: p)
    have "m_wrap (of_marker ?k) = bit ?k 16"
    proof -
      have "and ?k 0x10000 = (if bit ?k 16 then 0x10000 else 0)"
      proof (rule bit_word_eqI)
        fix j assume "j < LENGTH(32)"
        show "bit (and ?k 0x10000) j = bit (if bit ?k 16 then 0x10000 else 0 :: u32) j"
          by (cases "bit ?k 16")
            (simp_all only: bit_and_iff bit_wrap_flag if_True if_False bit_0_eq bot_fun_def, auto)
      qed
      then show ?thesis by (simp add: of_marker_def)
    qed
    also have "\<dots> = odd (unat ?k div 65536)"
      using bit_iff_odd [of "unat ?k" 16] by (simp add: bit_unsigned_iff possible_bit_def)
    also have "\<dots> = odd (n div 65536)"
    proof -
      have "n mod 131072 div 65536 = n div 65536 mod 2" using mod_mult2_eq [of n 65536 2] by simp
      then show ?thesis by (simp add: k)
    qed
    finally show "m_wrap (of_marker ?k) = m_wrap p" by (simp add: p)
  qed
  then show ?thesis by (simp add: k)
qed

section \<open>Properties\<close>

text \<open>C23: markers are counted right although only 16 bits of their number cross the channel.
  The card has completed \<open>a\<close> markers, the library has issued \<open>b\<close>, and the card reports \<open>c\<close>:
  the marker given to the user is the 17-bit number of \<open>b\<close>, it is read back as the same sync
  point, and the recorded completion covers it exactly when \<open>b \<le> c\<close>, as long as fewer than
  65536 markers lie between the numbers. At distance 65536 a marker is taken for completed.\<close>

theorem marker_order:
  assumes "a \<le> c" and "c < a + 65536" and "Suc b < c + 65536" and "c < Suc b + 65536"
  shows "snd (sync_inc (sync_at b)) = sync_at (Suc b)
    \<and> unat (getMarker (sync_at (Suc b))) = Suc b mod 2 ^ 17
    \<and> (sync_geq (sync_set (of_nat c) (sync_at a)) (of_marker (getMarker (sync_at (Suc b))))
        \<longleftrightarrow> Suc b \<le> c)
    \<and> sync_geq (sync_at a) (sync_at (a + 65536))"
proof -
  have far: "sync_less (sync_at a) (sync_at (a + 65536)) = False"
    by (simp add: sync_less_def word_less_nat_alt)
  show ?thesis
    using sync_less_at [of c "Suc b"] assms
    by (simp add: far sync_inc_at unat_getMarker of_marker_getMarker sync_set_at sync_geq_def not_less)
qed

theorem marker_order_witness:
  "snd (sync_inc (sync_at 65535)) = sync_at (Suc 65535)
    \<and> unat (getMarker (sync_at (Suc 65535))) = Suc 65535 mod 2 ^ 17
    \<and> (sync_geq (sync_set (of_nat 70000) (sync_at 65530)) (of_marker (getMarker (sync_at (Suc 65535))))
        \<longleftrightarrow> Suc 65535 \<le> (70000 :: nat))
    \<and> sync_geq (sync_at 65530) (sync_at (65530 + 65536))"
  by (rule marker_order) simp_all

end
