(* ===== verification/Ring_Buffer.thy ===== *)
theory Ring_Buffer
  imports Nnp_Prelude
begin

text \<open>
  \<open>nnpiRingBuffer\<close> (\<open>nnpiUtils.h\<close>, \<open>nnpiUtils.cpp\<close>) on \<open>nnpiWaitQueue\<close>: the shared-memory ring
  that carries command data to the card and response data from it. Head, tail and sz are
  \<open>uint32_t\<close>; the memory is the list of its bytes; \<open>m_locked\<close> is the mutex of the wait queue,
  which some operations return with. \<open>None\<close> is a call that blocks in the current state (it
  re-evaluates its condition when another thread notifies).
\<close>

section \<open>State\<close>

record ring_buffer =
  m_buf :: "u8 list"
  m_size :: u32
  m_head :: u32
  m_tail :: u32
  m_is_full :: bool
  m_invalid :: bool
  m_locked :: bool

definition rb_init :: "u8 list \<Rightarrow> ring_buffer" where
  "rb_init mem = \<lparr>m_buf = mem, m_size = of_nat (length mem), m_head = 0, m_tail = 0,
                  m_is_full = False, m_invalid = False, m_locked = False\<rparr>"

definition getFreeBytes :: "ring_buffer \<Rightarrow> u32" where
  "getFreeBytes rb =
     (if m_is_full rb then 0
      else if m_tail rb \<ge> m_head rb then m_head rb + m_size rb - m_tail rb
      else m_head rb - m_tail rb)"

definition getAvailBytes :: "ring_buffer \<Rightarrow> u32" where
  "getAvailBytes rb =
     (if m_is_full rb then m_size rb
      else if m_head rb > m_tail rb then m_tail rb + m_size rb - m_head rb
      else m_tail rb - m_head rb)"

section \<open>Operations\<close>

text \<open>
  \<open>lockFreeSpace\<close>: the offset of the free space, if any, and its contiguous part. The
  condition is evaluated under the mutex; with an infinite timeout the call returns only once
  it holds, otherwise it also returns when the time is over (\<open>timed_out\<close>). The mutex stays
  locked when an offset is returned.
\<close>

definition lockFreeSpace ::
    "u32 \<Rightarrow> u32 \<Rightarrow> ring_buffer \<Rightarrow> ((nat option \<times> u32) \<times> ring_buffer) option" where
  "lockFreeSpace sz timeout_us rb =
     (let cond = (getFreeBytes rb \<ge> sz \<or> m_invalid rb)
      in if timeout_us = UINT32_MAX \<and> \<not> cond then None
         else if \<not> m_invalid rb \<and> cond then
           (let end_dist = m_size rb - m_tail rb
            in Some ((Some (unat (m_tail rb)), if end_dist \<ge> sz then sz else end_dist),
                     rb\<lparr>m_locked := True\<rparr>))
         else Some ((None, 0), rb\<lparr>m_locked := False\<rparr>))"

definition unlockFreeSpace :: "u32 \<Rightarrow> ring_buffer \<Rightarrow> ring_buffer" where
  "unlockFreeSpace sz rb =
     (let rb1 = (if sz > 0 then
                   (let t = (m_tail rb + sz) mod m_size rb
                    in rb\<lparr>m_tail := t, m_is_full := (t = m_head rb \<or> m_is_full rb)\<rparr>)
                 else rb)
      in rb1\<lparr>m_locked := False\<rparr>)"

definition updateTailBy :: "u32 \<Rightarrow> ring_buffer \<Rightarrow> ring_buffer" where
  "updateTailBy sz rb =
     (let t = (m_tail rb + sz) mod m_size rb
      in rb\<lparr>m_tail := t, m_is_full := (t = m_head rb \<or> m_is_full rb), m_locked := False\<rparr>)"

text \<open>\<open>lockAvailSpace\<close>: the offset of the data, its sz and its contiguous part.\<close>

definition lockAvailSpace ::
    "u32 \<Rightarrow> u32 \<Rightarrow> ring_buffer \<Rightarrow> ((nat option \<times> u32 \<times> u32) \<times> ring_buffer) option" where
  "lockAvailSpace minAvail timeout_us rb =
     (let avail = getAvailBytes rb; end_dist = m_size rb - m_head rb;
          cont = (if end_dist \<ge> avail then avail else end_dist)
      in if timeout_us = UINT32_MAX \<and> \<not> avail \<ge> minAvail then None
         else if avail \<ge> minAvail then
           Some ((Some (unat (m_head rb)), avail, cont), rb\<lparr>m_locked := True\<rparr>)
         else Some ((None, avail, cont), rb\<lparr>m_locked := False\<rparr>))"

text \<open>The mutex is released only when some bytes are.\<close>

definition unlockAvailSpace :: "u32 \<Rightarrow> ring_buffer \<Rightarrow> ring_buffer" where
  "unlockAvailSpace sz rb =
     (if sz > 0 then
        rb\<lparr>m_head := (m_head rb + sz) mod m_size rb, m_is_full := False, m_locked := False\<rparr>
      else rb)"

definition updateHead :: "u32 \<Rightarrow> ring_buffer \<Rightarrow> ring_buffer" where
  "updateHead sz rb =
     (if sz > 0 then
        rb\<lparr>m_head := (m_head rb + sz) mod m_size rb, m_is_full := False, m_locked := False\<rparr>
      else rb)"

definition setInvalid :: "ring_buffer \<Rightarrow> ring_buffer" where
  "setInvalid rb = rb\<lparr>m_invalid := True\<rparr>"

text \<open>
  A \<open>memcpy\<close> of bytes into the ring's memory, and out of it. An access outside the memory is
  undefined behaviour and has no result.
\<close>

definition mem_write :: "nat \<Rightarrow> u8 list \<Rightarrow> u8 list \<Rightarrow> u8 list option" where
  "mem_write off bs mem =
     (if off + length bs \<le> length mem
      then Some (take off mem @ bs @ drop (off + length bs) mem) else None)"

definition mem_read :: "nat \<Rightarrow> nat \<Rightarrow> u8 list \<Rightarrow> u8 list option" where
  "mem_read off n mem = (if off + n \<le> length mem then Some (take n (drop off mem)) else None)"

definition rb_write :: "nat \<Rightarrow> u8 list \<Rightarrow> ring_buffer \<Rightarrow> ring_buffer option" where
  "rb_write off bs rb = map_option (\<lambda>mem. rb\<lparr>m_buf := mem\<rparr>) (mem_write off bs (m_buf rb))"

text \<open>
  \<open>push\<close>: the first part at the tail, the rest at the start of the memory. The pointer is
  not tested: on an invalidated ring it is null with a contiguous sz of 0.
\<close>

definition push :: "u8 list \<Rightarrow> ring_buffer \<Rightarrow> ring_buffer outcome" where
  "push bs rb =
     (let sz = of_nat (length bs)
      in case lockFreeSpace sz UINT32_MAX rb of
           None \<Rightarrow> Waits
         | Some ((dst, cont), rb1) \<Rightarrow>
             (let c = unat cont;
                  w1 = (case dst of Some off \<Rightarrow> rb_write off (take c bs) rb1 | None \<Rightarrow> Some rb1);
                  w2 = Option.bind w1 (\<lambda>r. if cont < sz then rb_write 0 (drop c bs) r else Some r)
              in case w2 of None \<Rightarrow> Undefined | Some rb2 \<Rightarrow> Done (unlockFreeSpace sz rb2)))"

text \<open>
  \<open>pop\<close> into a buffer of \<open>sz\<close> bytes: the first copy is of the whole contiguous data, which
  overruns the buffer when it is longer than \<open>sz\<close>.
\<close>

definition pop :: "u32 \<Rightarrow> ring_buffer \<Rightarrow> (u8 list \<times> ring_buffer) outcome" where
  "pop sz rb =
     (case lockAvailSpace sz UINT32_MAX rb of
        Some ((Some src, avail, cont), rb1) \<Rightarrow>
          (if cont > sz then Undefined
           else (case mem_read src (unat cont) (m_buf rb1) of
                   None \<Rightarrow> Undefined
                 | Some xs \<Rightarrow>
                     (case (if cont < sz then mem_read 0 (unat (sz - cont)) (m_buf rb1)
                            else Some []) of
                        None \<Rightarrow> Undefined
                      | Some ys \<Rightarrow> Done (xs @ ys, unlockAvailSpace sz rb1))))
      | _ \<Rightarrow> Waits)"


section \<open>The bytes in the ring\<close>

text \<open>Well-formed rings: the memory has the ring's size, head and tail lie in it.\<close>

definition rb_ok :: "ring_buffer \<Rightarrow> bool" where
  "rb_ok rb \<longleftrightarrow> 0 < m_size rb \<and> unat (m_size rb) \<le> 2 ^ 31 \<and> length (m_buf rb) = unat (m_size rb)
     \<and> m_head rb < m_size rb \<and> m_tail rb < m_size rb \<and> (m_is_full rb \<longrightarrow> m_head rb = m_tail rb)"

definition rb_avail :: "ring_buffer \<Rightarrow> nat" where
  "rb_avail rb = (if m_is_full rb then unat (m_size rb)
     else (unat (m_tail rb) + unat (m_size rb) - unat (m_head rb)) mod unat (m_size rb))"

definition rb_content :: "ring_buffer \<Rightarrow> u8 list" where
  "rb_content rb =
     map (\<lambda>i. m_buf rb ! ((unat (m_head rb) + i) mod unat (m_size rb))) [0..<rb_avail rb]"

lemma length_rb_content [simp]: "length (rb_content rb) = rb_avail rb"
  by (simp add: rb_content_def)

lemma rb_okD:
  assumes "rb_ok rb"
  shows "0 < unat (m_size rb)" "unat (m_size rb) \<le> 2 ^ 31" "length (m_buf rb) = unat (m_size rb)"
    "unat (m_head rb) < unat (m_size rb)" "unat (m_tail rb) < unat (m_size rb)"
    "m_is_full rb \<Longrightarrow> m_head rb = m_tail rb"
  using assms by (auto simp: rb_ok_def word_less_nat_alt)

lemma unat_add_sub:
  assumes "unat (a :: u32) < 2 ^ 31" and "unat (b :: u32) \<le> 2 ^ 31" and "unat c \<le> unat a + unat b"
  shows "unat (a + b - c) = unat a + unat b - unat c"
proof -
  have ab: "unat (a + b) = unat a + unat b" using assms by (intro unat_add_no_wrap) simp
  then have "c \<le> a + b" using assms(3) by (simp add: word_le_nat_alt)
  then show ?thesis by (simp add: unat_sub_no_wrap ab)
qed

lemma wrap_mod:
  "(t :: nat) < s \<Longrightarrow> h < s \<Longrightarrow> (t + s - h) mod s = (if h \<le> t then t - h else t + s - h)"
  by (cases "h \<le> t") (simp_all add: mod_if)

lemma unat_avail:
  assumes "rb_ok rb"
  shows "unat (getAvailBytes rb) = rb_avail rb"
proof -
  note ok = rb_okD [OF assms]
  let ?h = "m_head rb" and ?t = "m_tail rb" and ?s = "m_size rb"
  have "unat (?t + ?s - ?h) = unat ?t + unat ?s - unat ?h"
    using ok by (intro unat_add_sub) linarith+
  moreover have "\<not> ?h > ?t \<Longrightarrow> unat (?t - ?h) = unat ?t - unat ?h"
    by (intro unat_sub_no_wrap) simp
  ultimately show ?thesis
    using ok(1-5)
    by (cases "m_is_full rb"; cases "?h > ?t")
      (simp_all add: getAvailBytes_def rb_avail_def wrap_mod word_less_nat_alt)
qed

lemma unat_free:
  assumes "rb_ok rb"
  shows "unat (getFreeBytes rb) = unat (m_size rb) - rb_avail rb"
proof -
  note ok = rb_okD [OF assms]
  let ?h = "m_head rb" and ?t = "m_tail rb" and ?s = "m_size rb"
  have "unat (?h + ?s - ?t) = unat ?h + unat ?s - unat ?t"
    using ok by (intro unat_add_sub) linarith+
  moreover have "\<not> ?t \<ge> ?h \<Longrightarrow> unat (?h - ?t) = unat ?h - unat ?t"
    by (intro unat_sub_no_wrap) simp
  ultimately show ?thesis
    using ok(1-5)
    by (cases "m_is_full rb"; cases "?t \<ge> ?h")
      (simp_all add: getFreeBytes_def rb_avail_def wrap_mod word_le_nat_alt)
qed

lemma rb_avail_le: "rb_ok rb \<Longrightarrow> rb_avail rb \<le> unat (m_size rb)"
  using rb_okD(1) [of rb] by (simp add: rb_avail_def less_imp_le)

lemma tail_eq:
  assumes "rb_ok rb"
  shows "unat (m_tail rb) = (unat (m_head rb) + rb_avail rb) mod unat (m_size rb)"
  using rb_okD [OF assms]
  by (cases "m_is_full rb"; cases "unat (m_head rb) \<le> unat (m_tail rb)")
    (simp_all add: rb_avail_def wrap_mod)

lemma mod_add_cancel_less:
  assumes "i < (s :: nat)" and "j < s" and "(h + i) mod s = (h + j) mod s"
  shows "i = j"
proof -
  have "x = y" if "x \<le> y" "y < s" "(h + x) mod s = (h + y) mod s" for x y
  proof -
    have "s dvd (h + y) - (h + x)"
      using that(1,3) by (subst mod_eq_dvd_iff_nat [symmetric]) auto
    then have "s dvd y - x" by simp
    moreover have "y - x < s" using that(2) by simp
    ultimately have "y - x = 0" using nat_dvd_not_less by blast
    with that(1) show ?thesis by simp
  qed
  from this [of i j] this [of j i] assms show ?thesis by (cases "i \<le> j") auto
qed


text \<open>The number of bytes, from the tail it puts the ring's end at.\<close>

lemma rb_avail_eqI:
  assumes "rb_ok rb" and "k \<le> unat (m_size rb)"
    and "unat (m_tail rb) = (unat (m_head rb) + k) mod unat (m_size rb)"
    and "m_is_full rb \<longleftrightarrow> k = unat (m_size rb)"
  shows "rb_avail rb = k"
proof (cases "m_is_full rb")
  case True
  with assms(4) show ?thesis by (simp add: rb_avail_def)
next
  case False
  note ok = rb_okD [OF assms(1)]
  let ?S = "unat (m_size rb)" and ?H = "unat (m_head rb)"
  from False assms(2,4) have k: "k < ?S" by simp
  have "(?H + rb_avail rb) mod ?S = (?H + k) mod ?S"
    using tail_eq [OF assms(1)] assms(3) by simp
  moreover have "rb_avail rb < ?S" using False ok(1) by (simp add: rb_avail_def)
  ultimately show ?thesis using k mod_add_cancel_less by blast
qed

lemma unat_advance:
  assumes "rb_ok rb" and "unat x < unat (m_size rb)" and "unat n \<le> unat (m_size rb)"
  shows "unat ((x + n) mod m_size rb) = (unat x + unat n) mod unat (m_size rb)"
proof -
  have "unat x + unat n < 2 ^ 32" using rb_okD(2) [OF assms(1)] assms(2,3) by simp
  then show ?thesis by (simp add: unat_mod_distrib unat_add_no_wrap)
qed

lemma unlockFreeSpace_simps:
  "m_buf (unlockFreeSpace n rb) = m_buf rb" "m_size (unlockFreeSpace n rb) = m_size rb"
  "m_head (unlockFreeSpace n rb) = m_head rb" "m_invalid (unlockFreeSpace n rb) = m_invalid rb"
  "\<not> m_locked (unlockFreeSpace n rb)"
  by (simp_all add: unlockFreeSpace_def Let_def)

lemma unlockFreeSpace_ok:
  assumes "rb_ok rb" and "unat n \<le> unat (m_size rb) - rb_avail rb"
  shows "rb_ok (unlockFreeSpace n rb) \<and> rb_avail (unlockFreeSpace n rb) = rb_avail rb + unat n"
proof (cases "n = 0")
  case True
  then show ?thesis
    using assms(1) by (simp add: unlockFreeSpace_def Let_def rb_ok_def rb_avail_def)
next
  case False
  note ok = rb_okD [OF assms(1)]
  let ?S = "unat (m_size rb)" and ?H = "unat (m_head rb)" and ?a = "rb_avail rb"
    and ?r = "unlockFreeSpace n rb"
  from False have n0: "0 < n" "0 < unat n" by (simp_all add: word_gt_0 unat_gt_0)
  have nf: "\<not> m_is_full rb" using n0 assms(2) by (auto simp: rb_avail_def)
  have le: "?a + unat n \<le> ?S" using assms(2) rb_avail_le [OF assms(1)] by linarith
  let ?t = "(m_tail rb + n) mod m_size rb"
  have r: "m_tail ?r = ?t" "m_is_full ?r = (?t = m_head rb)"
    using n0(1) nf by (auto simp: unlockFreeSpace_def Let_def)
  have t: "unat ?t = (?H + (?a + unat n)) mod ?S"
    using unat_advance [OF assms(1) ok(5), of n] le tail_eq [OF assms(1)]
    by (simp add: mod_simps add.assoc)
  then have t_less: "unat ?t < ?S" using ok(1) by simp
  have "?t = m_head rb \<longleftrightarrow> ?a + unat n = ?S"
  proof
    assume "?t = m_head rb"
    then have "(?H + (?a + unat n)) mod ?S = (?H + 0) mod ?S" using t ok(4) by simp
    then have "\<not> ?a + unat n < ?S" using n0(2) mod_add_cancel_less [of "?a + unat n" ?S 0 ?H] by auto
    with le show "?a + unat n = ?S" by simp
  next
    assume "?a + unat n = ?S"
    then show "?t = m_head rb" using t ok(4) by (simp add: word_unat_eq_iff)
  qed
  moreover have okr: "rb_ok ?r"
    using assms(1) r t_less by (auto simp: rb_ok_def unlockFreeSpace_simps word_less_nat_alt)
  ultimately show ?thesis
    using rb_avail_eqI [OF okr, of "?a + unat n"] le t r by (simp add: unlockFreeSpace_simps)
qed

text \<open>Bytes written behind the tail and then released become the end of the content.\<close>

lemma rb_put_content:
  assumes "rb_ok rb" and "unat n \<le> unat (m_size rb) - rb_avail rb" and "length bs = unat n"
    and "length mem = unat (m_size rb)"
    and new: "\<And>j. j < length bs \<Longrightarrow> mem ! ((unat (m_tail rb) + j) mod unat (m_size rb)) = bs ! j"
    and old: "\<And>i. i < rb_avail rb \<Longrightarrow> mem ! ((unat (m_head rb) + i) mod unat (m_size rb))
                = m_buf rb ! ((unat (m_head rb) + i) mod unat (m_size rb))"
  defines "rb' \<equiv> unlockFreeSpace n (rb\<lparr>m_buf := mem\<rparr>)"
  shows "rb_ok rb' \<and> rb_content rb' = rb_content rb @ bs"
proof -
  let ?S = "unat (m_size rb)" and ?H = "unat (m_head rb)" and ?a = "rb_avail rb"
  have "rb_ok (rb\<lparr>m_buf := mem\<rparr>)" using assms(1,4) by (simp add: rb_ok_def)
  moreover have "rb_avail (rb\<lparr>m_buf := mem\<rparr>) = ?a" by (simp add: rb_avail_def)
  ultimately have ok': "rb_ok rb'" and av: "rb_avail rb' = ?a + unat n"
    using unlockFreeSpace_ok [of "rb\<lparr>m_buf := mem\<rparr>" n] assms(2) by (simp_all add: rb'_def)
  have "rb_content rb' ! i = (rb_content rb @ bs) ! i" if i: "i < ?a + unat n" for i
  proof (cases "i < ?a")
    case True
    then show ?thesis
      using i old av by (simp add: rb_content_def nth_append rb'_def unlockFreeSpace_simps)
  next
    case False
    then have "?H + i = ?H + ?a + (i - ?a)" by simp
    then have "(?H + i) mod ?S = (unat (m_tail rb) + (i - ?a)) mod ?S"
      unfolding tail_eq [OF assms(1)] by (metis mod_add_left_eq)
    with False i assms(3) show ?thesis
      using new [of "i - ?a"] av
      by (simp add: rb_content_def nth_append rb'_def unlockFreeSpace_simps)
  qed
  then have "rb_content rb' = rb_content rb @ bs"
    using av assms(3) by (intro nth_equalityI) simp_all
  with ok' show ?thesis by simp
qed


lemma mem_write_Some:
  assumes "mem_write off bs mem = Some mem'"
  shows "length mem' = length mem"
    and "p < length mem \<Longrightarrow>
      mem' ! p = (if off \<le> p \<and> p < off + length bs then bs ! (p - off) else mem ! p)"
  using assms by (auto simp: mem_write_def nth_append min_def split: if_splits)

lemma mem_write_fits: "off + length bs \<le> length mem \<Longrightarrow> \<exists>mem'. mem_write off bs mem = Some mem'"
  by (simp add: mem_write_def)

text \<open>No byte of the content lies in the free space.\<close>

lemma content_not_free:
  assumes "rb_ok rb" and "i < rb_avail rb" and "rb_avail rb + j < unat (m_size rb)"
  shows "(unat (m_head rb) + i) mod unat (m_size rb) \<noteq> (unat (m_tail rb) + j) mod unat (m_size rb)"
proof
  let ?S = "unat (m_size rb)" and ?H = "unat (m_head rb)" and ?a = "rb_avail rb"
  assume "(?H + i) mod ?S = (unat (m_tail rb) + j) mod ?S"
  also have "\<dots> = (?H + (?a + j)) mod ?S"
    unfolding tail_eq [OF assms(1)] by (simp add: mod_simps add.assoc)
  finally have "i = ?a + j"
    using assms(2,3) by (intro mod_add_cancel_less [of i ?S "?a + j" ?H]) auto
  with assms(2) show False by simp
qed

lemma lockFreeSpace_returns:
  assumes "rb_ok rb" and "unat n \<le> unat (m_size rb) - rb_avail rb" and "\<not> m_invalid rb"
  obtains c where "lockFreeSpace n t rb = Some ((Some (unat (m_tail rb)), c), rb\<lparr>m_locked := True\<rparr>)"
    and "unat c = min (unat n) (unat (m_size rb) - unat (m_tail rb))"
proof -
  let ?e = "m_size rb - m_tail rb"
  have "n \<le> getFreeBytes rb"
    using assms(2) unat_free [OF assms(1)] by (simp add: word_le_nat_alt)
  moreover have "unat ?e = unat (m_size rb) - unat (m_tail rb)"
    using rb_okD(5) [OF assms(1)] by (intro unat_sub_no_wrap) (simp add: word_le_nat_alt)
  ultimately show thesis
    using assms(3) that [of "if ?e \<ge> n then n else ?e"]
    by (auto simp: lockFreeSpace_def Let_def word_le_nat_alt min_def)
qed

lemma push_ok:
  assumes ok: "rb_ok rb" and room: "length bs \<le> unat (m_size rb) - rb_avail rb"
    and "\<not> m_invalid rb"
  obtains rb' where "push bs rb = Done rb'" and "rb_ok rb'" and "rb_content rb' = rb_content rb @ bs"
    and "\<not> m_locked rb'" and "\<not> m_invalid rb'" and "m_size rb' = m_size rb"
proof -
  let ?S = "unat (m_size rb)" and ?T = "unat (m_tail rb)" and ?n = "of_nat (length bs) :: u32"
  note okD = rb_okD [OF ok]
  have nS: "length bs \<le> ?S" using room by simp
  then have "length bs < 2 ^ 32" using okD(2) by simp
  then have n: "unat ?n = length bs" by (simp add: unat_of_nat take_bit_nat_eq_self)
  with room have "unat ?n \<le> ?S - rb_avail rb" by simp
  from lockFreeSpace_returns [OF ok this assms(3)] obtain c where
    lk: "lockFreeSpace ?n UINT32_MAX rb = Some ((Some ?T, c), rb\<lparr>m_locked := True\<rparr>)"
    and c: "unat c = min (length bs) (?S - ?T)"
    by (metis n)
  have "?T + length (take (unat c) bs) \<le> length (m_buf rb)" using c okD(3,5) by simp
  then obtain m1 where m1: "mem_write ?T (take (unat c) bs) (m_buf rb) = Some m1"
    using mem_write_fits by blast
  have l1: "length m1 = ?S" using mem_write_Some(1) [OF m1] okD(3) by simp
  have "0 + length (drop (unat c) bs) \<le> length m1" using nS l1 by simp
  then obtain m2 where m2: "mem_write 0 (drop (unat c) bs) m1 = Some m2"
    using mem_write_fits by blast
  have cn: "c < ?n \<longleftrightarrow> unat c < length bs" by (simp add: word_less_nat_alt n)
  define m where "m = (if c < ?n then m2 else m1)"
  have lm: "length m = ?S" using mem_write_Some(1) [OF m2] l1 by (simp add: m_def)
  have nth: "m ! p = (if ?T \<le> p \<and> p < ?T + unat c then bs ! (p - ?T)
      else if unat c < length bs \<and> p < length bs - unat c then bs ! (unat c + p) else m_buf rb ! p)"
    if "p < ?S" for p
    using mem_write_Some(2) [OF m1, of p] mem_write_Some(2) [OF m2, of p] that l1 okD(3) c nS cn
    by (auto simp: m_def)
  have new: "m ! ((?T + j) mod ?S) = bs ! j" if j: "j < length bs" for j
  proof (cases "?T + j < ?S")
    case True
    then have "j < ?S - ?T" by linarith
    with True show ?thesis using nth [of "?T + j"] j c by simp
  next
    case False
    then have "(?T + j) mod ?S = ?T + j - ?S" using j nS okD(5) by (simp add: mod_if)
    moreover have "?T + j - ?S < ?T" "unat c = ?S - ?T" using False j nS okD(5) c by auto
    ultimately show ?thesis using nth [of "?T + j - ?S"] False j okD(5) by (auto simp: add.commute)
  qed
  have old: "m ! ((unat (m_head rb) + i) mod ?S) = m_buf rb ! ((unat (m_head rb) + i) mod ?S)"
    if i: "i < rb_avail rb" for i
  proof -
    let ?p = "(unat (m_head rb) + i) mod ?S"
    have p: "?p < ?S" using okD(1) by simp
    have nf: "?p \<noteq> (?T + j) mod ?S" if "j < length bs" for j
      using content_not_free [OF ok i, of j] that room by linarith
    have "\<not> (?T \<le> ?p \<and> ?p < ?T + unat c)"
    proof
      assume a: "?T \<le> ?p \<and> ?p < ?T + unat c"
      then have "?p - ?T < length bs" using c by linarith
      from nf [OF this] a p show False by simp
    qed
    moreover have "\<not> (unat c < length bs \<and> ?p < length bs - unat c)"
    proof
      assume a: "unat c < length bs \<and> ?p < length bs - unat c"
      then have "unat c + ?p < length bs" "unat c = ?S - ?T" using c by linarith+
      from nf [OF this(1)] this(2) p okD(5) show False by simp
    qed
    ultimately show ?thesis using nth [OF p] by auto
  qed
  have "push bs rb = Done (unlockFreeSpace ?n (rb\<lparr>m_locked := True, m_buf := m\<rparr>))"
    using lk m1 m2 by (simp add: push_def rb_write_def m_def)
  moreover have "unlockFreeSpace ?n (rb\<lparr>m_locked := True, m_buf := m\<rparr>) =
      unlockFreeSpace ?n (rb\<lparr>m_buf := m\<rparr>)"
    by (simp add: unlockFreeSpace_def Let_def)
  moreover note rb_put_content [OF ok, of ?n bs m] n room lm new old assms(3)
  ultimately show thesis
    by (intro that [of "unlockFreeSpace ?n (rb\<lparr>m_buf := m\<rparr>)"]) (simp_all add: unlockFreeSpace_simps)
qed


text \<open>Releasing bytes at the head drops them from the front of the content.\<close>

lemma updateHead_ok:
  assumes "rb_ok rb" and "unat n \<le> rb_avail rb"
  shows "rb_ok (updateHead n rb) \<and> rb_content (updateHead n rb) = drop (unat n) (rb_content rb)"
proof (cases "n = 0")
  case True
  with assms(1) show ?thesis by (simp add: updateHead_def)
next
  case False
  note ok = rb_okD [OF assms(1)]
  let ?S = "unat (m_size rb)" and ?H = "unat (m_head rb)" and ?a = "rb_avail rb"
    and ?r = "updateHead n rb"
  from False have n0: "0 < n" "0 < unat n" by (simp_all add: word_gt_0 unat_gt_0)
  have aS: "?a \<le> ?S" by (rule rb_avail_le [OF assms(1)])
  let ?h = "(m_head rb + n) mod m_size rb"
  have h: "unat ?h = (?H + unat n) mod ?S"
    using unat_advance [OF assms(1) ok(4), of n] assms(2) aS by simp
  have r: "m_head ?r = ?h" "\<not> m_is_full ?r" "m_buf ?r = m_buf rb" "m_size ?r = m_size rb"
    "m_tail ?r = m_tail rb"
    using n0(1) by (simp_all add: updateHead_def)
  have "unat ?h < ?S" using h ok(1) by simp
  then have okr: "rb_ok ?r" using assms(1) r by (auto simp: rb_ok_def word_less_nat_alt)
  have "?H + ?a = ?H + unat n + (?a - unat n)" using assms(2) by simp
  then have "(?H + ?a) mod ?S = (unat ?h + (?a - unat n)) mod ?S"
    unfolding h by (metis mod_add_left_eq)
  then have av: "rb_avail ?r = ?a - unat n"
    using n0(2) aS r tail_eq [OF assms(1)] assms(2) ok(1)
    by (intro rb_avail_eqI [OF okr]) auto
  have "(unat ?h + i) mod ?S = (?H + (unat n + i)) mod ?S" for i
    unfolding h by (simp add: mod_simps add.assoc)
  then have "rb_content ?r = drop (unat n) (rb_content rb)"
    by (intro nth_equalityI) (simp_all add: av rb_content_def r less_diff_conv add.commute)
  with okr show ?thesis by simp
qed

text \<open>Reading from the head, around the end of the memory.\<close>

lemma content_read:
  assumes "rb_ok rb" and "k \<le> rb_avail rb"
  shows "take k (rb_content rb) =
    take k (drop (unat (m_head rb)) (m_buf rb)) @
    take (k - (unat (m_size rb) - unat (m_head rb))) (m_buf rb)"
proof (rule nth_equalityI)
  note ok = rb_okD [OF assms(1)]
  let ?S = "unat (m_size rb)" and ?H = "unat (m_head rb)"
  have kS: "k \<le> ?S" using rb_avail_le [OF assms(1)] assms(2) by simp
  show len: "length (take k (rb_content rb)) =
      length (take k (drop ?H (m_buf rb)) @ take (k - (?S - ?H)) (m_buf rb))"
    using assms(2) ok(3,4) kS by simp
  fix i assume "i < length (take k (rb_content rb))"
  with assms(2) have i: "i < k" "i < rb_avail rb" by simp_all
  show "take k (rb_content rb) ! i =
      (take k (drop ?H (m_buf rb)) @ take (k - (?S - ?H)) (m_buf rb)) ! i"
  proof (cases "?H + i < ?S")
    case True
    then have "i < ?S - ?H" by linarith
    with True i ok(3) show ?thesis by (simp add: rb_content_def nth_append)
  next
    case False
    then have e: "(?H + i) mod ?S = i - (?S - ?H)" "min k (?S - ?H) = ?S - ?H"
      using i kS ok(4) by (simp_all add: mod_if add.commute)
    have "\<not> i < ?S - ?H" using False by linarith
    with i kS ok(3,4) show ?thesis by (simp add: rb_content_def nth_append e)
  qed
qed

lemma unlockAvailSpace_eq: "0 < n \<Longrightarrow> unlockAvailSpace n rb = updateHead n rb"
  by (simp add: unlockAvailSpace_def updateHead_def)

section \<open>The interface\<close>

text \<open>
  A bounded byte queue: the locale states what the two sides of a ring rely on, and proves
  that whatever the interleaving of the two, the bytes come out in the order they went in,
  none lost and none twice.
\<close>

inductive fifo_steps :: "('b list \<Rightarrow> 's \<Rightarrow> 's) \<Rightarrow> (nat \<Rightarrow> 's \<Rightarrow> 's) \<Rightarrow> ('s \<Rightarrow> 'b list) \<Rightarrow>
    ('s \<Rightarrow> nat) \<Rightarrow> 's \<Rightarrow> 'b list \<Rightarrow> 'b list \<Rightarrow> 's \<Rightarrow> bool"
  for put take_n content room s where
  start: "fifo_steps put take_n content room s [] [] s"
| put: "fifo_steps put take_n content room s w r s' \<Longrightarrow> length bs \<le> room s' \<Longrightarrow>
    fifo_steps put take_n content room s (w @ bs) r (put bs s')"
| take: "fifo_steps put take_n content room s w r s' \<Longrightarrow> n \<le> length (content s') \<Longrightarrow>
    fifo_steps put take_n content room s w (r @ take n (content s')) (take_n n s')"

locale byte_fifo =
  fixes put :: "'b list \<Rightarrow> 's \<Rightarrow> 's"
    and take_n :: "nat \<Rightarrow> 's \<Rightarrow> 's"
    and content :: "'s \<Rightarrow> 'b list"
    and room :: "'s \<Rightarrow> nat"
    and ok :: "'s \<Rightarrow> bool"
  assumes put_ok: "ok s \<Longrightarrow> length bs \<le> room s \<Longrightarrow> ok (put bs s) \<and> content (put bs s) = content s @ bs"
    and take_ok: "ok s \<Longrightarrow> n \<le> length (content s) \<Longrightarrow>
      ok (take_n n s) \<and> content (take_n n s) = drop n (content s)"
begin

lemma fifo_order:
  assumes "fifo_steps put take_n content room s w r s'" and "ok s"
  shows "ok s' \<and> content s @ w = r @ content s'"
  using assms(1)
proof induction
  case start
  with assms(2) show ?case by simp
next
  case (put w r s' bs)
  then show ?case using put_ok [of s' bs] by (metis append_assoc)
next
  case (take w r s' n)
  then show ?case using take_ok [of s' n] by simp
qed

end

text \<open>The two sides of the ring: a push, and the release of bytes that were read.\<close>

definition rb_put :: "u8 list \<Rightarrow> ring_buffer \<Rightarrow> ring_buffer" where
  "rb_put bs rb = (case push bs rb of Done rb' \<Rightarrow> rb' | _ \<Rightarrow> rb)"

definition rb_take :: "nat \<Rightarrow> ring_buffer \<Rightarrow> ring_buffer" where
  "rb_take n rb = updateHead (of_nat n) rb"

definition rb_room :: "ring_buffer \<Rightarrow> nat" where
  "rb_room rb = unat (m_size rb) - rb_avail rb"

definition rb_live :: "ring_buffer \<Rightarrow> bool" where
  "rb_live rb \<longleftrightarrow> rb_ok rb \<and> \<not> m_invalid rb"

interpretation ring: byte_fifo rb_put rb_take rb_content rb_room rb_live
proof (unfold_locales, goal_cases)
  case (1 s bs)
  then have "rb_ok s" "length bs \<le> unat (m_size s) - rb_avail s" "\<not> m_invalid s"
    by (simp_all add: rb_live_def rb_room_def)
  then obtain s' where "push bs s = Done s'" "rb_ok s'" "rb_content s' = rb_content s @ bs"
    "\<not> m_invalid s'"
    by (rule push_ok)
  then show ?case by (simp add: rb_put_def rb_live_def)
next
  case (2 s n)
  then have "n < 2 ^ 32"
    using rb_avail_le [of s] rb_okD(2) [of s] by (simp add: rb_live_def)
  then have "unat (of_nat n :: u32) = n" by (simp add: unat_of_nat take_bit_nat_eq_self)
  with 2 show ?case
    using updateHead_ok [of s "of_nat n"] by (simp add: rb_take_def rb_live_def updateHead_def)
qed


section \<open>Reading\<close>

lemma lockAvailSpace_returns:
  assumes "rb_ok rb" and "unat n \<le> rb_avail rb"
  obtains c where
    "lockAvailSpace n t rb = Some ((Some (unat (m_head rb)), getAvailBytes rb, c), rb\<lparr>m_locked := True\<rparr>)"
    and "unat c = min (rb_avail rb) (unat (m_size rb) - unat (m_head rb))"
proof -
  let ?e = "m_size rb - m_head rb"
  have "n \<le> getAvailBytes rb"
    using assms(2) unat_avail [OF assms(1)] by (simp add: word_le_nat_alt)
  moreover have "unat ?e = unat (m_size rb) - unat (m_head rb)"
    using rb_okD(4) [OF assms(1)] by (intro unat_sub_no_wrap) (simp add: word_le_nat_alt)
  ultimately show thesis
    using that [of "if ?e \<ge> getAvailBytes rb then getAvailBytes rb else ?e"] unat_avail [OF assms(1)]
    by (auto simp: lockAvailSpace_def Let_def word_le_nat_alt min_def)
qed

lemma pop_ok:
  assumes ok: "rb_ok rb" and n: "0 < n" "unat n \<le> rb_avail rb"
    and fits: "min (rb_avail rb) (unat (m_size rb) - unat (m_head rb)) \<le> unat n"
  shows "pop n rb = Done (take (unat n) (rb_content rb), updateHead n rb)"
proof -
  note okD = rb_okD [OF ok]
  let ?S = "unat (m_size rb)" and ?H = "unat (m_head rb)" and ?n = "unat n"
  obtain c where
    lk: "lockAvailSpace n UINT32_MAX rb = Some ((Some ?H, getAvailBytes rb, c), rb\<lparr>m_locked := True\<rparr>)"
    and c: "unat c = min (rb_avail rb) (?S - ?H)"
    by (rule lockAvailSpace_returns [OF ok n(2)])
  have nS: "?n \<le> ?S" using n(2) rb_avail_le [OF ok] by linarith
  have cn: "\<not> c > n" using fits c unfolding word_less_nat_alt by linarith
  have sub: "unat (n - c) = ?n - unat c" using cn by (intro unat_sub_no_wrap) simp
  have r1: "mem_read ?H (unat c) (m_buf rb) = Some (take (unat c) (drop ?H (m_buf rb)))"
    using okD(3,4) c by (simp add: mem_read_def)
  have r2: "mem_read 0 (?n - unat c) (m_buf rb) = Some (take (?n - unat c) (m_buf rb))"
    using okD(3) nS by (simp add: mem_read_def)
  have "take (unat c) (drop ?H (m_buf rb)) @ (if c < n then take (?n - unat c) (m_buf rb) else []) =
      take ?n (rb_content rb)"
  proof (cases "c < n")
    case True
    then have "unat c = ?S - ?H" "?S - ?H < ?n"
      using c n(2) by (simp_all add: word_less_nat_alt min_def split: if_splits)
    with True okD(3) show ?thesis by (simp add: content_read [OF ok n(2)])
  next
    case False
    then have "unat c = ?n" using cn by (simp add: word_less_nat_alt)
    then have "?n \<le> ?S - ?H" using c by simp
    with False \<open>unat c = ?n\<close> show ?thesis by (simp add: content_read [OF ok n(2)])
  qed
  moreover have "unlockAvailSpace n (rb\<lparr>m_locked := True\<rparr>) = updateHead n rb"
    using n(1) by (simp add: unlockAvailSpace_def updateHead_def)
  ultimately show ?thesis
    using cn by (auto simp: pop_def lk r1 r2 sub)
qed

section \<open>Pages\<close>

text \<open>
  Every command that carries data moves one page through a ring of two pages, so that head
  and tail are page-aligned and the space is contiguous.
\<close>

abbreviation NNP_PAGE_SIZE :: u32 where
  "NNP_PAGE_SIZE \<equiv> 4096"

definition page_ring :: "ring_buffer \<Rightarrow> bool" where
  "page_ring rb \<longleftrightarrow> rb_ok rb \<and> m_size rb = 2 * NNP_PAGE_SIZE
     \<and> unat (m_head rb) mod 4096 = 0 \<and> unat (m_tail rb) mod 4096 = 0"

lemma page_aligned: "(x :: nat) < 8192 \<Longrightarrow> x mod 4096 = 0 \<Longrightarrow> x = 0 \<or> x = 4096"
proof -
  assume x: "x < 8192" "x mod 4096 = 0"
  from x(2) obtain k where k: "x = 4096 * k" by auto
  with x(1) have "k = 0 \<or> k = 1" by linarith
  with k show ?thesis by auto
qed


lemma page_ring_init: "length mem = 8192 \<Longrightarrow> page_ring (rb_init mem)"
  by (simp add: page_ring_def rb_ok_def rb_init_def word_less_nat_alt)

lemma page_ring_avail:
  assumes "page_ring rb"
  shows "rb_avail rb \<in> {0, 4096, 8192}"
proof -
  have ok: "rb_ok rb" and S: "m_size rb = 2 * NNP_PAGE_SIZE" using assms by (simp_all add: page_ring_def)
  then have "unat (m_head rb) < 8192" "unat (m_tail rb) < 8192" using rb_okD(4,5) [OF ok] by simp_all
  then have "unat (m_head rb) \<in> {0, 4096}" "unat (m_tail rb) \<in> {0, 4096}"
    using assms page_aligned by (auto simp: page_ring_def)
  then show ?thesis using S by (auto simp: rb_avail_def)
qed

lemma page_ring_locked [simp]: "page_ring (rb\<lparr>m_locked := b\<rparr>) = page_ring rb"
  by (simp add: page_ring_def rb_ok_def)

text \<open>One page put in by a command: what the senders do between the two calls.\<close>

lemma page_put:
  assumes pr: "page_ring rb" and room: "rb_avail rb \<le> 4096" and "\<not> m_invalid rb"
    and bs: "length bs \<le> 4096"
  obtains rb1 where
    "lockFreeSpace NNP_PAGE_SIZE UINT32_MAX rb =
       Some ((Some (unat (m_tail rb)), NNP_PAGE_SIZE), rb\<lparr>m_locked := True\<rparr>)"
    and "rb_write (unat (m_tail rb)) bs (rb\<lparr>m_locked := True\<rparr>) = Some rb1"
    and "page_ring (unlockFreeSpace NNP_PAGE_SIZE rb1)"
    and "\<exists>rest. rb_content (unlockFreeSpace NNP_PAGE_SIZE rb1) = rb_content rb @ bs @ rest
           \<and> length (bs @ rest) = 4096"
    and "\<not> m_invalid (unlockFreeSpace NNP_PAGE_SIZE rb1)"
proof -
  have ok: "rb_ok rb" and S: "m_size rb = 2 * NNP_PAGE_SIZE" using pr by (simp_all add: page_ring_def)
  note okD = rb_okD [OF ok]
  let ?T = "unat (m_tail rb)" and ?p = "NNP_PAGE_SIZE"
  have "?T < 8192" using okD(5) S by simp
  then have T: "?T = 0 \<or> ?T = 4096" using pr page_aligned by (simp add: page_ring_def)
  have "unat ?p \<le> unat (m_size rb) - rb_avail rb" using room S by simp
  from lockFreeSpace_returns [OF ok this assms(3)] obtain c where
    lk: "lockFreeSpace ?p UINT32_MAX rb = Some ((Some ?T, c), rb\<lparr>m_locked := True\<rparr>)"
    and c: "unat c = min (unat ?p) (unat (m_size rb) - ?T)" by metis
  have "unat c = unat ?p" using c S T by auto
  then have cp: "c = ?p" by (rule word_unat_eq_iff [THEN iffD2])
  define page where "page = bs @ take (4096 - length bs) (drop (?T + length bs) (m_buf rb))"
  have lp: "length page = 4096" using bs okD(3) S T by (auto simp: page_def)
  obtain mem where mem: "mem_write ?T bs (m_buf rb) = Some mem"
    using mem_write_fits [of ?T bs "m_buf rb"] okD(3) S T bs by auto
  have lm: "length mem = unat (m_size rb)" using mem_write_Some(1) [OF mem] okD(3) by simp
  have new: "mem ! ((?T + j) mod unat (m_size rb)) = page ! j" if "j < length page" for j
    using mem_write_Some(2) [OF mem, of "?T + j"] that lp S T okD(3) bs
    by (auto simp: page_def nth_append)
  have old: "mem ! ((unat (m_head rb) + i) mod unat (m_size rb))
      = m_buf rb ! ((unat (m_head rb) + i) mod unat (m_size rb))" if i: "i < rb_avail rb" for i
  proof -
    let ?q = "(unat (m_head rb) + i) mod unat (m_size rb)"
    have q: "?q < unat (m_size rb)" using okD(1) by simp
    have nf: "?q \<noteq> (?T + j) mod unat (m_size rb)" if "j < 4096" for j
      using content_not_free [OF ok i, of j] that room S by simp
    have "\<not> (?T \<le> ?q \<and> ?q < ?T + 4096)"
    proof
      assume a: "?T \<le> ?q \<and> ?q < ?T + 4096"
      then have "?q - ?T < 4096" by linarith
      from nf [OF this] a q show False by simp
    qed
    then show ?thesis using mem_write_Some(2) [OF mem, of ?q] q okD(3) bs by auto
  qed
  let ?r = "unlockFreeSpace ?p (rb\<lparr>m_locked := True, m_buf := mem\<rparr>)"
  have r: "?r = unlockFreeSpace ?p (rb\<lparr>m_buf := mem\<rparr>)" by (simp add: unlockFreeSpace_def Let_def)
  have put: "rb_ok ?r \<and> rb_content ?r = rb_content rb @ page"
    unfolding r using room S lp new old lm by (intro rb_put_content [OF ok]) simp_all
  have "unat (m_tail ?r) = (?T + 4096) mod 8192"
    using unat_advance [OF ok okD(5), of ?p] S by (simp add: unlockFreeSpace_def Let_def)
  then have "unat (m_tail ?r) mod 4096 = 0" using T by auto
  then have "page_ring ?r"
    using put pr S by (simp add: page_ring_def unlockFreeSpace_simps)
  moreover have "rb_write ?T bs (rb\<lparr>m_locked := True\<rparr>) = Some (rb\<lparr>m_locked := True, m_buf := mem\<rparr>)"
    by (simp add: rb_write_def mem)
  ultimately show thesis
    using lk cp put lp assms(3)
    by (intro that [of "rb\<lparr>m_locked := True, m_buf := mem\<rparr>"])
      (auto simp: page_def unlockFreeSpace_simps)
qed

lemma page_take:
  assumes "page_ring rb" and "4096 \<le> rb_avail rb"
  shows "page_ring (updateHead NNP_PAGE_SIZE rb)
    \<and> rb_content (updateHead NNP_PAGE_SIZE rb) = drop 4096 (rb_content rb)"
proof -
  have ok: "rb_ok rb" and S: "m_size rb = 2 * NNP_PAGE_SIZE"
    using assms(1) by (simp_all add: page_ring_def)
  have "unat (m_head (updateHead NNP_PAGE_SIZE rb)) = (unat (m_head rb) + 4096) mod 8192"
    using unat_advance [OF ok rb_okD(4) [OF ok], of NNP_PAGE_SIZE] S by (simp add: updateHead_def)
  then have "unat (m_head (updateHead NNP_PAGE_SIZE rb)) mod 4096 = 0"
    using assms(1) by (simp add: page_ring_def mod_mod_cancel mod_add_left_eq)
  with updateHead_ok [OF ok, of NNP_PAGE_SIZE] assms S show ?thesis
    by (simp add: page_ring_def updateHead_def)
qed


section \<open>Properties\<close>

text \<open>the free and the available bytes always add up to the size of the ring, although
  both are computed modulo 2^32.\<close>

theorem free_plus_avail:
  assumes "rb_ok rb"
  shows "unat (getFreeBytes rb) + unat (getAvailBytes rb) = unat (m_size rb)
    \<and> unat (getAvailBytes rb) = length (rb_content rb)"
  using unat_avail [OF assms] unat_free [OF assms] rb_avail_le [OF assms] by simp

theorem free_plus_avail_witness:
  "unat (getFreeBytes ((rb_init [1, 2, 3])\<lparr>m_head := 2, m_tail := 1\<rparr>))
     + unat (getAvailBytes ((rb_init [1, 2, 3])\<lparr>m_head := 2, m_tail := 1\<rparr>))
     = unat (m_size ((rb_init [1, 2, 3])\<lparr>m_head := 2, m_tail := 1\<rparr>))
   \<and> unat (getAvailBytes ((rb_init [1, 2, 3])\<lparr>m_head := 2, m_tail := 1\<rparr>))
     = length (rb_content ((rb_init [1, 2, 3])\<lparr>m_head := 2, m_tail := 1\<rparr>))"
  by (rule free_plus_avail) (simp add: rb_ok_def rb_init_def)

text \<open>C33: when there is room, \<open>push\<close> appends exactly its bytes to the content, also when it
  wraps around the end of the memory, and leaves the mutex free; when there is not, it waits.\<close>

theorem push_appends:
  assumes "rb_ok rb" and "\<not> m_invalid rb" and "length bs < 2 ^ 32"
  shows "if length bs \<le> unat (getFreeBytes rb)
    then \<exists>rb'. push bs rb = Done rb' \<and> rb_ok rb' \<and> rb_content rb' = rb_content rb @ bs
         \<and> \<not> m_locked rb'
    else push bs rb = Waits"
proof (cases "length bs \<le> unat (getFreeBytes rb)")
  case True
  then have "length bs \<le> unat (m_size rb) - rb_avail rb" using unat_free [OF assms(1)] by simp
  from push_ok [OF assms(1) this assms(2)]
  have "\<exists>rb'. push bs rb = Done rb' \<and> rb_ok rb' \<and> rb_content rb' = rb_content rb @ bs
      \<and> \<not> m_locked rb'" by metis
  with True show ?thesis by simp
next
  case False
  then have "\<not> of_nat (length bs) \<le> getFreeBytes rb"
    using assms(3) by (simp add: word_le_nat_alt unat_of_nat take_bit_nat_eq_self)
  with False assms(2) show ?thesis by (simp add: push_def lockFreeSpace_def Let_def)
qed

theorem push_appends_witness:
  "if length [7, 8 :: u8] \<le> unat (getFreeBytes ((rb_init [1, 2, 3])\<lparr>m_head := 2, m_tail := 2\<rparr>))
    then \<exists>rb'. push [7, 8] ((rb_init [1, 2, 3])\<lparr>m_head := 2, m_tail := 2\<rparr>) = Done rb' \<and> rb_ok rb'
         \<and> rb_content rb' = rb_content ((rb_init [1, 2, 3])\<lparr>m_head := 2, m_tail := 2\<rparr>) @ [7, 8]
         \<and> \<not> m_locked rb'
    else push [7, 8] ((rb_init [1, 2, 3])\<lparr>m_head := 2, m_tail := 2\<rparr>) = Waits"
  by (rule push_appends) (simp_all add: rb_ok_def rb_init_def)

text \<open>C34: \<open>pop\<close> returns the oldest bytes and removes exactly those, provided the contiguous
  data is not longer than the buffer it is given; when it is longer, the first copy writes past
  the end of the buffer.\<close>

theorem pop_fifo:
  assumes "rb_ok rb" and "0 < n" and "unat n \<le> length (rb_content rb)"
  shows "(if min (rb_avail rb) (unat (m_size rb) - unat (m_head rb)) \<le> unat n
     then \<exists>rb'. pop n rb = Done (take (unat n) (rb_content rb), rb') \<and> rb_ok rb'
        \<and> rb_content rb' = drop (unat n) (rb_content rb)
     else pop n rb = Undefined)"
proof -
  have n: "unat n \<le> rb_avail rb" using assms(3) by simp
  show ?thesis
  proof (cases "min (rb_avail rb) (unat (m_size rb) - unat (m_head rb)) \<le> unat n")
    case True
    from pop_ok [OF assms(1,2) n True] updateHead_ok [OF assms(1) n] True show ?thesis by auto
  next
    case False
    obtain c where lk: "lockAvailSpace n UINT32_MAX rb
        = Some ((Some (unat (m_head rb)), getAvailBytes rb, c), rb\<lparr>m_locked := True\<rparr>)"
      and c: "unat c = min (rb_avail rb) (unat (m_size rb) - unat (m_head rb))"
      by (rule lockAvailSpace_returns [OF assms(1) n])
    have "c > n" using False c unfolding word_less_nat_alt by linarith
    then show ?thesis unfolding if_not_P [OF False] by (simp add: pop_def lk)
  qed
qed

theorem pop_fifo_witness:
  "(if min (rb_avail ((rb_init [1, 2, 3])\<lparr>m_tail := 2\<rparr>))
      (unat (m_size ((rb_init [1, 2, 3])\<lparr>m_tail := 2\<rparr>)) - unat (m_head ((rb_init [1, 2, 3])\<lparr>m_tail := 2\<rparr>)))
      \<le> unat (1 :: u32)
    then \<exists>rb'. pop 1 ((rb_init [1, 2, 3])\<lparr>m_tail := 2\<rparr>)
          = Done (take (unat (1 :: u32)) (rb_content ((rb_init [1, 2, 3])\<lparr>m_tail := 2\<rparr>)), rb') \<and> rb_ok rb'
        \<and> rb_content rb' = drop (unat (1 :: u32)) (rb_content ((rb_init [1, 2, 3])\<lparr>m_tail := 2\<rparr>))
    else pop 1 ((rb_init [1, 2, 3])\<lparr>m_tail := 2\<rparr>) = Undefined)"
  by (rule pop_fifo) (simp_all add: rb_ok_def rb_init_def rb_avail_def)

text \<open>C9: whatever the interleaving of pushes with the releases at the other end, the bytes
  read, followed by the bytes still in the ring, are the bytes written, in order.\<close>

theorem ring_fifo:
  assumes "fifo_steps rb_put rb_take rb_content rb_room rb w r rb'" and "rb_live rb"
  shows "rb_live rb' \<and> rb_content rb @ w = r @ rb_content rb'"
  by (rule ring.fifo_order [OF assms])

theorem ring_fifo_witness:
  "\<exists>rb'. rb_live rb' \<and> rb_content (rb_init [0, 0]) @ ([] @ [7]) = [] @ rb_content rb'"
proof -
  have "length [7 :: u8] \<le> rb_room (rb_init [0, 0])"
    by (simp add: rb_room_def rb_init_def rb_avail_def)
  then have "fifo_steps rb_put rb_take rb_content rb_room (rb_init [0, 0]) ([] @ [7]) []
      (rb_put [7] (rb_init [0, 0]))"
    by (rule fifo_steps.put [OF fifo_steps.start])
  moreover have "rb_live (rb_init [0, 0])" by (simp add: rb_live_def rb_ok_def rb_init_def)
  ultimately have "rb_live (rb_put [7] (rb_init [0, 0]))
      \<and> rb_content (rb_init [0, 0]) @ ([] @ [7]) = [] @ rb_content (rb_put [7] (rb_init [0, 0]))"
    by (rule ring_fifo)
  then show ?thesis by (rule exI)
qed

text \<open>C35: in a ring of two pages that is used page by page, the space for a command's page is
  always one contiguous page inside the memory, and the operations keep it so.\<close>

theorem page_contiguous:
  assumes "page_ring rb" and "\<not> m_invalid rb" and "unat NNP_PAGE_SIZE \<le> unat (getFreeBytes rb)"
  shows "lockFreeSpace NNP_PAGE_SIZE UINT32_MAX rb
      = Some ((Some (unat (m_tail rb)), NNP_PAGE_SIZE), rb\<lparr>m_locked := True\<rparr>)
    \<and> unat (m_tail rb) + 4096 \<le> length (m_buf rb)
    \<and> page_ring (unlockFreeSpace NNP_PAGE_SIZE (rb\<lparr>m_locked := True\<rparr>))"
proof -
  have ok: "rb_ok rb" and S: "m_size rb = 2 * NNP_PAGE_SIZE"
    using assms(1) by (simp_all add: page_ring_def)
  have room: "rb_avail rb \<le> 4096" using assms(3) unat_free [OF ok] S by simp
  obtain rb1 where lk: "lockFreeSpace NNP_PAGE_SIZE UINT32_MAX rb
      = Some ((Some (unat (m_tail rb)), NNP_PAGE_SIZE), rb\<lparr>m_locked := True\<rparr>)"
    and w: "rb_write (unat (m_tail rb)) [] (rb\<lparr>m_locked := True\<rparr>) = Some rb1"
    and pr: "page_ring (unlockFreeSpace NNP_PAGE_SIZE rb1)"
    by (rule page_put [OF assms(1) room assms(2), of "[]"]) simp_all
  have "rb1 = rb\<lparr>m_locked := True\<rparr>"
    using w by (simp add: rb_write_def mem_write_def split: if_splits)
  moreover have "unat (m_tail rb) < 8192" using rb_okD(5) [OF ok] S by simp
  then have "unat (m_tail rb) = 0 \<or> unat (m_tail rb) = 4096"
    using assms(1) by (intro page_aligned) (simp_all add: page_ring_def)
  then have "unat (m_tail rb) + 4096 \<le> length (m_buf rb)"
    using rb_okD(3) [OF ok] S by (elim disjE) simp_all
  ultimately show ?thesis using lk pr by simp
qed

theorem page_contiguous_witness:
  "lockFreeSpace NNP_PAGE_SIZE UINT32_MAX (rb_init (replicate 8192 0))
      = Some ((Some (unat (m_tail (rb_init (replicate 8192 0)))), NNP_PAGE_SIZE),
          (rb_init (replicate 8192 0))\<lparr>m_locked := True\<rparr>)
    \<and> unat (m_tail (rb_init (replicate 8192 0))) + 4096 \<le> length (m_buf (rb_init (replicate 8192 0)))
    \<and> page_ring (unlockFreeSpace NNP_PAGE_SIZE ((rb_init (replicate 8192 0))\<lparr>m_locked := True\<rparr>))"
proof (rule page_contiguous)
  show "page_ring (rb_init (replicate 8192 0))" by (rule page_ring_init) (rule length_replicate)
qed (simp_all add: rb_init_def getFreeBytes_def)

end
