(* ===== verification/Inf_State.thy ===== *)
theory Inf_State
  imports Sched_Params Reply_Map Sync_Point Ring_Buffer "HOL-Library.Product_Lexorder"
begin

text \<open>
  The state of the library in a process: the inference contexts (\<open>nnpiInfContext.h\<close>) with
  their channel (\<open>nnpiChannel.h\<close>) and object database (\<open>nnpiContextObjDB.h\<close>), the command
  lists (\<open>nnpiCommandList.h\<close>), and the heap of \<open>Inf_Objects\<close>. The outside of the library is in
  two places: \<open>ch_kernel\<close> gives what the n-th \<open>write()\<close> on the channel returns, and \<open>ch_inbox\<close>
  is what the response thread will read, in order.
\<close>

section \<open>Command lists\<close>

text \<open>\<open>lst_locked\<close> is the mutex of the list's wait queue.\<close>

record cmdlist =
  lst_ctx :: addr
  lst_id :: u16
  lst_finalized :: bool
  lst_in_flight :: bool
  lst_vec :: "sched_cmd list"
  lst_num_edits :: u16
  lst_failed_commands :: u32
  lst_errorList :: error_list
  lst_user_hdl :: u64
  lst_locked :: bool

definition cmdlist_new :: "u16 \<Rightarrow> addr \<Rightarrow> cmdlist" where
  "cmdlist_new i ctx =
     \<lparr>lst_ctx = ctx, lst_id = i, lst_finalized = False, lst_in_flight = False, lst_vec = [],
      lst_num_edits = 0, lst_failed_commands = 0, lst_errorList = error_list_new,
      lst_user_hdl = 0, lst_locked = False\<rparr>"

section \<open>Channels\<close>

text \<open>
  What the response thread does next: handle a message, whose DMA data (if any) the card has
  written to the response ring before; end because \<open>read()\<close> failed; or the rest of a handler
  that has set the critical error and still has to complete the command lists.
\<close>

datatype fatal_kind = Fatal_Event | Drv_Fatal | Killed

datatype resp_item = Rd_Msg c2h_msg "u8 list" | Rd_Fail | Rd_Complete fatal_kind

record channel =
  ch_id :: u16
  ch_killed :: bool
  ch_kill_on_exit :: bool
  ch_this :: bool
  ch_running :: bool
  ch_cmd_ringbufs :: "ring_buffer option list"
  ch_resp_ringbufs :: "ring_buffer option list"
  ch_kernel :: "nat \<Rightarrow> int"
  ch_writes :: nat
  ch_sent :: "h2c_msg list"
  ch_inbox :: "resp_item list"

text \<open>\<open>sizeof(msg)\<close>, and \<open>write\<close>: a message the driver takes whole is sent.\<close>

definition msg_size :: "h2c_msg \<Rightarrow> int" where
  "msg_size m = 8 * int (msg_qwords (fst (h2c_fields m)))"

definition sys_write :: "h2c_msg \<Rightarrow> channel \<Rightarrow> int \<times> channel" where
  "sys_write m ch =
     (let r = ch_kernel ch (ch_writes ch)
      in (r, ch\<lparr>ch_writes := Suc (ch_writes ch),
                ch_sent := (if r = msg_size m then ch_sent ch @ [m] else ch_sent ch)\<rparr>))"

definition chan_write :: "h2c_msg \<Rightarrow> channel \<Rightarrow> int \<times> channel" where
  "chan_write m ch = (if ch_killed ch then (0, ch) else sys_write m ch)"

text \<open>The comparison with \<open>sizeof(msg)\<close> that follows every write.\<close>

definition chan_send :: "h2c_msg \<Rightarrow> channel \<Rightarrow> bool \<times> channel" where
  "chan_send m ch = (case chan_write m ch of (r, ch') \<Rightarrow> (r = msg_size m, ch'))"

lemma msg_size_pos: "0 < msg_size m"
proof -
  obtain lay vs where m: "h2c_fields m = (lay, vs)" by fastforce
  then have "take 1 (map snd lay) = [6]" using h2c_fields_ok by blast
  then have "6 \<le> layout_bits lay" by (cases lay) (auto simp: layout_bits_def)
  then show ?thesis by (simp add: msg_size_def msg_qwords_def m)
qed

lemma chan_send_sent:
  "chan_send m ch = (ok, ch') \<Longrightarrow>
    ch_sent ch' = (if ok then ch_sent ch @ [m] else ch_sent ch) \<and> (ok \<longrightarrow> \<not> ch_killed ch)"
  using msg_size_pos [of m]
  by (auto simp: chan_send_def chan_write_def sys_write_def Let_def split: if_splits)

section \<open>The object database\<close>

record objdb =
  db_copies :: "(u16 \<times> addr) list"
  db_networks :: "(u16 \<times> addr) list"
  db_infreqs :: "((u16 \<times> u16) \<times> addr) list"
  db_cmdlists :: "(u16 \<times> addr) list"

definition objdb_new :: objdb where
  "objdb_new = \<lparr>db_copies = [], db_networks = [], db_infreqs = [], db_cmdlists = []\<rparr>"

text \<open>\<open>operator[]\<close> as a lookup: an absent key is inserted with a null pointer.\<close>

definition omap_get :: "'k::linorder \<Rightarrow> ('k \<times> addr) list \<Rightarrow> addr \<times> ('k \<times> addr) list" where
  "omap_get k m = (case map_of m k of Some p \<Rightarrow> (p, m) | None \<Rightarrow> (null, omap_update k null m))"

definition insertCopy :: "u16 \<Rightarrow> addr \<Rightarrow> objdb \<Rightarrow> objdb" where
  "insertCopy i a db = db\<lparr>db_copies := omap_update i a (db_copies db)\<rparr>"

definition removeCopy :: "u16 \<Rightarrow> objdb \<Rightarrow> objdb" where
  "removeCopy i db = db\<lparr>db_copies := omap_erase i (db_copies db)\<rparr>"

definition getCopy :: "u16 \<Rightarrow> objdb \<Rightarrow> addr \<times> objdb" where
  "getCopy i db = (case omap_get i (db_copies db) of (p, m) \<Rightarrow> (p, db\<lparr>db_copies := m\<rparr>))"

definition insertDevNet :: "u16 \<Rightarrow> addr \<Rightarrow> objdb \<Rightarrow> objdb" where
  "insertDevNet i a db = db\<lparr>db_networks := omap_update i a (db_networks db)\<rparr>"

definition removeDevNet :: "u16 \<Rightarrow> objdb \<Rightarrow> objdb" where
  "removeDevNet i db = db\<lparr>db_networks := omap_erase i (db_networks db)\<rparr>"

definition getDevNet :: "u16 \<Rightarrow> objdb \<Rightarrow> addr \<times> objdb" where
  "getDevNet i db = (case omap_get i (db_networks db) of (p, m) \<Rightarrow> (p, db\<lparr>db_networks := m\<rparr>))"

definition insertInfReq :: "u16 \<Rightarrow> u16 \<Rightarrow> addr \<Rightarrow> objdb \<Rightarrow> objdb" where
  "insertInfReq net i a db = db\<lparr>db_infreqs := omap_update (net, i) a (db_infreqs db)\<rparr>"

definition removeInfReq :: "u16 \<Rightarrow> u16 \<Rightarrow> objdb \<Rightarrow> objdb" where
  "removeInfReq net i db = db\<lparr>db_infreqs := omap_erase (net, i) (db_infreqs db)\<rparr>"

definition getInfReq :: "u16 \<Rightarrow> u16 \<Rightarrow> objdb \<Rightarrow> addr \<times> objdb" where
  "getInfReq net i db =
     (case omap_get (net, i) (db_infreqs db) of (p, m) \<Rightarrow> (p, db\<lparr>db_infreqs := m\<rparr>))"

definition insertCommandList :: "u16 \<Rightarrow> addr \<Rightarrow> objdb \<Rightarrow> objdb" where
  "insertCommandList i a db = db\<lparr>db_cmdlists := omap_update i a (db_cmdlists db)\<rparr>"

definition removeCommandList :: "u16 \<Rightarrow> objdb \<Rightarrow> objdb" where
  "removeCommandList i db = db\<lparr>db_cmdlists := omap_erase i (db_cmdlists db)\<rparr>"

definition getCommandList :: "u16 \<Rightarrow> objdb \<Rightarrow> addr \<times> objdb" where
  "getCommandList i db =
     (case omap_get i (db_cmdlists db) of (p, m) \<Rightarrow> (p, db\<lparr>db_cmdlists := m\<rparr>))"

definition clearAll :: "objdb \<Rightarrow> objdb" where
  "clearAll db = objdb_new"

lemmas objdb_defs = insertCopy_def removeCopy_def getCopy_def insertDevNet_def removeDevNet_def
  getDevNet_def insertInfReq_def removeInfReq_def getInfReq_def insertCommandList_def
  removeCommandList_def getCommandList_def clearAll_def objdb_new_def omap_get_def

section \<open>Contexts\<close>

record device =
  dev_number :: u32
  dev_bar0 :: u64
  dev_bar2 :: u64

text \<open>\<open>m_critical_error\<close> with value 0 is \<open>None\<close>.\<close>

record inf_context =
  cx_chan :: channel
  cx_device :: device
  cx_critical_error :: "event_report option"
  cx_create_reply :: reply_map
  cx_devres_ida :: ida
  cx_copy_ida :: ida
  cx_devnet_ida :: ida
  cx_cmdlist_ida :: ida
  cx_finalize_in_progress :: u32
  cx_objdb :: objdb
  cx_sync_point :: sync_point
  cx_last_completed :: sync_point
  cx_failed_syncs :: "u16 list"
  cx_errorList :: error_list
  cx_this :: bool
  cx_p2p_tr :: u16
  cx_user_hdl :: u64
  cx_malloc_ok :: bool

definition inf_context_new :: "channel \<Rightarrow> device \<Rightarrow> bool \<Rightarrow> inf_context" where
  "inf_context_new ch dev malloc_ok =
     \<lparr>cx_chan = ch, cx_device = dev, cx_critical_error = None, cx_create_reply = [],
      cx_devres_ida = ida_init 0xffff, cx_copy_ida = ida_init 0xffff,
      cx_devnet_ida = ida_init 0xffff, cx_cmdlist_ida = ida_init 0xffff,
      cx_finalize_in_progress = 0, cx_objdb = objdb_new, cx_sync_point = sync_new,
      cx_last_completed = sync_new, cx_failed_syncs = [], cx_errorList = error_list_new,
      cx_this = False, cx_p2p_tr = 0, cx_user_hdl = 0, cx_malloc_ok = malloc_ok\<rparr>"

definition ctx_broken :: "inf_context \<Rightarrow> bool" where
  "ctx_broken x \<longleftrightarrow> cx_critical_error x \<noteq> None"

definition ctx_aborted :: "inf_context \<Rightarrow> bool" where
  "ctx_aborted x \<longleftrightarrow>
     (case cx_critical_error x of Some e \<Rightarrow> event_code e = NNP_IPC_ABORT_REQUEST | None \<Rightarrow> False)"

definition ctx_card_fatal :: "inf_context \<Rightarrow> bool" where
  "ctx_card_fatal x \<longleftrightarrow>
     (case cx_critical_error x of Some e \<Rightarrow> is_card_fatal_drv_event (unat (event_code e))
      | None \<Rightarrow> False)"

section \<open>The process\<close>

record proc = objects +
  p_cmdlists :: "addr \<Rightarrow> cmdlist"
  p_ctxs :: "addr \<Rightarrow> inf_context"

definition upd_ctx :: "addr \<Rightarrow> (inf_context \<Rightarrow> inf_context) \<Rightarrow> proc \<Rightarrow> proc" where
  "upd_ctx c f s = s\<lparr>p_ctxs := (p_ctxs s)(c := f (p_ctxs s c))\<rparr>"

definition upd_chan :: "addr \<Rightarrow> (channel \<Rightarrow> channel) \<Rightarrow> proc \<Rightarrow> proc" where
  "upd_chan c f = upd_ctx c (\<lambda>x. x\<lparr>cx_chan := f (cx_chan x)\<rparr>)"

definition upd_db :: "addr \<Rightarrow> (objdb \<Rightarrow> objdb) \<Rightarrow> proc \<Rightarrow> proc" where
  "upd_db c f = upd_ctx c (\<lambda>x. x\<lparr>cx_objdb := f (cx_objdb x)\<rparr>)"

definition upd_list :: "addr \<Rightarrow> (cmdlist \<Rightarrow> cmdlist) \<Rightarrow> proc \<Rightarrow> proc" where
  "upd_list a f s = s\<lparr>p_cmdlists := (p_cmdlists s)(a := f (p_cmdlists s a))\<rparr>"

definition ctx_send :: "addr \<Rightarrow> h2c_msg \<Rightarrow> proc \<Rightarrow> bool \<times> proc" where
  "ctx_send c m s =
     (case chan_send m (cx_chan (p_ctxs s c)) of (ok, ch) \<Rightarrow> (ok, upd_chan c (\<lambda>_. ch) s))"

text \<open>The 10-bit channel number in messages.\<close>

definition chan_of :: "addr \<Rightarrow> proc \<Rightarrow> chan_id" where
  "chan_of c s = ucast (ch_id (cx_chan (p_ctxs s c)))"

text \<open>A lookup in the database, which also changes it.\<close>

definition db_lookup :: "addr \<Rightarrow> (objdb \<Rightarrow> addr \<times> objdb) \<Rightarrow> proc \<Rightarrow> addr \<times> proc" where
  "db_lookup c get s =
     (case get (cx_objdb (p_ctxs s c)) of (a, db) \<Rightarrow> (a, upd_db c (\<lambda>_. db) s))"

lemma upd_ctx_same [simp]: "p_ctxs (upd_ctx c f s) c = f (p_ctxs s c)"
  by (simp add: upd_ctx_def)

lemma upd_ctx_other [simp]: "d \<noteq> c \<Longrightarrow> p_ctxs (upd_ctx c f s) d = p_ctxs s d"
  by (simp add: upd_ctx_def)

lemma upd_ctx_more [simp]: "p_cmdlists (upd_ctx c f s) = p_cmdlists s"
  "o_hostres (upd_ctx c f s) = o_hostres s" "o_copies (upd_ctx c f s) = o_copies s"
  "o_devres (upd_ctx c f s) = o_devres s" "o_devnets (upd_ctx c f s) = o_devnets s"
  "o_infreqs (upd_ctx c f s) = o_infreqs s" "o_next (upd_ctx c f s) = o_next s"
  by (simp_all add: upd_ctx_def)

lemma upd_list_ctxs [simp]: "p_ctxs (upd_list a f s) = p_ctxs s"
  "o_hostres (upd_list a f s) = o_hostres s" "o_copies (upd_list a f s) = o_copies s"
  "o_devnets (upd_list a f s) = o_devnets s" "o_infreqs (upd_list a f s) = o_infreqs s"
  by (simp_all add: upd_list_def)

lemma upd_list_same [simp]: "p_cmdlists (upd_list a f s) a = f (p_cmdlists s a)"
  by (simp add: upd_list_def)

lemma upd_list_other [simp]: "b \<noteq> a \<Longrightarrow> p_cmdlists (upd_list a f s) b = p_cmdlists s b"
  by (simp add: upd_list_def)

end
