(* ===== verification/Response_Handler.thy ===== *)
theory Response_Handler
  imports Inf_State
begin

text \<open>
  What the response thread of a context does: the loop \<open>nnpiChannel::response_handler\<close>
  (\<open>nnpiChannel.cpp\<close>) and the handler \<open>nnpiInfContext::response_handler\<close>
  (\<open>nnpiInfContext.cpp\<close>), and the waits of the other threads, which let it handle messages
  until their condition holds. A handler that needs the mutex of a command list that is held
  waits; when it is held by the thread that waits for the handler, neither ever goes on.
\<close>

section \<open>Error lists of the context and of its command lists\<close>

datatype err_target = To_Context | To_List addr

primrec get_errors :: "addr \<Rightarrow> err_target \<Rightarrow> proc \<Rightarrow> error_list" where
  "get_errors c To_Context s = cx_errorList (p_ctxs s c)"
| "get_errors c (To_List a) s = lst_errorList (p_cmdlists s a)"

primrec put_errors :: "addr \<Rightarrow> err_target \<Rightarrow> error_list \<Rightarrow> proc \<Rightarrow> proc" where
  "put_errors c To_Context l s = upd_ctx c (\<lambda>x. x\<lparr>cx_errorList := l\<rparr>) s"
| "put_errors c (To_List a) l s = upd_list a (\<lambda>x. x\<lparr>lst_errorList := l\<rparr>) s"

definition with_errors ::
    "addr \<Rightarrow> err_target option \<Rightarrow>
     (error_list option \<Rightarrow> proc \<Rightarrow> (error_list option \<times> proc) outcome) \<Rightarrow> proc \<Rightarrow> proc outcome" where
  "with_errors c t f s =
     (case t of
        None \<Rightarrow> obind (f None s) (\<lambda>(_, s1). Done s1)
      | Some tg \<Rightarrow> obind (f (Some (get_errors c tg s)) s) (\<lambda>(el, s1).
          Done (case el of Some l \<Rightarrow> put_errors c tg l s1 | None \<Rightarrow> s1)))"

section \<open>Command lists\<close>

definition list_update_locked :: "addr \<Rightarrow> (cmdlist \<Rightarrow> cmdlist) \<Rightarrow> proc \<Rightarrow> proc outcome" where
  "list_update_locked a f s = (if lst_locked (p_cmdlists s a) then Waits else Done (upd_list a f s))"

definition complete :: "addr \<Rightarrow> proc \<Rightarrow> proc outcome" where
  "complete a = list_update_locked a (\<lambda>l. l\<lparr>lst_in_flight := False\<rparr>)"

definition addError :: "addr \<Rightarrow> proc \<Rightarrow> proc outcome" where
  "addError a = list_update_locked a (\<lambda>l. l\<lparr>lst_failed_commands := lst_failed_commands l + 1\<rparr>)"

section \<open>All copies, all command lists\<close>

fun fail_copies :: "addr \<Rightarrow> addr list \<Rightarrow> proc \<Rightarrow> proc outcome" where
  "fail_copies c [] s = Done s"
| "fail_copies c (a # as) s =
     (if a = null then Undefined
      else obind (with_errors c (Some To_Context) (\<lambda>el. post_schedule el a) s) (fail_copies c as))"

definition failAllScheduledCopyCommands :: "addr \<Rightarrow> proc \<Rightarrow> proc outcome" where
  "failAllScheduledCopyCommands c s =
     fail_copies c (map snd (db_copies (cx_objdb (p_ctxs s c)))) s"

fun complete_lists :: "addr list \<Rightarrow> proc \<Rightarrow> proc outcome" where
  "complete_lists [] s = Done s"
| "complete_lists (a # as) s =
     (if a = null then Undefined else obind (complete a s) (complete_lists as))"

definition completeAllCommandLists :: "addr \<Rightarrow> proc \<Rightarrow> proc outcome" where
  "completeAllCommandLists c s =
     complete_lists (map snd (db_cmdlists (cx_objdb (p_ctxs s c)))) s"

section \<open>The response ring\<close>

definition resp_ring :: "addr \<Rightarrow> proc \<Rightarrow> ring_buffer option" where
  "resp_ring c s = ch_resp_ringbufs (cx_chan (p_ctxs s c)) ! 0"

definition set_resp_ring :: "addr \<Rightarrow> ring_buffer \<Rightarrow> proc \<Rightarrow> proc" where
  "set_resp_ring c rb =
     upd_chan c (\<lambda>ch. ch\<lparr>ch_resp_ringbufs := (ch_resp_ringbufs ch)[0 := Some rb]\<rparr>)"

text \<open>The card writes the data of a message at the end of the response ring.\<close>

definition dma_store :: "addr \<Rightarrow> u8 list \<Rightarrow> proc \<Rightarrow> proc" where
  "dma_store c bs s =
     (case resp_ring c s of
        Some rb \<Rightarrow> (case rb_write (unat (m_tail rb)) bs rb of
                      Some rb' \<Rightarrow> set_resp_ring c rb' s | None \<Rightarrow> s)
      | None \<Rightarrow> s)"

text \<open>\<open>sendResponseRingBufferHeadUpdate\<close>.\<close>

definition sendResponseRingBufferHeadUpdate :: "addr \<Rightarrow> nat \<Rightarrow> u32 \<Rightarrow> proc \<Rightarrow> bool \<times> proc" where
  "sendResponseRingBufferHeadUpdate c rb_id sz s =
     (let ch = cx_chan (p_ctxs s c)
      in if ch_killed ch then (False, s)
         else if rb_id < 2 \<and> ch_resp_ringbufs ch ! rb_id \<noteq> None then
           (case sys_write (H2C_RbUpdate (chan_of c s) (rb_id = 1) sz) ch of
              (r, ch') \<Rightarrow> (\<not> r < msg_size (H2C_RbUpdate (chan_of c s) (rb_id = 1) sz),
                            upd_chan c (\<lambda>_. ch') s))
         else (True, s))"

section \<open>Error list packets\<close>

definition append_packet ::
    "addr \<Rightarrow> err_target \<Rightarrow> u8 list option \<Rightarrow> u32 \<Rightarrow> u16 \<Rightarrow> proc \<Rightarrow> proc outcome" where
  "append_packet c tg packet total_size ev s =
     obind (of_loop (appendErrorListPacket (cx_malloc_ok (p_ctxs s c)) packet total_size ev
                       (get_errors c tg s)))
       (\<lambda>l. Done (put_errors c tg l s))"

text \<open>The part for one target: an error, a packet in the response ring, or a cleared list.\<close>

definition exec_error_packet ::
    "addr \<Rightarrow> err_target \<Rightarrow> 2 word \<Rightarrow> 12 word \<Rightarrow> u16 \<Rightarrow> bool \<Rightarrow> proc \<Rightarrow> proc outcome" where
  "exec_error_packet c tg clear_status pkt_size total_size is_error s =
     (if is_error then append_packet c tg None 0 total_size s
      else if clear_status = 0 then
        (case resp_ring c s of
           None \<Rightarrow> Undefined
         | Some rb \<Rightarrow>
             (case lockAvailSpace NNP_PAGE_SIZE 0 rb of
                Some ((Some off, avail, cont), rb1) \<Rightarrow>
                  (case mem_read off (unat pkt_size + 1) (m_buf rb1) of
                     None \<Rightarrow> Undefined
                   | Some packet \<Rightarrow>
                       obind (append_packet c tg (Some packet) (ucast total_size) 0
                                (set_resp_ring c rb1 s))
                         (\<lambda>s1. Done (snd (sendResponseRingBufferHeadUpdate c 0 NNP_PAGE_SIZE
                             (set_resp_ring c (unlockAvailSpace NNP_PAGE_SIZE rb1) s1)))))
              | Some ((None, avail, cont), rb1) \<Rightarrow>
                  append_packet c tg None 0 (of_nat NNP_IPC_IO_ERROR) (set_resp_ring c rb1 s)
              | None \<Rightarrow> Waits))
      else
        (case clearRequestSucceeded (get_errors c tg s) (o_hostres s) of
           (l, st) \<Rightarrow> Done (put_errors c tg l (s\<lparr>o_hostres := st\<rparr>))))"

definition processExecErrorList ::
    "addr \<Rightarrow> u16 \<Rightarrow> bool \<Rightarrow> 2 word \<Rightarrow> 12 word \<Rightarrow> u16 \<Rightarrow> bool \<Rightarrow> proc \<Rightarrow> proc outcome" where
  "processExecErrorList c cmdID cmdID_valid clear_status pkt_size total_size is_error s =
     (let s0 = (if \<not> is_error \<and> clear_status = 0 then
                  (case resp_ring c s of
                     Some rb \<Rightarrow> Done (set_resp_ring c (updateTailBy NNP_PAGE_SIZE rb) s)
                   | None \<Rightarrow> Undefined)
                else Done s)
      in obind s0 (\<lambda>s1.
           if cmdID_valid then
             (case db_lookup c (getCommandList cmdID) s1 of
                (a, s2) \<Rightarrow>
                  if a = null then Done s2
                  else exec_error_packet c (To_List a) clear_status pkt_size total_size is_error s2)
           else exec_error_packet c To_Context clear_status pkt_size total_size is_error s1))"

section \<open>Replies\<close>

definition process_create_reply :: "addr \<Rightarrow> event_report \<Rightarrow> proc \<Rightarrow> bool \<times> proc" where
  "process_create_reply c ev s =
     (case reply_type (event_code ev) of
        None \<Rightarrow> (False, s)
      | Some t \<Rightarrow>
          (True, upd_ctx c (\<lambda>x.
             x\<lparr>cx_create_reply := reply_put (reply_key t ev) ev (cx_create_reply x),
               cx_finalize_in_progress :=
                 (if t = INF_OBJ_TYPE_CMD \<and> cx_finalize_in_progress x > 0
                  then cx_finalize_in_progress x - 1 else cx_finalize_in_progress x)\<rparr>) s))"

section \<open>Event reports\<close>

definition set_critical :: "addr \<Rightarrow> event_report \<Rightarrow> proc \<Rightarrow> proc" where
  "set_critical c ev =
     upd_ctx c (\<lambda>x. x\<lparr>cx_critical_error :=
       (if cx_critical_error x = None \<or> event_code ev = NNP_IPC_ABORT_REQUEST
        then Some ev else cx_critical_error x)\<rparr>)"

definition then_complete :: "addr \<Rightarrow> fatal_kind \<Rightarrow> proc \<Rightarrow> proc" where
  "then_complete c k = upd_chan c (\<lambda>ch. ch\<lparr>ch_inbox := Rd_Complete k # ch_inbox ch\<rparr>)"

text \<open>Fatal events: up to the point where the critical error is set, the rest is \<open>Rd_Complete\<close>.\<close>

definition is_fatal :: "event_report \<Rightarrow> bool" where
  "is_fatal ev \<longleftrightarrow> is_card_fatal_event (unat (event_code ev))
     \<or> is_context_fatal_event (unat (event_code ev)) \<or> event_code ev = NNP_IPC_ABORT_REQUEST"

definition handle_fatal :: "addr \<Rightarrow> event_report \<Rightarrow> proc \<Rightarrow> proc outcome" where
  "handle_fatal c ev s =
     (if is_card_fatal_drv_event (unat (event_code ev)) then
        obind (failAllScheduledCopyCommands c s) (\<lambda>s1.
          Done (then_complete c Drv_Fatal
            (upd_ctx c (\<lambda>x. x\<lparr>cx_critical_error :=
               (if cx_critical_error x = None then Some ev else cx_critical_error x)\<rparr>) s1)))
      else
        obind (if is_card_fatal_event (unat (event_code ev))
               then obind (failAllScheduledCopyCommands c s)
                      (\<lambda>s1. Done (upd_chan c (\<lambda>ch. ch\<lparr>ch_kill_on_exit := True\<rparr>) s1))
               else Done s)
          (\<lambda>s1. Done (then_complete c Fatal_Event (set_critical c ev s1))))"

abbreviation copy_failed_event :: "event_report \<Rightarrow> bool" where
  "copy_failed_event ev \<equiv>
     event_code ev = NNP_IPC_EXECUTE_COPY_FAILED
     \<or> event_code ev = NNP_IPC_EXECUTE_COPY_SUBRES_FAILED"

text \<open>A copy has been executed, alone or as the last command of a list.\<close>

definition handle_copy_event :: "addr \<Rightarrow> event_report \<Rightarrow> proc \<Rightarrow> proc outcome" where
  "handle_copy_event c ev s =
     (case db_lookup c (getCopy (obj_id ev)) s of
        (a, s1) \<Rightarrow>
          if a = null then Done s1
          else
            (case (if obj_valid_2 ev then db_lookup c (getCommandList (obj_id_2 ev)) s1
                   else (null, s1)) of
               (l, s2) \<Rightarrow>
                 if obj_valid_2 ev \<and> l = null then Done s2
                 else
                   obind
                     (if copy_failed_event ev then
                        (if cp_hostres (o_copies s2 a) \<noteq> null then
                           with_errors c (Some (if obj_valid_2 ev then To_List l else To_Context))
                             (\<lambda>el. post_schedule el a) s2
                         else Done s2)
                      else with_errors c None (\<lambda>el. post_schedule el a) s2)
                     (\<lambda>s3. if obj_valid_2 ev
                           then (if copy_failed_event ev then addError l s3 else complete l s3)
                           else Done s3)))"

text \<open>A copy list has been executed. \<open>m_vec.at\<close> of an index out of range throws, which ends the
  process in the response thread.\<close>

definition handle_copylist_event :: "addr \<Rightarrow> event_report \<Rightarrow> proc \<Rightarrow> proc outcome" where
  "handle_copylist_event c ev s =
     (case db_lookup c (getCommandList (obj_id ev)) s of
        (l, s1) \<Rightarrow>
          if l = null then Done s1
          else if length (lst_vec (p_cmdlists s1 l)) \<le> unat (obj_id_2 ev) then Undefined
          else
            let cmd = lst_vec (p_cmdlists s1 l) ! unat (obj_id_2 ev)
            in if event_code ev = NNP_IPC_EXECUTE_CPYLST_SUCCESS then
                 obind (with_errors c None (\<lambda>el. schedule_done el cmd) s1) (\<lambda>s2.
                   if unat (event_val ev) = NNP_IPC_CMDLIST_FINISHED then complete l s2 else Done s2)
               else
                 obind (with_errors c (Some (To_List l)) (\<lambda>el. schedule_done el cmd) s1)
                   (addError l))"

definition handle_cmd_complete :: "addr \<Rightarrow> event_report \<Rightarrow> proc \<Rightarrow> proc outcome" where
  "handle_cmd_complete c ev s =
     (case db_lookup c (getCommandList (obj_id ev)) s of
        (l, s1) \<Rightarrow>
          if l = null then Done s1
          else obind (if event_val ev \<noteq> 0 then addError l s1 else Done s1) (complete l))"

definition handle_devres_destroyed :: "addr \<Rightarrow> event_report \<Rightarrow> proc \<Rightarrow> proc" where
  "handle_devres_destroyed c ev =
     upd_ctx c (\<lambda>x. x\<lparr>cx_devres_ida := ida_free (ucast (obj_id ev)) (cx_devres_ida x)\<rparr>)"

definition handle_devnet_destroyed :: "addr \<Rightarrow> event_report \<Rightarrow> proc \<Rightarrow> proc" where
  "handle_devnet_destroyed c ev s =
     (case db_lookup c (getDevNet (obj_id ev)) s of
        (a, s1) \<Rightarrow>
          upd_ctx c (\<lambda>x. x\<lparr>cx_devnet_ida := ida_free (ucast (obj_id ev)) (cx_devnet_ida x)\<rparr>)
            (if a = null then s1 else upd_db c (removeDevNet (obj_id ev)) s1))"

definition handle_infreq_destroyed :: "addr \<Rightarrow> event_report \<Rightarrow> proc \<Rightarrow> proc" where
  "handle_infreq_destroyed c ev s =
     (case db_lookup c (getDevNet (obj_id_2 ev)) s of
        (a, s1) \<Rightarrow>
          if a = null then s1
          else
            let s2 = upd_db c (removeInfReq (obj_id_2 ev) (obj_id ev)) s1; dn = o_devnets s2 a
            in set_devnet a
                 (dn\<lparr>dn_infreq_ida := ida_free (ucast (obj_id ev)) (dn_infreq_ida dn)\<rparr>) s2)"

definition handle_copy_destroyed :: "addr \<Rightarrow> event_report \<Rightarrow> proc \<Rightarrow> proc" where
  "handle_copy_destroyed c ev s =
     (case db_lookup c (getCopy (obj_id ev)) s of
        (a, s1) \<Rightarrow>
          upd_ctx c (\<lambda>x. x\<lparr>cx_copy_ida := ida_free (ucast (obj_id ev)) (cx_copy_ida x)\<rparr>)
            (if a = null then s1 else upd_db c (removeCopy (obj_id ev)) s1))"

definition handle_cmd_destroyed :: "addr \<Rightarrow> event_report \<Rightarrow> proc \<Rightarrow> proc" where
  "handle_cmd_destroyed c ev s =
     (case db_lookup c (getCommandList (obj_id ev)) s of
        (a, s1) \<Rightarrow>
          upd_ctx c (\<lambda>x. x\<lparr>cx_cmdlist_ida := ida_free (ucast (obj_id ev)) (cx_cmdlist_ida x)\<rparr>)
            (if a = null then s1 else upd_db c (removeCommandList (obj_id ev)) s1))"

definition handle_credit_failed :: "addr \<Rightarrow> event_report \<Rightarrow> proc \<Rightarrow> proc outcome" where
  "handle_credit_failed c ev s =
     (if obj_valid ev then
        (case db_lookup c (getCommandList (obj_id ev)) s of
           (l, s1) \<Rightarrow> if l = null then Done s1 else addError l s1)
      else Done s)"

text \<open>The event branch of the handler; the result says whether the thread is to exit.\<close>

definition handle_event :: "addr \<Rightarrow> event_report \<Rightarrow> proc \<Rightarrow> (bool \<times> proc) outcome" where
  "handle_event c ev s =
     (let code = event_code ev; cont = (\<lambda>s. Done (False, s))
      in if is_fatal ev then obind (handle_fatal c ev s) cont
         else if code \<in> {NNP_IPC_EXECUTE_COPY_SUCCESS, NNP_IPC_EXECUTE_COPY_FAILED,
                         NNP_IPC_EXECUTE_COPY_SUBRES_SUCCESS, NNP_IPC_EXECUTE_COPY_SUBRES_FAILED}
         then obind (handle_copy_event c ev s) cont
         else if code = NNP_IPC_EXECUTE_CPYLST_SUCCESS \<or> code = NNP_IPC_EXECUTE_CPYLST_FAILED
         then obind (handle_copylist_event c ev s) cont
         else if code = NNP_IPC_EXECUTE_CMD_COMPLETE then obind (handle_cmd_complete c ev s) cont
         else if code = NNP_IPC_DEVRES_DESTROYED then cont (handle_devres_destroyed c ev s)
         else if code = NNP_IPC_DEVNET_DESTROYED then cont (handle_devnet_destroyed c ev s)
         else if code = NNP_IPC_INFREQ_DESTROYED then cont (handle_infreq_destroyed c ev s)
         else if code = NNP_IPC_COPY_DESTROYED then cont (handle_copy_destroyed c ev s)
         else if code = NNP_IPC_CMD_DESTROYED then cont (handle_cmd_destroyed c ev s)
         else if code = NNP_IPC_CONTEXT_DESTROYED
         then Done (True, upd_ctx c (\<lambda>x. x\<lparr>cx_this := False\<rparr>) s)
         else if code = NNP_IPC_CREATE_SYNC_FAILED
         then cont (upd_ctx c (\<lambda>x. x\<lparr>cx_failed_syncs :=
                List.insert (obj_id ev) (cx_failed_syncs x)\<rparr>) s)
         else if code = NNP_IPC_EC_FAILED_TO_RELEASE_CREDIT
         then obind (handle_credit_failed c ev s) cont
         else cont (snd (process_create_reply c ev s)))"

section \<open>The channel's thread\<close>

definition handle_ringbuff_head_update :: "addr \<Rightarrow> bool \<Rightarrow> u32 \<Rightarrow> proc \<Rightarrow> proc" where
  "handle_ringbuff_head_update c rb_id sz s =
     (let ch = cx_chan (p_ctxs s c); i = of_bool rb_id
      in if ch_killed ch then s
         else case ch_cmd_ringbufs ch ! i of
                None \<Rightarrow> s
              | Some rb \<Rightarrow> upd_chan c (\<lambda>ch. ch\<lparr>ch_cmd_ringbufs :=
                  (ch_cmd_ringbufs ch)[i := Some (updateHead sz rb)]\<rparr>) s)"

primrec handle_msg :: "addr \<Rightarrow> c2h_msg \<Rightarrow> proc \<Rightarrow> (bool \<times> proc) outcome" where
  "handle_msg c (C2H_RbUpdate ch rb_id sz) s =
     Done (False, handle_ringbuff_head_update c rb_id sz s)"
| "handle_msg c (C2H_SyncDone ch sq) s =
     Done (False, upd_ctx c (\<lambda>x. x\<lparr>cx_last_completed := sync_set sq (cx_last_completed x)\<rparr>) s)"
| "handle_msg c (C2H_InfReqFailed ch net req cmd reason cmd_valid) s =
     (if cmd_valid then
        (case db_lookup c (getCommandList cmd) s of
           (l, s1) \<Rightarrow> obind (if l = null then Done s1 else addError l s1) (\<lambda>s2. Done (False, s2)))
      else Done (False, s))"
| "handle_msg c (C2H_ExecErrorList ch cmd cmd_valid clr psize tot err) s =
     obind (processExecErrorList c cmd cmd_valid clr psize tot err s) (\<lambda>s1. Done (False, s1))"
| "handle_msg c (C2H_Event ev) s = handle_event c ev s"

text \<open>The end of the thread: \<open>handleResponseHandlerExit\<close> after a normal exit.\<close>

definition invalidate_rings :: "addr \<Rightarrow> proc \<Rightarrow> proc" where
  "invalidate_rings c =
     upd_chan c (\<lambda>ch. ch\<lparr>ch_cmd_ringbufs := map (map_option setInvalid) (ch_cmd_ringbufs ch)\<rparr>)"

definition exit_normal :: "addr \<Rightarrow> proc \<Rightarrow> proc" where
  "exit_normal c s =
     upd_chan c (\<lambda>ch. ch\<lparr>ch_this := False, ch_running := False\<rparr>) (invalidate_rings c s)"

text \<open>After an abnormal one, the handler is called with a null response: first the part up to the
  wakeup of the waiters, then the rest. \<open>umd_only\<close> is the kill after a fork.\<close>

definition set_killed :: "addr \<Rightarrow> proc \<Rightarrow> proc" where
  "set_killed c = upd_ctx c (\<lambda>x. x\<lparr>cx_critical_error :=
     Some ((case cx_critical_error x of Some e \<Rightarrow> e | None \<Rightarrow> zero_report)
             \<lparr>event_code := NNP_IPC_ERROR_CHANNEL_KILLED\<rparr>)\<rparr>)"

definition killed_begin :: "addr \<Rightarrow> bool \<Rightarrow> proc \<Rightarrow> (bool \<times> proc) outcome" where
  "killed_begin c umd_only s =
     (let s1 = upd_chan c (\<lambda>ch. ch\<lparr>ch_killed := True\<rparr>)
                 (if umd_only then s else invalidate_rings c s)
      in obind (failAllScheduledCopyCommands c s1) (\<lambda>s2.
           Done (\<not> ctx_card_fatal (p_ctxs s2 c) \<and> \<not> umd_only, set_killed c s2)))"

definition killed_end :: "addr \<Rightarrow> proc \<Rightarrow> proc" where
  "killed_end c s =
     upd_chan c (\<lambda>ch. ch\<lparr>ch_this := False, ch_running := False\<rparr>)
       (upd_ctx c (\<lambda>x. x\<lparr>cx_this := False\<rparr>) (upd_db c clearAll s))"

primrec complete_rest :: "fatal_kind \<Rightarrow> addr \<Rightarrow> proc \<Rightarrow> proc" where
  "complete_rest Fatal_Event c s = s"
| "complete_rest Drv_Fatal c s =
     exit_normal c (upd_ctx c (\<lambda>x. x\<lparr>cx_this := False\<rparr>) (upd_db c clearAll s))"
| "complete_rest Killed c s = killed_end c s"

text \<open>One round of the loop of the response thread.\<close>

definition handle_next :: "addr \<Rightarrow> proc \<Rightarrow> proc outcome" where
  "handle_next c s =
     (let ch = cx_chan (p_ctxs s c)
      in case ch_inbox ch of
           [] \<Rightarrow> Waits
         | it # rest \<Rightarrow>
             if \<not> ch_running ch then Waits
             else
               let s0 = upd_chan c (\<lambda>ch. ch\<lparr>ch_inbox := rest\<rparr>) s
               in case it of
                    Rd_Msg m dma \<Rightarrow>
                      obind (handle_msg c m (dma_store c dma s0)) (\<lambda>(ex, s1).
                        Done (if ex then exit_normal c s1 else s1))
                  | Rd_Fail \<Rightarrow>
                      obind (killed_begin c False s0) (\<lambda>(wake, s1).
                        Done (if wake then then_complete c Killed s1 else killed_end c s1))
                  | Rd_Complete k \<Rightarrow>
                      obind (completeAllCommandLists c s0) (\<lambda>s1. Done (complete_rest k c s1)))"

text \<open>\<open>nnpiChannel::kill\<close>: the response thread is cancelled, then its exit is run here.\<close>

definition chan_kill :: "addr \<Rightarrow> bool \<Rightarrow> proc \<Rightarrow> proc outcome" where
  "chan_kill c umd_only s =
     (let ch = cx_chan (p_ctxs s c)
      in if ch_killed ch then Done s
         else
           let s1 = (if umd_only then s else upd_chan c (\<lambda>ch. ch\<lparr>ch_running := False\<rparr>) s)
           in if \<not> umd_only \<and> \<not> ch_this ch then Done s1
              else obind (killed_begin c umd_only s1) (\<lambda>(wake, s2).
                     obind (if wake then completeAllCommandLists c s2 else Done s2)
                       (\<lambda>s3. Done (killed_end c s3))))"

section \<open>Waiting\<close>

text \<open>
  A thread that waits for a condition with no other lock: the response thread handles messages
  until the condition holds. With a timeout, it is long enough for a given number of messages.
\<close>

primrec pump :: "nat \<Rightarrow> (proc \<Rightarrow> bool) \<Rightarrow> addr \<Rightarrow> proc \<Rightarrow> proc outcome" where
  "pump 0 cond c s = (if cond s then Done s else Waits)"
| "pump (Suc n) cond c s =
     (if cond s then Done s else obind (handle_next c s) (pump n cond c))"

primrec pump_timed :: "nat \<Rightarrow> (proc \<Rightarrow> bool) \<Rightarrow> addr \<Rightarrow> proc \<Rightarrow> (bool \<times> proc) outcome" where
  "pump_timed 0 cond c s = Done (cond s, s)"
| "pump_timed (Suc n) cond c s =
     (if cond s then Done (True, s)
      else case handle_next c s of
             Waits \<Rightarrow> Done (False, s)
           | r \<Rightarrow> obind r (pump_timed n cond c))"

text \<open>Every message adds at most one item, the rest of its handler, in front of the others.\<close>

definition wait_steps :: "addr \<Rightarrow> proc \<Rightarrow> nat" where
  "wait_steps c s = 2 * length (ch_inbox (cx_chan (p_ctxs s c)))"

definition wait_for :: "(proc \<Rightarrow> bool) \<Rightarrow> addr \<Rightarrow> proc \<Rightarrow> proc outcome" where
  "wait_for cond c s = pump (wait_steps c s) cond c s"

text \<open>A timeout of \<open>UINT32_MAX\<close> is none; another is over after \<open>n\<close> messages.\<close>

definition wait_timeout ::
    "u32 \<Rightarrow> nat \<Rightarrow> (proc \<Rightarrow> bool) \<Rightarrow> addr \<Rightarrow> proc \<Rightarrow> (bool \<times> proc) outcome" where
  "wait_timeout timeout_us n cond c s =
     (if timeout_us = UINT32_MAX then obind (wait_for cond c s) (\<lambda>s1. Done (True, s1))
      else pump_timed n cond c s)"

end
