(* ===== verification/Frame.thy ===== *)
theory Frame
  imports Response_Handler
begin

text \<open>
  What the response thread leaves alone. Whatever it handles while a thread waits, the objects keep
  their identity, the other contexts are not touched, only updates of the response ring's head are
  sent, and a context that is broken or killed stays so.
\<close>

lemma obind_DoneE:
  assumes "obind r f = Done y"
  obtains x where "r = Done x" "f x = Done y"
  using assms by (auto simp: obind_Done_iff)

section \<open>The relation\<close>

definition copy_key :: "copy_cmd \<Rightarrow> copy_cmd" where
  "copy_key cp = cp\<lparr>cp_hostres := null, cp_scheduled := False\<rparr>"

definition net_key :: "devnet \<Rightarrow> devnet" where
  "net_key d = d\<lparr>dn_infreq_ida := ida_init 0\<rparr>"

definition list_key :: "cmdlist \<Rightarrow> cmdlist" where
  "list_key l = l\<lparr>lst_in_flight := False, lst_failed_commands := 0, lst_errorList := error_list_new\<rparr>"

definition ctx_key :: "inf_context \<Rightarrow> device \<times> sync_point \<times> u16 \<times> u64 \<times> bool \<times> u16 \<times> (nat \<Rightarrow> int) \<times> nat" where
  "ctx_key x = (cx_device x, cx_sync_point x, cx_p2p_tr x, cx_user_hdl x, cx_malloc_ok x,
     ch_id (cx_chan x), ch_kernel (cx_chan x), length (ch_cmd_ringbufs (cx_chan x)))"

definition head_update :: "h2c_msg \<Rightarrow> bool" where
  "head_update m = (case m of H2C_RbUpdate _ _ _ \<Rightarrow> True | _ \<Rightarrow> False)"

definition commands :: "inf_context \<Rightarrow> h2c_msg list" where
  "commands x = filter (\<lambda>m. \<not> head_update m) (ch_sent (cx_chan x))"

text \<open>The entries of the object database that are objects: none has been added.\<close>

definition entries :: "('k \<times> addr) list \<Rightarrow> ('k \<times> addr) set" where
  "entries m = {(k, a) \<in> set m. a \<noteq> null}"

definition db_sub :: "objdb \<Rightarrow> objdb \<Rightarrow> bool" where
  "db_sub db db' \<longleftrightarrow> entries (db_copies db') \<subseteq> entries (db_copies db) \<and> entries (db_networks db') \<subseteq> entries (db_networks db)
     \<and> entries (db_infreqs db') \<subseteq> entries (db_infreqs db) \<and> entries (db_cmdlists db') \<subseteq> entries (db_cmdlists db)"

lemma db_sub_refl [simp]: "db_sub db db"
  by (simp add: db_sub_def)

lemma db_sub_trans: "db_sub db db1 \<Longrightarrow> db_sub db1 db2 \<Longrightarrow> db_sub db db2"
  unfolding db_sub_def by blast

lemma set_omap_erase: "set (omap_erase k m) \<subseteq> set m"
  by (induction k m rule: omap_erase.induct) auto

lemma set_omap_update: "set (omap_update k v m) \<subseteq> insert (k, v) (set m)"
  by (induction k v m rule: omap_update.induct) auto

lemma entries_map: "entries (omap_erase k m) \<subseteq> entries m" "entries (snd (omap_get k m)) \<subseteq> entries m"
  "entries (omap_update k v m) \<subseteq> insert (k, v) (entries m)"
  using set_omap_erase [of k m] set_omap_update [of k null m] set_omap_update [of k v m]
  by (auto simp: entries_def omap_get_def split: option.splits)

lemma db_sub_remove [simp]:
  "db_sub db (removeCopy i db)" "db_sub db (removeDevNet i db)" "db_sub db (removeInfReq j i db)"
  "db_sub db (removeCommandList i db)" "db_sub db (clearAll db)"
  using entries_map(1) by (simp_all add: db_sub_def objdb_defs) (simp_all add: entries_def)

lemma db_sub_get [simp]:
  "db_sub db (snd (getCopy i db))" "db_sub db (snd (getDevNet i db))" "db_sub db (snd (getInfReq j i db))"
  "db_sub db (snd (getCommandList i db))"
proof -
  have sub: "entries (db_copies (snd (getCopy i db))) \<subseteq> entries (db_copies db)"
    "entries (db_networks (snd (getDevNet i db))) \<subseteq> entries (db_networks db)"
    "entries (db_infreqs (snd (getInfReq j i db))) \<subseteq> entries (db_infreqs db)"
    "entries (db_cmdlists (snd (getCommandList i db))) \<subseteq> entries (db_cmdlists db)"
    by (simp_all add: entries_map(2) getCopy_def getDevNet_def getInfReq_def getCommandList_def case_prod_unfold)
  show "db_sub db (snd (getCopy i db))" using sub(1) by (simp add: db_sub_def) (simp add: getCopy_def case_prod_unfold)
  show "db_sub db (snd (getDevNet i db))" using sub(2) by (simp add: db_sub_def) (simp add: getDevNet_def case_prod_unfold)
  show "db_sub db (snd (getInfReq j i db))" using sub(3) by (simp add: db_sub_def) (simp add: getInfReq_def case_prod_unfold)
  show "db_sub db (snd (getCommandList i db))" using sub(4) by (simp add: db_sub_def) (simp add: getCommandList_def case_prod_unfold)
qed

text \<open>One context of the same channel, broken and killed if it was, having sent head updates only.\<close>

definition ctx_quiet :: "inf_context \<Rightarrow> inf_context \<Rightarrow> bool" where
  "ctx_quiet x y \<longleftrightarrow> ctx_key y = ctx_key x \<and> (ctx_broken x \<longrightarrow> ctx_broken y)
     \<and> (ch_killed (cx_chan x) \<longrightarrow> ch_killed (cx_chan y))
     \<and> commands y = commands x \<and> db_sub (cx_objdb x) (cx_objdb y)"

definition quiet :: "addr \<Rightarrow> proc \<Rightarrow> proc \<Rightarrow> bool" where
  "quiet c s s' \<longleftrightarrow>
     o_devres s' = o_devres s \<and> o_infreqs s' = o_infreqs s \<and> o_next s' = o_next s
     \<and> copy_key \<circ> o_copies s' = copy_key \<circ> o_copies s
     \<and> net_key \<circ> o_devnets s' = net_key \<circ> o_devnets s
     \<and> list_key \<circ> p_cmdlists s' = list_key \<circ> p_cmdlists s
     \<and> (\<forall>d. d \<noteq> c \<longrightarrow> p_ctxs s' d = p_ctxs s d)
     \<and> ctx_quiet (p_ctxs s c) (p_ctxs s' c)"

lemma ctx_quiet_refl [simp]: "ctx_quiet x x"
  by (simp add: ctx_quiet_def)

lemma ctx_quiet_trans: "ctx_quiet x y \<Longrightarrow> ctx_quiet y z \<Longrightarrow> ctx_quiet x z"
  unfolding ctx_quiet_def using db_sub_trans by metis

lemma quiet_refl [simp]: "quiet c s s"
  by (simp add: quiet_def)

lemma quiet_trans: "quiet c s t \<Longrightarrow> quiet c t u \<Longrightarrow> quiet c s u"
  unfolding quiet_def using ctx_quiet_trans by auto

text \<open>An operation that may only do what the response thread does.\<close>

definition stays_quiet :: "addr \<Rightarrow> proc \<Rightarrow> proc outcome \<Rightarrow> bool" where
  "stays_quiet c s r \<longleftrightarrow> (\<forall>s'. r = Done s' \<longrightarrow> quiet c s s')"

lemma stays_quietI: "(\<And>s'. r = Done s' \<Longrightarrow> quiet c s s') \<Longrightarrow> stays_quiet c s r"
  by (simp add: stays_quiet_def)

lemma stays_quiet_simps [simp]:
  "stays_quiet c s (Done s') = quiet c s s'" "stays_quiet c s Waits" "stays_quiet c s Loops"
  "stays_quiet c s Undefined"
  by (auto simp: stays_quiet_def)

lemma stays_quiet_obind:
  assumes "\<And>x. r = Done x \<Longrightarrow> quiet c s (g x)"
    and "\<And>x. r = Done x \<Longrightarrow> stays_quiet c (g x) (f x)"
  shows "stays_quiet c s (obind r f)"
  using assms by (cases r) (auto simp: stays_quiet_def intro: quiet_trans)

lemma stays_quiet_then:
  assumes "stays_quiet c s r" and "\<And>t. quiet c s t \<Longrightarrow> stays_quiet c t (f t)"
  shows "stays_quiet c s (obind r f)"
  using assms by (cases r) (auto simp: stays_quiet_def intro: quiet_trans)

lemma stays_quiet_after: "quiet c s t \<Longrightarrow> stays_quiet c t r \<Longrightarrow> stays_quiet c s r"
  by (auto simp: stays_quiet_def intro: quiet_trans)

section \<open>Updates of the state\<close>

lemma quiet_upd_ctx: "ctx_quiet (p_ctxs s c) (f (p_ctxs s c)) \<Longrightarrow> quiet c s (upd_ctx c f s)"
  by (simp add: quiet_def)

lemma quiet_upd_ctx_keep:
  assumes "cx_chan (f (p_ctxs s c)) = cx_chan (p_ctxs s c)" "ctx_key (f (p_ctxs s c)) = ctx_key (p_ctxs s c)"
    "ctx_broken (p_ctxs s c) \<Longrightarrow> ctx_broken (f (p_ctxs s c))" "db_sub (cx_objdb (p_ctxs s c)) (cx_objdb (f (p_ctxs s c)))"
  shows "quiet c s (upd_ctx c f s)"
  using assms by (intro quiet_upd_ctx) (simp add: ctx_quiet_def commands_def)

lemma quiet_upd_db: "db_sub (cx_objdb (p_ctxs s c)) (f (cx_objdb (p_ctxs s c))) \<Longrightarrow> quiet c s (upd_db c f s)"
  unfolding upd_db_def by (rule quiet_upd_ctx_keep) (simp_all add: ctx_key_def ctx_broken_def)

lemma quiet_remove [simp]: "quiet c s (upd_db c (removeCopy i) s)" "quiet c s (upd_db c (removeDevNet i) s)"
  "quiet c s (upd_db c (removeInfReq j i) s)" "quiet c s (upd_db c (removeCommandList i) s)" "quiet c s (upd_db c clearAll s)"
  by (simp_all add: quiet_upd_db)

lemma quiet_upd_list:
  "list_key (f (p_cmdlists s a)) = list_key (p_cmdlists s a) \<Longrightarrow> quiet c s (upd_list a f s)"
  by (auto simp: quiet_def upd_list_def fun_eq_iff)

lemma quiet_lookup:
  assumes "db_lookup c get s = (a, s')" "\<And>db. db_sub db (snd (get db))"
  shows "quiet c s s'"
proof -
  obtain a db where "get (cx_objdb (p_ctxs s c)) = (a, db)" by fastforce
  then show ?thesis using assms(1) assms(2) [of "cx_objdb (p_ctxs s c)"] by (auto simp: db_lookup_def intro!: quiet_upd_db)
qed

lemma quiet_db_lookup: "db_lookup c (getCopy i) s = (a, s') \<Longrightarrow> quiet c s s'"
  "db_lookup c (getDevNet i) s = (a, s') \<Longrightarrow> quiet c s s'" "db_lookup c (getInfReq j i) s = (a, s') \<Longrightarrow> quiet c s s'"
  "db_lookup c (getCommandList i) s = (a, s') \<Longrightarrow> quiet c s s'"
  by (erule quiet_lookup; simp)+

lemma quiet_hostres [simp]: "quiet c s (s\<lparr>o_hostres := h\<rparr>)"
  by (simp add: quiet_def)

lemma quiet_upd_chan:
  assumes "ch_id (f (cx_chan (p_ctxs s c))) = ch_id (cx_chan (p_ctxs s c))"
    "ch_kernel (f (cx_chan (p_ctxs s c))) = ch_kernel (cx_chan (p_ctxs s c))"
    "length (ch_cmd_ringbufs (f (cx_chan (p_ctxs s c)))) = length (ch_cmd_ringbufs (cx_chan (p_ctxs s c)))"
    "ch_killed (cx_chan (p_ctxs s c)) \<Longrightarrow> ch_killed (f (cx_chan (p_ctxs s c)))"
    "filter (\<lambda>m. \<not> head_update m) (ch_sent (f (cx_chan (p_ctxs s c)))) = commands (p_ctxs s c)"
  shows "quiet c s (upd_chan c f s)"
  unfolding upd_chan_def using assms
  by (intro quiet_upd_ctx) (simp add: ctx_quiet_def ctx_key_def ctx_broken_def commands_def)

lemma quiet_put_errors: "quiet c s (put_errors c tg l s)"
proof (cases tg)
  case To_Context
  show ?thesis unfolding To_Context put_errors.simps
    by (rule quiet_upd_ctx_keep) (simp_all add: ctx_key_def ctx_broken_def)
next
  case (To_List a)
  show ?thesis unfolding To_List put_errors.simps
    by (rule quiet_upd_list) (simp add: list_key_def)
qed


section \<open>Copies and command lists\<close>

text \<open>Giving back locks changes host resources and the scheduling state of copies, nothing else.\<close>

definition copies_only :: "'a objects_scheme \<Rightarrow> 'a objects_scheme \<Rightarrow> bool" where
  "copies_only s s' \<longleftrightarrow> (\<exists>h k. s' = s\<lparr>o_hostres := h, o_copies := k\<rparr>) \<and>
     copy_key \<circ> o_copies s' = copy_key \<circ> o_copies s"

lemma copies_only_refl [simp]: "copies_only s s"
proof -
  have "s = s\<lparr>o_hostres := o_hostres s, o_copies := o_copies s\<rparr>" by simp
  then show ?thesis unfolding copies_only_def by metis
qed

lemma copies_only_trans:
  assumes "copies_only s t" and "copies_only t u"
  shows "copies_only s u"
proof -
  from assms obtain h k h' k' where "t = s\<lparr>o_hostres := h, o_copies := k\<rparr>"
    "u = t\<lparr>o_hostres := h', o_copies := k'\<rparr>" unfolding copies_only_def by blast
  then have "u = s\<lparr>o_hostres := h', o_copies := k'\<rparr>" by simp
  then show ?thesis using assms unfolding copies_only_def by metis
qed

lemma copies_only_quiet: "copies_only s s' \<Longrightarrow> quiet c s s'"
  by (auto simp: copies_only_def quiet_def)

lemma copies_only_update [simp]:
  assumes "copy_key cp = copy_key (o_copies s a)"
  shows "copies_only s (s\<lparr>o_hostres := h, o_copies := (o_copies s)(a := cp)\<rparr>)"
    and "copies_only s (s\<lparr>o_copies := (o_copies s)(a := cp), o_hostres := h\<rparr>)"
    and "copies_only s (s\<lparr>o_copies := (o_copies s)(a := cp)\<rparr>)"
proof -
  show *: "copies_only s (s\<lparr>o_hostres := h, o_copies := (o_copies s)(a := cp)\<rparr>)" for h
    unfolding copies_only_def using assms by (auto simp: fun_eq_iff)
  show "copies_only s (s\<lparr>o_copies := (o_copies s)(a := cp), o_hostres := h\<rparr>)"
    using * [of h] by (cases s) simp
  show "copies_only s (s\<lparr>o_copies := (o_copies s)(a := cp)\<rparr>)"
    using * [of "o_hostres s"] by (cases s) simp
qed

lemma copies_only_hostres [simp]: "copies_only s (s\<lparr>o_hostres := h\<rparr>)"
  using copies_only_update(1) [of "o_copies s undefined" s undefined h] by simp

lemma pre_schedule_on_frame: "pre_schedule_on hr a s = Done (r, s') \<Longrightarrow> copies_only s s'"
  unfolding pre_schedule_on_def Let_def
  by (auto split: if_splits prod.splits simp: heap_defs copy_key_def)

lemma post_schedule_frame: "post_schedule el a s = Done (el', s') \<Longrightarrow> copies_only s s'"
  unfolding post_schedule_def Let_def
  by (auto split: if_splits prod.splits simp: heap_defs copy_key_def)

lemma post_schedule_returns: "post_schedule el a s \<noteq> Waits \<and> post_schedule el a s \<noteq> Loops"
  by (simp add: post_schedule_def Let_def split: prod.splits)

lemma done_copies_frame: "done_copies el as s = Done (el', s') \<Longrightarrow> copies_only s s'"
proof (induction as arbitrary: el s)
  case (Cons a as)
  then obtain el1 s1 where "post_schedule el a s = Done (el1, s1)"
    "done_copies el1 as s1 = Done (el', s')" by (auto simp: obind_Done_iff)
  then show ?case using post_schedule_frame Cons.IH copies_only_trans by blast
qed simp

lemma schedule_done_frame: "schedule_done el x s = Done (el', s') \<Longrightarrow> copies_only s s'"
  by (cases x) (auto simp: post_schedule_frame done_copies_frame split: if_splits)

lemma with_errors_quiet:
  assumes "\<And>el el' s'. f el s = Done (el', s') \<Longrightarrow> quiet c s s'"
  shows "stays_quiet c s (with_errors c t f s)"
proof (rule stays_quietI)
  fix s' assume "with_errors c t f s = Done s'"
  then have "\<exists>el el' s1. f el s = Done (el', s1) \<and> (s' = s1 \<or> (\<exists>tg l. s' = put_errors c tg l s1))"
    by (force simp: with_errors_def obind_Done_iff split: option.splits)
  then show "quiet c s s'" using assms quiet_trans quiet_put_errors by blast
qed

lemma list_update_quiet:
  "(\<And>l. list_key (f l) = list_key l) \<Longrightarrow> stays_quiet c s (list_update_locked a f s)"
  by (simp add: list_update_locked_def quiet_upd_list)

lemma complete_quiet: "stays_quiet c s (complete a s)"
  unfolding complete_def by (rule list_update_quiet) (simp add: list_key_def)

lemma addError_quiet: "stays_quiet c s (addError a s)"
  unfolding addError_def by (rule list_update_quiet) (simp add: list_key_def)

lemma fail_copies_quiet: "stays_quiet c s (fail_copies c as s)"
proof (induction as arbitrary: s)
  case (Cons a as)
  have "stays_quiet c s (with_errors c (Some To_Context) (\<lambda>el. post_schedule el a) s)"
    by (rule with_errors_quiet) (blast intro: copies_only_quiet post_schedule_frame)
  then show ?case by (simp add: stays_quiet_then Cons.IH)
qed simp

lemma failAll_quiet: "stays_quiet c s (failAllScheduledCopyCommands c s)"
  by (simp add: failAllScheduledCopyCommands_def fail_copies_quiet)

lemma complete_lists_quiet: "stays_quiet c s (complete_lists as s)"
  by (induction as arbitrary: s) (simp_all add: stays_quiet_then complete_quiet)

lemma completeAll_quiet: "stays_quiet c s (completeAllCommandLists c s)"
  by (simp add: completeAllCommandLists_def complete_lists_quiet)


section \<open>The handlers\<close>

lemma quiet_chan_keep:
  assumes "\<And>ch. ch_id (f ch) = ch_id ch" "\<And>ch. ch_kernel (f ch) = ch_kernel ch"
    "\<And>ch. length (ch_cmd_ringbufs (f ch)) = length (ch_cmd_ringbufs ch)"
    "\<And>ch. ch_killed ch \<Longrightarrow> ch_killed (f ch)" "\<And>ch. ch_sent (f ch) = ch_sent ch"
  shows "quiet c s (upd_chan c f s)"
  by (rule quiet_upd_chan) (simp_all add: assms commands_def)

lemma quiet_ctx_keep:
  assumes "\<And>x. cx_chan (f x) = cx_chan x" "\<And>x. ctx_key (f x) = ctx_key x"
    "\<And>x. ctx_broken x \<Longrightarrow> ctx_broken (f x)" "\<And>x. cx_objdb (f x) = cx_objdb x"
  shows "quiet c s (upd_ctx c f s)"
  by (rule quiet_upd_ctx_keep) (simp_all add: assms)

lemma quiet_resp_ring: "quiet c s (set_resp_ring c rb s)"
  unfolding set_resp_ring_def by (rule quiet_chan_keep) simp_all

lemma quiet_dma_store: "quiet c s (dma_store c bs s)"
  by (auto simp: dma_store_def quiet_resp_ring split: option.splits)

lemma quiet_head_send: "quiet c s (snd (sendResponseRingBufferHeadUpdate c i sz s))"
  by (auto simp: sendResponseRingBufferHeadUpdate_def sys_write_def Let_def head_update_def
      commands_def intro!: quiet_upd_chan)

lemma append_packet_quiet: "stays_quiet c s (append_packet c tg p n ev s)"
  by (auto simp: append_packet_def intro!: stays_quietI simp: obind_Done_iff quiet_put_errors)

lemma exec_error_packet_quiet: "stays_quiet c s (exec_error_packet c tg clr psz tot err s)"
proof -
  have one: "stays_quiet c s (obind (append_packet c tg p n ev (set_resp_ring c rb s))
      (\<lambda>s1. Done (snd (sendResponseRingBufferHeadUpdate c i sz (set_resp_ring c (g s1) s1)))))"
    for p n ev rb i sz g
    by (rule stays_quiet_after [OF quiet_resp_ring], rule stays_quiet_then [OF append_packet_quiet])
      (simp add: quiet_trans [OF quiet_resp_ring quiet_head_send])
  show ?thesis
    unfolding exec_error_packet_def
    by (auto split: option.splits prod.splits simp: append_packet_quiet one
        stays_quiet_after [OF quiet_resp_ring append_packet_quiet]
        intro!: quiet_trans [OF quiet_hostres quiet_put_errors])
qed

lemma processExecErrorList_quiet: "stays_quiet c s (processExecErrorList c i v clr psz tot err s)"
proof -
  have rest: "stays_quiet c t (if v then (case db_lookup c (getCommandList i) t of
        (a, s2) \<Rightarrow> if a = null then Done s2 else exec_error_packet c (To_List a) clr psz tot err s2)
      else exec_error_packet c To_Context clr psz tot err t)" for t
    by (auto split: prod.splits simp: exec_error_packet_quiet quiet_db_lookup
        intro: stays_quiet_after [OF quiet_db_lookup(4) exec_error_packet_quiet])
  show ?thesis
    unfolding processExecErrorList_def Let_def
    by (rule stays_quiet_then [OF _ rest]) (simp split: option.splits add: quiet_resp_ring)
qed

lemma process_create_reply_quiet: "quiet c s (snd (process_create_reply c ev s))"
  unfolding process_create_reply_def
  by (auto split: option.splits simp: ctx_key_def ctx_broken_def intro!: quiet_ctx_keep)

lemma quiet_then_complete: "quiet c s (then_complete c k s)"
  unfolding then_complete_def by (rule quiet_chan_keep) simp_all

lemma quiet_critical:
  "(\<And>x. cx_critical_error x \<noteq> None \<Longrightarrow> g x \<noteq> None) \<Longrightarrow>
     quiet c s (upd_ctx c (\<lambda>x. x\<lparr>cx_critical_error := g x\<rparr>) s)"
  by (rule quiet_ctx_keep) (simp_all add: ctx_key_def ctx_broken_def)

lemma quiet_set_critical: "quiet c s (set_critical c ev s)"
  unfolding set_critical_def by (rule quiet_critical) simp

lemma handle_fatal_quiet: "stays_quiet c s (handle_fatal c ev s)"
proof -
  have a: "quiet c t (then_complete c k (set_critical c ev t))" for k t
    using quiet_trans [OF quiet_set_critical quiet_then_complete] .
  have b: "quiet c t (then_complete c k (upd_ctx c (\<lambda>x. x\<lparr>cx_critical_error :=
      (if cx_critical_error x = None then Some ev else cx_critical_error x)\<rparr>) t))" for k t
    by (rule quiet_trans [OF quiet_critical quiet_then_complete]) simp
  have d: "quiet c t (upd_chan c (\<lambda>ch. ch\<lparr>ch_kill_on_exit := True\<rparr>) t)" for t
    by (rule quiet_chan_keep) simp_all
  show ?thesis unfolding handle_fatal_def
    by (auto simp: a b d intro!: stays_quiet_then failAll_quiet)
qed

lemma post_quiet: "stays_quiet c s (with_errors c t (\<lambda>el. post_schedule el a) s)"
  by (rule with_errors_quiet) (blast intro: copies_only_quiet post_schedule_frame)

lemma done_quiet: "stays_quiet c s (with_errors c t (\<lambda>el. schedule_done el x) s)"
  by (rule with_errors_quiet) (blast intro: copies_only_quiet schedule_done_frame)

lemmas quiet_steps = post_quiet done_quiet complete_quiet addError_quiet failAll_quiet
  completeAll_quiet quiet_remove quiet_refl

lemma handle_copy_event_quiet: "stays_quiet c s (handle_copy_event c ev s)"
proof -
  have lookup: "quiet c t u" if "(if b then db_lookup c (getCommandList i) t else (null, t)) = (l, u)" for b i t l u
    using that quiet_db_lookup(4) by (cases b) auto
  show ?thesis
    unfolding handle_copy_event_def
    by (auto split: prod.splits dest!: quiet_db_lookup lookup intro: quiet_trans
        intro!: stays_quiet_then quiet_steps elim!: stays_quiet_after [OF quiet_trans])
qed


lemma handle_copylist_event_quiet: "stays_quiet c s (handle_copylist_event c ev s)"
  unfolding handle_copylist_event_def Let_def
  by (auto split: prod.splits dest!: quiet_db_lookup
      intro!: stays_quiet_then quiet_steps elim!: stays_quiet_after)

lemma handle_cmd_complete_quiet: "stays_quiet c s (handle_cmd_complete c ev s)"
  unfolding handle_cmd_complete_def
  by (auto split: prod.splits dest!: quiet_db_lookup
      intro!: stays_quiet_then quiet_steps elim!: stays_quiet_after)

lemma handle_credit_failed_quiet: "stays_quiet c s (handle_credit_failed c ev s)"
  unfolding handle_credit_failed_def
  by (auto split: prod.splits dest!: quiet_db_lookup
      intro!: quiet_steps elim!: stays_quiet_after)

lemma quiet_ida: "quiet c s (upd_ctx c (\<lambda>x. x\<lparr>cx_devres_ida := g x\<rparr>) s)"
  "quiet c s (upd_ctx c (\<lambda>x. x\<lparr>cx_devnet_ida := g x\<rparr>) s)"
  "quiet c s (upd_ctx c (\<lambda>x. x\<lparr>cx_copy_ida := g x\<rparr>) s)"
  "quiet c s (upd_ctx c (\<lambda>x. x\<lparr>cx_cmdlist_ida := g x\<rparr>) s)"
  "quiet c s (upd_ctx c (\<lambda>x. x\<lparr>cx_this := False\<rparr>) s)"
  "quiet c s (upd_ctx c (\<lambda>x. x\<lparr>cx_failed_syncs := h x\<rparr>) s)"
  "quiet c s (upd_ctx c (\<lambda>x. x\<lparr>cx_last_completed := k x\<rparr>) s)"
  by (rule quiet_ctx_keep; simp add: ctx_key_def ctx_broken_def)+

lemma destroyed_quiet: "quiet c s (handle_devres_destroyed c ev s)"
  "quiet c s (handle_devnet_destroyed c ev s)" "quiet c s (handle_copy_destroyed c ev s)"
  "quiet c s (handle_cmd_destroyed c ev s)"
  unfolding handle_devres_destroyed_def handle_devnet_destroyed_def handle_copy_destroyed_def
    handle_cmd_destroyed_def
  by (auto split: prod.splits dest!: quiet_db_lookup simp: quiet_ida
      intro: quiet_trans [OF _ quiet_ida(2)] quiet_trans [OF _ quiet_ida(3)] quiet_trans [OF _ quiet_ida(4)]
        quiet_trans [OF _ quiet_trans [OF quiet_remove(2) quiet_ida(2)]]
        quiet_trans [OF _ quiet_trans [OF quiet_remove(1) quiet_ida(3)]]
        quiet_trans [OF _ quiet_trans [OF quiet_remove(4) quiet_ida(4)]])

lemma quiet_net_ida: "quiet c s (set_devnet a ((o_devnets s a)\<lparr>dn_infreq_ida := i\<rparr>) s)"
  by (auto simp: quiet_def set_devnet_def net_key_def fun_eq_iff)

lemma infreq_destroyed_quiet: "quiet c s (handle_infreq_destroyed c ev s)"
  unfolding handle_infreq_destroyed_def Let_def
  by (auto split: prod.splits dest!: quiet_db_lookup
      intro: quiet_trans [OF _ quiet_trans [OF quiet_remove(3) quiet_net_ida]])

lemma quiet_rings: "quiet c s (upd_chan c (\<lambda>ch. ch\<lparr>ch_cmd_ringbufs := (ch_cmd_ringbufs ch)[i := r]\<rparr>) s)"
  "quiet c s (upd_chan c (\<lambda>ch. ch\<lparr>ch_cmd_ringbufs := map f (ch_cmd_ringbufs ch)\<rparr>) s)"
  "quiet c s (upd_chan c (\<lambda>ch. ch\<lparr>ch_inbox := l\<rparr>) s)"
  "quiet c s (upd_chan c (\<lambda>ch. ch\<lparr>ch_this := False, ch_running := False\<rparr>) s)"
  "quiet c s (upd_chan c (\<lambda>ch. ch\<lparr>ch_running := False\<rparr>) s)"
  "quiet c s (upd_chan c (\<lambda>ch. ch\<lparr>ch_killed := True\<rparr>) s)"
  by (rule quiet_chan_keep; simp)+

text \<open>The event branch: every handler in turn.\<close>

definition quiet_event :: "addr \<Rightarrow> proc \<Rightarrow> (bool \<times> proc) outcome \<Rightarrow> bool" where
  "quiet_event c s r \<longleftrightarrow> (\<forall>b s'. r = Done (b, s') \<longrightarrow> quiet c s s')"

lemma quiet_event_simps [simp]:
  "quiet_event c s (Done (b, s')) = quiet c s s'" "quiet_event c s Undefined" "quiet_event c s Waits"
  by (auto simp: quiet_event_def)

lemma quiet_event_then: "stays_quiet c s r \<Longrightarrow> quiet_event c s (obind r (\<lambda>s. Done (b, s)))"
  by (auto simp: quiet_event_def stays_quiet_def obind_Done_iff)

lemma quiet_event_after: "quiet c s t \<Longrightarrow> quiet_event c t r \<Longrightarrow> quiet_event c s r"
  by (auto simp: quiet_event_def intro: quiet_trans)

lemma handle_event_quiet: "quiet_event c s (handle_event c ev s)"
  unfolding handle_event_def Let_def
  by (auto simp: destroyed_quiet infreq_destroyed_quiet quiet_ida process_create_reply_quiet
      intro!: quiet_event_then handle_fatal_quiet handle_copy_event_quiet handle_copylist_event_quiet
        handle_cmd_complete_quiet handle_credit_failed_quiet split: if_splits)

lemma handle_ringbuff_head_update_quiet: "quiet c s (handle_ringbuff_head_update c i sz s)"
  unfolding handle_ringbuff_head_update_def Let_def
  by (auto simp: quiet_rings split: option.splits)

lemma handle_msg_quiet: "quiet_event c s (handle_msg c m s)"
proof (cases m)
  case (C2H_InfReqFailed ch net req cmd reason valid)
  then show ?thesis
    by (auto split: prod.splits dest!: quiet_db_lookup intro!: quiet_event_then quiet_steps
        elim!: quiet_event_after)
next
  case (C2H_ExecErrorList ch cmd v clr psz tot err)
  then show ?thesis by (simp add: quiet_event_then processExecErrorList_quiet)
qed (simp_all add: handle_ringbuff_head_update_quiet quiet_ida handle_event_quiet)


section \<open>The thread and the waits\<close>

lemma exit_normal_quiet: "quiet c s (exit_normal c s)"
  unfolding exit_normal_def invalidate_rings_def by (rule quiet_trans [OF quiet_rings(2) quiet_rings(4)])

lemma killed_begin_quiet: "quiet_event c s (killed_begin c u s)"
proof -
  let ?s1 = "upd_chan c (\<lambda>ch. ch\<lparr>ch_killed := True\<rparr>) (if u then s else invalidate_rings c s)"
  have k: "quiet c t (set_killed c t)" for t
    unfolding set_killed_def by (rule quiet_critical) simp
  have "quiet c s ?s1"
    using quiet_rings(6) quiet_trans [OF quiet_rings(2) quiet_rings(6)]
    by (auto simp: invalidate_rings_def)
  moreover have "quiet_event c t (obind (failAllScheduledCopyCommands c t) (\<lambda>s2. Done (b s2, set_killed c s2)))"
    for t b
    unfolding quiet_event_def
  proof (intro allI impI)
    fix w s' assume "obind (failAllScheduledCopyCommands c t) (\<lambda>s2. Done (b s2, set_killed c s2)) = Done (w, s')"
    then obtain s2 where "failAllScheduledCopyCommands c t = Done s2" "s' = set_killed c s2"
      by (auto simp: obind_Done_iff)
    then show "quiet c t s'" using failAll_quiet [of c t] quiet_trans [OF _ k] by (simp add: stays_quiet_def)
  qed
  ultimately show ?thesis unfolding killed_begin_def Let_def by (rule quiet_event_after)
qed

lemma killed_end_quiet: "quiet c s (killed_end c s)"
  unfolding killed_end_def
  by (rule quiet_trans [OF quiet_trans [OF quiet_remove(5) quiet_ida(5)] quiet_rings(4)])

lemma complete_rest_quiet: "quiet c s (complete_rest k c s)"
  by (cases k) (auto simp: killed_end_quiet
      intro: quiet_trans [OF quiet_trans [OF quiet_remove(5) quiet_ida(5)] exit_normal_quiet])

lemma quiet_event_finish:
  assumes "quiet_event c s r" and "\<And>b t. quiet c t (f b t)"
  shows "stays_quiet c s (obind r (\<lambda>(b, t). Done (f b t)))"
proof (rule stays_quietI)
  fix s' assume "obind r (\<lambda>(b, t). Done (f b t)) = Done s'"
  then obtain b t where "r = Done (b, t)" and s': "s' = f b t" by (auto simp: obind_Done_iff)
  then have "quiet c s t" using assms(1) by (simp add: quiet_event_def)
  then show "quiet c s s'" unfolding s' using assms(2) by (rule quiet_trans)
qed

lemma handle_next_quiet: "stays_quiet c s (handle_next c s)"
proof (cases "ch_inbox (cx_chan (p_ctxs s c))")
  case Nil
  then show ?thesis by (simp add: handle_next_def)
next
  case (Cons it rest)
  let ?s0 = "upd_chan c (\<lambda>ch. ch\<lparr>ch_inbox := rest\<rparr>) s"
  have q0: "quiet c s ?s0" by (rule quiet_rings)
  have msg: "stays_quiet c s (obind (handle_msg c m (dma_store c dma ?s0)) (\<lambda>(ex, s1).
      Done (if ex then exit_normal c s1 else s1)))" for m dma
    by (rule stays_quiet_after [OF quiet_trans [OF q0 quiet_dma_store]],
        rule quiet_event_finish [OF handle_msg_quiet]) (simp add: exit_normal_quiet)
  have kill: "stays_quiet c s (obind (killed_begin c False ?s0) (\<lambda>(wake, s1).
      Done (if wake then then_complete c Killed s1 else killed_end c s1)))"
    by (rule stays_quiet_after [OF q0], rule quiet_event_finish [OF killed_begin_quiet])
      (simp add: quiet_then_complete killed_end_quiet)
  have rest: "stays_quiet c s (obind (completeAllCommandLists c ?s0) (\<lambda>s1. Done (complete_rest k c s1)))" for k
    by (rule stays_quiet_after [OF q0], rule stays_quiet_then [OF completeAll_quiet])
      (simp add: complete_rest_quiet)
  show ?thesis
    unfolding handle_next_def Let_def Cons list.case
    using msg kill rest by (simp split: resp_item.split)
qed

lemma pump_quiet: "stays_quiet c s (pump n cond c s)"
  by (induction n arbitrary: s) (simp_all add: stays_quiet_then handle_next_quiet)

lemma pump_cond: "pump n cond c s = Done s' \<Longrightarrow> cond s'"
  by (induction n arbitrary: s) (auto simp: obind_Done_iff split: if_splits)

lemma pump_timed_quiet: "pump_timed n cond c s = Done (b, s') \<Longrightarrow> quiet c s s'"
proof (induction n arbitrary: s)
  case (Suc n)
  show ?case
  proof (cases "cond s")
    case True
    then show ?thesis using Suc.prems by simp
  next
    case False
    show ?thesis
    proof (cases "handle_next c s")
      case (Done t)
      then have "quiet c s t" using handle_next_quiet [of c s] by (simp add: stays_quiet_def)
      moreover have "quiet c t s'" using Suc False Done by simp
      ultimately show ?thesis by (rule quiet_trans)
    qed (use Suc.prems False in simp_all)
  qed
qed simp

lemma wait_for_Done: "wait_for cond c s = Done s' \<Longrightarrow> quiet c s s' \<and> cond s'"
  unfolding wait_for_def using pump_quiet pump_cond by (auto simp: stays_quiet_def)

lemma wait_timeout_Done: "wait_timeout us n cond c s = Done (b, s') \<Longrightarrow> quiet c s s'"
  by (auto simp: wait_timeout_def obind_Done_iff dest: wait_for_Done pump_timed_quiet split: if_splits)

lemma wait_for_now: "cond s \<Longrightarrow> wait_for cond c s = Done s"
  unfolding wait_for_def by (cases "wait_steps c s") simp_all

text \<open>What stays the same, field by field.\<close>

lemma quiet_fields:
  assumes "quiet c s s'"
  shows "o_devres s' = o_devres s" "o_infreqs s' = o_infreqs s" "o_next s' = o_next s"
    "dn_ctx (o_devnets s' a) = dn_ctx (o_devnets s a)" "dn_id (o_devnets s' a) = dn_id (o_devnets s a)"
    "dn_devres_vec (o_devnets s' a) = dn_devres_vec (o_devnets s a)"
    "cp_ctx (o_copies s' a) = cp_ctx (o_copies s a)" "cp_id (o_copies s' a) = cp_id (o_copies s a)"
    "cp_is_d2d (o_copies s' a) = cp_is_d2d (o_copies s a)"
    "cp_is_subres (o_copies s' a) = cp_is_subres (o_copies s a)"
    "cp_c2h (o_copies s' a) = cp_c2h (o_copies s a)"
    "lst_ctx (p_cmdlists s' a) = lst_ctx (p_cmdlists s a)" "lst_id (p_cmdlists s' a) = lst_id (p_cmdlists s a)"
    "lst_vec (p_cmdlists s' a) = lst_vec (p_cmdlists s a)"
    "lst_finalized (p_cmdlists s' a) = lst_finalized (p_cmdlists s a)"
    "lst_num_edits (p_cmdlists s' a) = lst_num_edits (p_cmdlists s a)"
    "lst_locked (p_cmdlists s' a) = lst_locked (p_cmdlists s a)"
    "d \<noteq> c \<Longrightarrow> p_ctxs s' d = p_ctxs s d"
    "ctx_broken (p_ctxs s c) \<Longrightarrow> ctx_broken (p_ctxs s' c)"
    "cx_sync_point (p_ctxs s' c) = cx_sync_point (p_ctxs s c)"
    "cx_device (p_ctxs s' c) = cx_device (p_ctxs s c)"
    "ch_id (cx_chan (p_ctxs s' c)) = ch_id (cx_chan (p_ctxs s c))" "chan_of c s' = chan_of c s"
    "ch_kernel (cx_chan (p_ctxs s' c)) = ch_kernel (cx_chan (p_ctxs s c))"
    "length (ch_cmd_ringbufs (cx_chan (p_ctxs s' c))) = length (ch_cmd_ringbufs (cx_chan (p_ctxs s c)))"
proof -
  have k: "copy_key (o_copies s' a) = copy_key (o_copies s a)" "net_key (o_devnets s' a) = net_key (o_devnets s a)"
    "list_key (p_cmdlists s' a) = list_key (p_cmdlists s a)"
    using assms unfolding quiet_def by (metis comp_apply)+
  show "dn_ctx (o_devnets s' a) = dn_ctx (o_devnets s a)" "dn_id (o_devnets s' a) = dn_id (o_devnets s a)"
    "dn_devres_vec (o_devnets s' a) = dn_devres_vec (o_devnets s a)"
    using arg_cong [OF k(2), of dn_ctx] arg_cong [OF k(2), of dn_id] arg_cong [OF k(2), of dn_devres_vec]
    by (simp_all add: net_key_def)
  show "cp_ctx (o_copies s' a) = cp_ctx (o_copies s a)" "cp_id (o_copies s' a) = cp_id (o_copies s a)"
    "cp_is_d2d (o_copies s' a) = cp_is_d2d (o_copies s a)"
    "cp_is_subres (o_copies s' a) = cp_is_subres (o_copies s a)"
    "cp_c2h (o_copies s' a) = cp_c2h (o_copies s a)"
    using arg_cong [OF k(1), of cp_ctx] arg_cong [OF k(1), of cp_id] arg_cong [OF k(1), of cp_is_d2d]
      arg_cong [OF k(1), of cp_is_subres] arg_cong [OF k(1), of cp_c2h]
    by (simp_all add: copy_key_def)
  show "lst_ctx (p_cmdlists s' a) = lst_ctx (p_cmdlists s a)" "lst_id (p_cmdlists s' a) = lst_id (p_cmdlists s a)"
    "lst_vec (p_cmdlists s' a) = lst_vec (p_cmdlists s a)"
    "lst_finalized (p_cmdlists s' a) = lst_finalized (p_cmdlists s a)"
    "lst_num_edits (p_cmdlists s' a) = lst_num_edits (p_cmdlists s a)"
    "lst_locked (p_cmdlists s' a) = lst_locked (p_cmdlists s a)"
    using arg_cong [OF k(3), of lst_ctx] arg_cong [OF k(3), of lst_id] arg_cong [OF k(3), of lst_vec]
      arg_cong [OF k(3), of lst_finalized] arg_cong [OF k(3), of lst_num_edits] arg_cong [OF k(3), of lst_locked]
    by (simp_all add: list_key_def)
qed (use assms in \<open>auto simp: quiet_def ctx_quiet_def ctx_key_def chan_of_def\<close>)

section \<open>Sending\<close>

text \<open>Sending some messages, and otherwise only what the response thread does.\<close>

definition add_sent :: "addr \<Rightarrow> h2c_msg list \<Rightarrow> proc \<Rightarrow> proc" where
  "add_sent c ms = upd_chan c (\<lambda>ch. ch\<lparr>ch_sent := ch_sent ch @ ms\<rparr>)"

definition sends :: "addr \<Rightarrow> h2c_msg list \<Rightarrow> proc \<Rightarrow> proc \<Rightarrow> bool" where
  "sends c ms s s' \<longleftrightarrow> quiet c (add_sent c ms s) s'"

lemma add_sent_Nil [simp]: "add_sent c [] s = s"
  by (simp add: add_sent_def upd_chan_def upd_ctx_def)

lemma add_sent_add: "add_sent c ms' (add_sent c ms s) = add_sent c (ms @ ms') s"
  by (simp add: add_sent_def upd_chan_def upd_ctx_def)

lemma quiet_add_sent: "quiet c s t \<Longrightarrow> quiet c (add_sent c ms s) (add_sent c ms t)"
  by (simp add: quiet_def ctx_quiet_def ctx_key_def ctx_broken_def commands_def add_sent_def upd_chan_def)

lemma sends_Nil: "sends c [] = quiet c"
  by (simp add: sends_def fun_eq_iff)

lemma sends_trans: "sends c ms s t \<Longrightarrow> sends c ms' t u \<Longrightarrow> sends c (ms @ ms') s u"
  unfolding sends_def by (metis quiet_add_sent quiet_trans add_sent_add)

lemma quiet_sends: "quiet c s t \<Longrightarrow> sends c ms t u \<Longrightarrow> sends c ms s u"
  using sends_trans [of c "[]" s t ms u] by (simp add: sends_Nil)

lemma sends_quiet: "sends c ms s t \<Longrightarrow> quiet c t u \<Longrightarrow> sends c ms s u"
  using sends_trans [of c ms s t "[]" u] by (simp add: sends_Nil)

lemma sends_commands:
  "sends c ms s s' \<Longrightarrow>
     commands (p_ctxs s' c) = commands (p_ctxs s c) @ filter (\<lambda>m. \<not> head_update m) ms"
  by (simp add: sends_def quiet_def ctx_quiet_def commands_def add_sent_def upd_chan_def)

lemma sends_quiet_fields:
  assumes "sends c ms s s'"
  obtains t where "quiet c t s'" "p_cmdlists t = p_cmdlists s" "o_devnets t = o_devnets s"
    "o_copies t = o_copies s" "o_infreqs t = o_infreqs s" "o_devres t = o_devres s" "o_next t = o_next s"
    "ctx_key (p_ctxs t c) = ctx_key (p_ctxs s c)" "\<And>d. d \<noteq> c \<Longrightarrow> p_ctxs t d = p_ctxs s d"
proof
  show "quiet c (add_sent c ms s) s'" using assms by (simp add: sends_def)
qed (simp_all add: add_sent_def upd_chan_def ctx_key_def)

lemma ctx_send_sends:
  assumes "ctx_send c m s = (ok, s')"
  shows "sends c (if ok then [m] else []) s s'"
proof -
  obtain ch where ch: "chan_send m (cx_chan (p_ctxs s c)) = (ok, ch)" "s' = upd_chan c (\<lambda>_. ch) s"
    using assms by (auto simp: ctx_send_def split: prod.splits)
  have "ch_sent ch = ch_sent (cx_chan (p_ctxs s c)) @ (if ok then [m] else [])"
    using chan_send_sent [OF ch(1)] by simp
  moreover have "ch_id ch = ch_id (cx_chan (p_ctxs s c)) \<and> ch_kernel ch = ch_kernel (cx_chan (p_ctxs s c))
      \<and> ch_cmd_ringbufs ch = ch_cmd_ringbufs (cx_chan (p_ctxs s c)) \<and> ch_killed ch = ch_killed (cx_chan (p_ctxs s c))"
    using ch(1) by (auto simp: chan_send_def chan_write_def sys_write_def Let_def split: if_splits)
  ultimately show ?thesis
    unfolding sends_def ch(2) add_sent_def quiet_def ctx_quiet_def
    by (simp add: upd_chan_def ctx_key_def ctx_broken_def commands_def)
qed

end
