(* ===== verification/Inf_Context.thy ===== *)
theory Inf_Context
  imports Response_Handler
begin

text \<open>
  The operations of \<open>nnpiInfContext\<close> (\<open>nnpiInfContext.h\<close>, \<open>nnpiInfContext.cpp\<close>) that the API
  threads call: requests that wait for the card's answer, schedules that do not, markers,
  critical errors and recovery. \<open>c\<close> is the address of the context. An operation returns the
  error code and its output parameters with the state.
\<close>

section \<open>Requests with an answer\<close>

definition reply_ready :: "addr \<Rightarrow> obj_key \<Rightarrow> proc \<Rightarrow> bool" where
  "reply_ready c k s \<longleftrightarrow>
     reply_find k (cx_create_reply (p_ctxs s c)) \<noteq> None \<or> ctx_broken (p_ctxs s c)"

definition wait_create_command :: "addr \<Rightarrow> obj_key \<Rightarrow> proc \<Rightarrow> (event_report \<times> proc) outcome" where
  "wait_create_command c k s =
     obind (wait_for (reply_ready c k) c s) (\<lambda>s1.
       let x = p_ctxs s1 c
       in case cx_critical_error x of
            Some e \<Rightarrow> Done (e, s1)
          | None \<Rightarrow>
              Done (case reply_find k (cx_create_reply x) of Some ev \<Rightarrow> ev | None \<Rightarrow> zero_report,
                    upd_ctx c (\<lambda>x. x\<lparr>cx_create_reply := reply_erase k (cx_create_reply x)\<rparr>) s1))"

text \<open>\<open>None\<close> is the result -1: the command could not be written.\<close>

definition send_create_command ::
    "addr \<Rightarrow> h2c_msg \<Rightarrow> obj_key \<Rightarrow> proc \<Rightarrow> (event_report option \<times> proc) outcome" where
  "send_create_command c m k s =
     (case ctx_send c m s of
        (ok, s1) \<Rightarrow>
          if \<not> ok then Done (None, s1)
          else obind (wait_create_command c k s1) (\<lambda>(ev, s2). Done (Some ev, s2)))"

text \<open>How every create operation reads the answer.\<close>

definition reply_result :: "7 word set \<Rightarrow> 7 word set \<Rightarrow> event_report \<Rightarrow> NNPError" where
  "reply_result oks fails ev =
     (if event_code ev \<in> fails then event_valToNNPError (unat (event_val ev))
      else if is_context_fatal_event (unat (event_code ev)) then NNP_CONTEXT_BROKEN
      else if event_code ev \<notin> oks then NNP_IO_ERROR
      else NNP_NO_ERROR)"

section \<open>Device resources\<close>

text \<open>The outputs are the protocol id and, for a peer-to-peer resource, its address and buffer.\<close>

definition devres_msg :: "chan_id \<Rightarrow> u16 \<Rightarrow> u64 \<Rightarrow> u32 \<Rightarrow> u64 \<Rightarrow> u32 \<Rightarrow> h2c_msg" where
  "devres_msg ch i byteSize depth align flags =
     H2C_InfResource ch i False (has_flag flags NNP_RESOURCE_USAGE_NN_INPUT)
       (has_flag flags NNP_RESOURCE_USAGE_NN_OUTPUT) (has_flag flags NNP_RESOURCE_USAGE_NETWORK)
       (has_flag flags NNP_RESOURECE_USAGE_FORCE_4G_ALLOC) (has_flag flags NNP_RESOURECE_USAGE_ECC)
       (has_flag flags NNP_RESOURECE_USAGE_P2P_DST) (has_flag flags NNP_RESOURECE_USAGE_P2P_SRC)
       (ucast depth) (ucast (drop_bit 12 align)) byteSize"

definition createDevRes ::
    "addr \<Rightarrow> u64 \<Rightarrow> u32 \<Rightarrow> u64 \<Rightarrow> u32 \<Rightarrow> proc \<Rightarrow>
     (NNPError \<times> u16 \<times> (u64 \<times> u8) option \<times> proc) outcome" where
  "createDevRes c byteSize depth align usageFlags s =
     (case ida_alloc (cx_devres_ida (p_ctxs s c)) of
        (None, ida) \<Rightarrow> Done (NNP_NOT_SUPPORTED, 0, None, s)
      | (Some i, ida) \<Rightarrow>
          let pid = ucast i :: u16;
              s1 = upd_ctx c (\<lambda>x. x\<lparr>cx_devres_ida := ida\<rparr>) s;
              free = upd_ctx c (\<lambda>x. x\<lparr>cx_devres_ida := ida_free (ucast pid) (cx_devres_ida x)\<rparr>)
          in obind (send_create_command c (devres_msg (chan_of c s1) pid byteSize depth align usageFlags)
                      (obj_id_of INF_OBJ_TYPE_DEVRES pid) s1)
               (\<lambda>(r, s2). case r of
                  None \<Rightarrow> Done (NNP_IO_ERROR, pid, None, free s2)
                | Some ev \<Rightarrow>
                    let e = reply_result {NNP_IPC_CREATE_DEVRES_SUCCESS}
                              {NNP_IPC_CREATE_DEVRES_FAILED} ev
                    in if event_code ev \<noteq> NNP_IPC_CREATE_DEVRES_SUCCESS
                       then Done (e, pid, None, free s2)
                       else Done (NNP_NO_ERROR, pid,
                         (if has_flag usageFlags NNP_RESOURECE_USAGE_P2P_DST
                             \<or> has_flag usageFlags NNP_RESOURECE_USAGE_P2P_SRC
                          then Some (dev_bar2 (cx_device (p_ctxs s2 c))
                                       + push_bit 12 (ucast (obj_id_2 ev)), event_val ev)
                          else None), s2)))"

definition destroyDevRes :: "addr \<Rightarrow> u16 \<Rightarrow> proc \<Rightarrow> NNPError \<times> proc" where
  "destroyDevRes c i s =
     (if ctx_card_fatal (p_ctxs s c) then (NNP_NO_ERROR, s)
      else case ctx_send c (H2C_InfResource (chan_of c s) i True False False False False False
                              False False 0 0 0) s of
             (ok, s1) \<Rightarrow> (if ok then NNP_NO_ERROR else NNP_IO_ERROR, s1))"

definition markDevResDirty :: "addr \<Rightarrow> u16 \<Rightarrow> proc \<Rightarrow> NNPError \<times> proc" where
  "markDevResDirty c i s =
     (if ctx_card_fatal (p_ctxs s c) then (NNP_DEVICE_ERROR, s)
      else case ctx_send c (H2C_MarkInfResource (chan_of c s) i) s of
             (ok, s1) \<Rightarrow> (if ok then NNP_NO_ERROR else NNP_IO_ERROR, s1))"

section \<open>Copy commands\<close>

text \<open>\<open>createCopy\<close> and \<open>createDeviceToDeviceCopy\<close> differ only in the message.\<close>

definition create_copy_op :: "addr \<Rightarrow> (u16 \<Rightarrow> h2c_msg) \<Rightarrow> proc \<Rightarrow> (NNPError \<times> u16 \<times> proc) outcome" where
  "create_copy_op c msg s =
     (case ida_alloc (cx_copy_ida (p_ctxs s c)) of
        (None, ida) \<Rightarrow> Done (NNP_NOT_SUPPORTED, 0, s)
      | (Some i, ida) \<Rightarrow>
          let pid = ucast i :: u16;
              s1 = upd_ctx c (\<lambda>x. x\<lparr>cx_copy_ida := ida\<rparr>) s;
              free = upd_ctx c (\<lambda>x. x\<lparr>cx_copy_ida := ida_free (ucast pid) (cx_copy_ida x)\<rparr>)
          in obind (send_create_command c (msg pid)
                      \<lparr>key_type = INF_OBJ_TYPE_COPY, key_id = sint i, key_id2 = -1\<rparr> s1)
               (\<lambda>(r, s2). case r of
                  None \<Rightarrow> Done (NNP_IO_ERROR, pid, free s2)
                | Some ev \<Rightarrow>
                    if event_code ev \<noteq> NNP_IPC_CREATE_COPY_SUCCESS
                    then Done (reply_result {NNP_IPC_CREATE_COPY_SUCCESS}
                                 {NNP_IPC_CREATE_COPY_FAILED} ev, pid, free s2)
                    else Done (NNP_NO_ERROR, pid, s2)))"

definition createCopy ::
    "addr \<Rightarrow> u16 \<Rightarrow> u16 \<Rightarrow> bool \<Rightarrow> bool \<Rightarrow> proc \<Rightarrow> (NNPError \<times> u16 \<times> proc) outcome" where
  "createCopy c devres_id hostres_map_id is_c2h is_subres s =
     create_copy_op c (\<lambda>pid. H2C_CopyOp (chan_of c s) devres_id pid False is_c2h False
       (ucast hostres_map_id) is_subres 0 0 0) s"

definition createDeviceToDeviceCopy ::
    "addr \<Rightarrow> u16 \<Rightarrow> u64 \<Rightarrow> u16 \<Rightarrow> u16 \<Rightarrow> u32 \<Rightarrow> proc \<Rightarrow> (NNPError \<times> u16 \<times> proc) outcome" where
  "createDeviceToDeviceCopy c src_id dst_host_addr dst_id dst_ctx_id peer_dev s =
     create_copy_op c (\<lambda>pid. H2C_CopyOp (chan_of c s) src_id pid True False False
       (ucast (drop_bit 12 dst_host_addr)) False (ucast dst_ctx_id) dst_id
       (ucast (ucast peer_dev :: u8))) s"

definition destroyCopy :: "addr \<Rightarrow> u16 \<Rightarrow> proc \<Rightarrow> NNPError \<times> proc" where
  "destroyCopy c i s =
     (if ctx_card_fatal (p_ctxs s c) then (NNP_NO_ERROR, s)
      else case ctx_send c (H2C_CopyOp (chan_of c s) 0 i False False True 0 False 0 0 0) s of
             (ok, s1) \<Rightarrow> (if ok then NNP_NO_ERROR else NNP_IO_ERROR, s1))"

definition scheduleCopy :: "addr \<Rightarrow> u16 \<Rightarrow> u64 \<Rightarrow> u8 \<Rightarrow> proc \<Rightarrow> NNPError \<times> proc" where
  "scheduleCopy c copy_id byteSize priority s =
     (if ctx_broken (p_ctxs s c) then (NNP_CONTEXT_BROKEN, s)
      else case ctx_send c
                  (if byteSize \<le> 0x3fffffff \<and> priority \<le> 3
                   then H2C_SchedCopy (chan_of c s) copy_id (ucast byteSize) (ucast priority)
                   else H2C_SchedCopyLarge (chan_of c s) copy_id priority byteSize) s of
             (ok, s1) \<Rightarrow> (if ok then NNP_NO_ERROR else NNP_IO_ERROR, s1))"

definition scheduleCopySubres :: "addr \<Rightarrow> u16 \<Rightarrow> u16 \<Rightarrow> u64 \<Rightarrow> u64 \<Rightarrow> proc \<Rightarrow> NNPError \<times> proc" where
  "scheduleCopySubres c copy_id map_id devres_offset byteSize s =
     (if ctx_broken (p_ctxs s c) then (NNP_CONTEXT_BROKEN, s)
      else if byteSize - 1 > 0xffff then (NNP_INVALID_ARGUMENT, s)
      else case ctx_send c (H2C_SchedCopySubres (chan_of c s) copy_id map_id
                              (ucast (byteSize - 1)) devres_offset) s of
             (ok, s1) \<Rightarrow> (if ok then NNP_NO_ERROR else NNP_IO_ERROR, s1))"

section \<open>Ids, counters\<close>

definition allocDevNetID :: "addr \<Rightarrow> proc \<Rightarrow> NNPError \<times> u16 \<times> proc" where
  "allocDevNetID c s =
     (case ida_alloc (cx_devnet_ida (p_ctxs s c)) of
        (None, ida) \<Rightarrow> (NNP_NOT_SUPPORTED, 0, s)
      | (Some i, ida) \<Rightarrow>
          (NNP_NO_ERROR, ucast i, upd_ctx c (\<lambda>x. x\<lparr>cx_devnet_ida := ida\<rparr>) s))"

definition getP2PtransactionID :: "addr \<Rightarrow> proc \<Rightarrow> u16 \<times> proc" where
  "getP2PtransactionID c s =
     (cx_p2p_tr (p_ctxs s c), upd_ctx c (\<lambda>x. x\<lparr>cx_p2p_tr := cx_p2p_tr x + 1\<rparr>) s)"

definition cmdlist_finalized_add :: "addr \<Rightarrow> int \<Rightarrow> proc \<Rightarrow> proc" where
  "cmdlist_finalized_add c i =
     upd_ctx c (\<lambda>x. x\<lparr>cx_finalize_in_progress := cx_finalize_in_progress x + of_int i\<rparr>)"

definition wait_can_schedule :: "addr \<Rightarrow> proc \<Rightarrow> (bool \<times> proc) outcome" where
  "wait_can_schedule c s =
     obind (wait_for (\<lambda>s. cx_finalize_in_progress (p_ctxs s c) = 0 \<or> ctx_broken (p_ctxs s c)) c s)
       (\<lambda>s1. Done (\<not> ctx_broken (p_ctxs s1 c), s1))"

section \<open>Markers\<close>

definition createMarker :: "addr \<Rightarrow> proc \<Rightarrow> NNPError \<times> u32 option \<times> proc" where
  "createMarker c s =
     (let (marker, p) = sync_inc (cx_sync_point (p_ctxs s c));
          s1 = upd_ctx c (\<lambda>x. x\<lparr>cx_sync_point := p\<rparr>) s
      in case ctx_send c (H2C_Sync (chan_of c s1) marker) s1 of
           (ok, s2) \<Rightarrow> if \<not> ok then (NNP_IO_ERROR, None, s2)
                        else (NNP_NO_ERROR, Some (getMarker p), s2))"

definition marker_done :: "addr \<Rightarrow> sync_point \<Rightarrow> proc \<Rightarrow> bool" where
  "marker_done c sp s =
     (let x = p_ctxs s c
      in sync_geq (cx_last_completed x) sp \<or> m_val sp \<in> set (cx_failed_syncs x)
         \<or> (ctx_broken x \<and> \<not> ctx_aborted x))"

definition waitMarker :: "addr \<Rightarrow> u32 \<Rightarrow> u32 \<Rightarrow> nat \<Rightarrow> proc \<Rightarrow> (NNPError \<times> proc) outcome" where
  "waitMarker c marker timeout_us n s =
     (let sp = of_marker marker
      in obind (wait_timeout timeout_us n (marker_done c sp) c s) (\<lambda>(found, s1).
           let x = p_ctxs s1 c
           in Done (if \<not> found then (NNP_TIMED_OUT, s1)
                    else if ctx_broken x then (NNP_CONTEXT_BROKEN, s1)
                    else if m_val sp \<in> set (cx_failed_syncs x)
                    then (NNP_BROKEN_MARKER,
                          upd_ctx c (\<lambda>x. x\<lparr>cx_failed_syncs :=
                            removeAll (m_val sp) (cx_failed_syncs x)\<rparr>) s1)
                    else (NNP_NO_ERROR, s1))))"

section \<open>Critical errors\<close>

datatype NNPFailedObjType =
    NNP_FAIL_OBJ_TYPE_NONE | NNP_FAIL_OBJ_TYPE_CONTEXT | NNP_FAIL_OBJ_TYPE_COPY
  | NNP_FAIL_OBJ_TYPE_INFREQ | NNP_FAIL_OBJ_TYPE_CARD

text \<open>\<open>NNPCriticalErrorInfo\<close>; the union \<open>obj\<close> is all the handles it can hold.\<close>

record critical_info =
  ci_error :: NNPCriticalError
  ci_objType :: NNPFailedObjType
  ci_msg_size :: u32
  ci_copyHandle :: u64
  ci_devnetHandle :: u64
  ci_infreqHandle :: u64

definition copy_handle :: "addr \<Rightarrow> proc \<Rightarrow> u64" where
  "copy_handle a s = (if a = null then 0 else cp_user_hdl (o_copies s a))"

definition infreq_handles :: "addr \<Rightarrow> proc \<Rightarrow> u64 \<times> u64" where
  "infreq_handles a s =
     (if a = null then (0, 0)
      else (dn_user_hdl (o_devnets s (rq_devnet (o_infreqs s a))), rq_user_hdl (o_infreqs s a)))"

text \<open>The infer request is looked up with its own id as the network and vice versa.\<close>

definition parseErrorEvent :: "addr \<Rightarrow> event_report \<Rightarrow> critical_info \<Rightarrow> proc \<Rightarrow> critical_info \<times> proc" where
  "parseErrorEvent c ev out0 s =
     (let out = out0\<lparr>ci_msg_size := 0\<rparr>; code = event_code ev;
          fin = (\<lambda>e t. (out\<lparr>ci_error := e, ci_objType := t\<rparr>, s))
      in if code = NNP_IPC_ERROR_OS_CRASHED
         then fin NNP_CRI_INTERNAL_DRIVER_ERROR NNP_FAIL_OBJ_TYPE_CARD
         else if code = NNP_IPC_ERROR_RUNTIME_DIED \<or> code = NNP_IPC_ERROR_RUNTIME_LAUNCH
         then fin NNP_CRI_INTERNAL_DRIVER_ERROR NNP_FAIL_OBJ_TYPE_CONTEXT
         else if code = NNP_IPC_ERROR_CARD_RESET
         then fin NNP_CRI_CARD_RESET NNP_FAIL_OBJ_TYPE_CARD
         else if code = NNP_IPC_EXECUTE_COPY_SUBRES_FAILED \<or> code = NNP_IPC_EXECUTE_COPY_FAILED
         then (case db_lookup c (getCopy (obj_id ev)) s of
                 (a, s1) \<Rightarrow> (out\<lparr>ci_error := NNP_CRI_INTERNAL_DRIVER_ERROR,
                                 ci_objType := NNP_FAIL_OBJ_TYPE_COPY,
                                 ci_copyHandle := copy_handle a s1\<rparr>, s1))
         else if code = NNP_IPC_SCHEDULE_INFREQ_FAILED
         then (case db_lookup c (getInfReq (obj_id ev) (obj_id_2 ev)) s of
                 (a, s1) \<Rightarrow> (out\<lparr>ci_error := NNP_CRI_INTERNAL_DRIVER_ERROR,
                                 ci_objType := NNP_FAIL_OBJ_TYPE_INFREQ,
                                 ci_devnetHandle := fst (infreq_handles a s1),
                                 ci_infreqHandle := snd (infreq_handles a s1)\<rparr>, s1))
         else if code = NNP_IPC_ABORT_REQUEST
         then fin NNP_CRI_GRACEFUL_DESTROY NNP_FAIL_OBJ_TYPE_NONE
         else fin NNP_CRI_UNKNOWN_CRITICAL_ERROR NNP_FAIL_OBJ_TYPE_NONE)"

definition exec_error_code :: "nat \<Rightarrow> NNPCriticalError" where
  "exec_error_code ev =
     (if ev = NNP_IPC_FAILED_TO_RELEASE_CREDIT then NNP_CRI_FAILED_TO_RELEASE_CREDIT
      else if ev = NNP_IPC_INPUT_IS_DIRTY then NNP_CRI_INPUT_IS_DIRTY
      else if ev = NNP_IPC_ICEDRV_INFER_EXEC_ERROR then NNP_CRI_INFREQ_FAILED
      else if ev = NNP_IPC_ICEDRV_INFER_EXEC_ERROR_NEED_RESET then NNP_CRI_INFREQ_NETWORK_RESET
      else if ev = NNP_IPC_ICEDRV_INFER_EXEC_ERROR_NEED_CARD_RESET then NNP_CRI_INFREQ_CARD_RESET
      else if ev = NNP_IPC_NOT_SUPPORTED then NNP_CRI_NOT_SUPPORTED
      else NNP_CRI_INTERNAL_DRIVER_ERROR)"

definition parseExecError ::
    "addr \<Rightarrow> error_list \<Rightarrow> u32 \<Rightarrow> critical_info \<Rightarrow> proc \<Rightarrow> critical_info \<times> proc" where
  "parseExecError c l idx out s =
     (case getDesc idx l of
        None \<Rightarrow> (out, s)
      | Some d \<Rightarrow>
          (let fin = (\<lambda>o1. o1\<lparr>ci_msg_size := error_msg_size d,
                              ci_error := exec_error_code (unat (desc_event_val d))\<rparr>)
           in if unat (cmd_type d) = CMDLIST_CMD_INFREQ then
                (case db_lookup c (getInfReq (desc_devnet_id d) (desc_obj_id d)) s of
                   (a, s1) \<Rightarrow> (fin (out\<lparr>ci_objType := NNP_FAIL_OBJ_TYPE_INFREQ,
                                        ci_devnetHandle := fst (infreq_handles a s1),
                                        ci_infreqHandle := snd (infreq_handles a s1)\<rparr>), s1))
              else if unat (cmd_type d) = CMDLIST_CMD_COPY then
                (case db_lookup c (getCopy (desc_obj_id d)) s of
                   (a, s1) \<Rightarrow> (fin (out\<lparr>ci_objType := NNP_FAIL_OBJ_TYPE_COPY,
                                        ci_copyHandle := copy_handle a s1\<rparr>), s1))
              else if unat (cmd_type d) = CMDLIST_CMD_COPYLIST then
                (fin (out\<lparr>ci_objType := NNP_FAIL_OBJ_TYPE_COPY, ci_copyHandle := 0\<rparr>), s)
              else (fin (out\<lparr>ci_objType := NNP_FAIL_OBJ_TYPE_CONTEXT\<rparr>), s)))"

section \<open>Fetching error lists\<close>

definition sendQueryErrorList :: "addr \<Rightarrow> u32 \<Rightarrow> bool \<Rightarrow> proc \<Rightarrow> NNPError \<times> proc" where
  "sendQueryErrorList c cmd_id for_clear s =
     (let valid = (cmd_id \<le> 0xffff)
      in case ctx_send c (H2C_ExecErrorList (chan_of c s) (if valid then ucast cmd_id else 0) valid
                            for_clear) s of
           (ok, s1) \<Rightarrow> (if ok then NNP_NO_ERROR else NNP_IO_ERROR, s1))"

definition waitErrorListQueryCompletion ::
    "addr \<Rightarrow> err_target \<Rightarrow> proc \<Rightarrow> (NNPError \<times> proc) outcome" where
  "waitErrorListQueryCompletion c tg s =
     obind (wait_for (\<lambda>s. queryCompleted (get_errors c tg s) \<or> ctx_broken (p_ctxs s c)) c s)
       (\<lambda>s1. Done (if ctx_broken (p_ctxs s1 c) then NNP_CONTEXT_BROKEN
                  else event_valToNNPError (unat (m_complete_eventVal (get_errors c tg s1))), s1))"

text \<open>
  \<open>waitCriticalError\<close>. While the list of execution errors is fetched, the critical error is
  taken away. The result of the inner query is a variable of its own that hides \<open>ret\<close>, so it
  is not returned; when the query cannot be sent the error is not put back.
\<close>

definition waitCriticalError ::
    "addr \<Rightarrow> u32 \<Rightarrow> nat \<Rightarrow> critical_info option \<Rightarrow> proc \<Rightarrow>
     (NNPError \<times> critical_info option \<times> proc) outcome" where
  "waitCriticalError c timeout_us n out_err s =
     (case out_err of
        None \<Rightarrow> Done (NNP_INVALID_ARGUMENT, None, s)
      | Some out \<Rightarrow>
          obind (wait_timeout timeout_us n (\<lambda>s. ctx_broken (p_ctxs s c)) c s) (\<lambda>(found, s1).
            case cx_critical_error (p_ctxs s1 c) of
              None \<Rightarrow> Done (if timeout_us > 0 then NNP_TIMED_OUT else NNP_NO_ERROR,
                           Some (out\<lparr>ci_error := NNP_CRI_NO_ERROR\<rparr>), s1)
            | Some crit \<Rightarrow>
                if event_code crit \<noteq> NNP_IPC_CONTEXT_EXEC_ERROR then
                  (case parseErrorEvent c crit out s1 of
                     (out1, s2) \<Rightarrow> Done (NNP_NO_ERROR, Some out1, s2))
                else
                  let s2 = upd_ctx c (\<lambda>x. x\<lparr>cx_critical_error := None,
                             cx_errorList := startQuery (clear_list (cx_errorList x))\<rparr>) s1
                  in case sendQueryErrorList c 0xffffffff False s2 of
                       (e, s3) \<Rightarrow>
                         if e \<noteq> NNP_NO_ERROR then Done (e, Some out, s3)
                         else obind (waitErrorListQueryCompletion c To_Context s3) (\<lambda>(e1, s4).
                           let (out1, s5) = (if e1 = NNP_NO_ERROR
                                 then parseExecError c (cx_errorList (p_ctxs s4 c)) 0 out s4
                                 else (out, s4))
                           in Done (NNP_NO_ERROR, Some out1,
                                upd_ctx c (\<lambda>x. x\<lparr>cx_critical_error :=
                                  (if cx_critical_error x = None then Some crit
                                   else cx_critical_error x)\<rparr>) s5))))"

definition recover :: "addr \<Rightarrow> proc \<Rightarrow> (NNPError \<times> proc) outcome" where
  "recover c s =
     (let x = p_ctxs s c
      in case cx_critical_error x of
           None \<Rightarrow> Done (NNP_NO_ERROR, s)
         | Some crit \<Rightarrow>
             if ctx_card_fatal x then Done (NNP_DEVICE_ERROR, s)
             else if event_code crit = NNP_IPC_ABORT_REQUEST then Done (NNP_CONTEXT_BROKEN, s)
             else
               let s1 = upd_ctx c (\<lambda>x. x\<lparr>cx_critical_error := None,
                          cx_errorList := startQuery (cx_errorList x)\<rparr>) s;
                   restore = (\<lambda>e. upd_ctx c (\<lambda>x. x\<lparr>cx_critical_error :=
                     (if e \<noteq> NNP_NO_ERROR \<and> cx_critical_error x = None then Some crit
                      else cx_critical_error x)\<rparr>))
               in case sendQueryErrorList c 0xffffffff True s1 of
                    (e, s2) \<Rightarrow>
                      if e \<noteq> NNP_NO_ERROR then Done (e, restore e s2)
                      else obind (waitErrorListQueryCompletion c To_Context s2)
                             (\<lambda>(e1, s3). Done (e1, restore e1 s3)))"

section \<open>Messages for the card's tracing\<close>

definition trace_user_data :: "addr \<Rightarrow> u8 list \<Rightarrow> u64 \<Rightarrow> proc \<Rightarrow> NNPError \<times> proc" where
  "trace_user_data c key user_data s =
     (case ctx_send c (H2C_TraceUserData (chan_of c s) (of_nat (le_val (take 6 key))) user_data) s of
        (ok, s1) \<Rightarrow> (if ok then NNP_NO_ERROR else NNP_IO_ERROR, s1))"

definition send_user_handle ::
    "addr \<Rightarrow> InfContextObjType \<Rightarrow> u16 \<Rightarrow> u16 \<Rightarrow> u64 \<Rightarrow> proc \<Rightarrow> NNPError \<times> proc" where
  "send_user_handle c t id1 id2 user_handle s =
     (case ctx_send c (H2C_IdsMap (chan_of c s) (of_nat (obj_type_val t)) id1 id2 user_handle) s of
        (ok, s1) \<Rightarrow> (if ok then NNP_NO_ERROR else NNP_IO_ERROR, s1))"

section \<open>Creation and destruction\<close>

text \<open>
  \<open>create\<close>, from the point where the channel exists: \<open>ring_errs\<close> are the results of the three
  ring buffer creations; with all 0 the rings of the context are in place.
\<close>

definition context_create :: "addr \<Rightarrow> nat list \<Rightarrow> u8 \<Rightarrow> proc \<Rightarrow> (NNPError \<times> proc) outcome" where
  "context_create c ring_errs flags s =
     (let s0 = upd_ctx c (\<lambda>x. x\<lparr>cx_this := True\<rparr>) s;
          fail = (\<lambda>e s. obind (chan_kill c False s) (\<lambda>s1. Done (e, s1)))
      in if list_ex (\<lambda>e. e \<noteq> 0) ring_errs then fail NNP_IO_ERROR s0
         else obind (send_create_command c (H2C_InfContext (chan_of c s0) False False flags)
                       (request_key INF_OBJ_TYPE_CONTEXT (-1)) s0)
           (\<lambda>(r, s1). case r of
              None \<Rightarrow> fail NNP_IO_ERROR s1
            | Some ev \<Rightarrow>
                if event_code ev = NNP_IPC_CREATE_CONTEXT_FAILED
                then fail (event_valToNNPError (unat (event_val ev))) s1
                else if event_code ev \<noteq> NNP_IPC_CREATE_CONTEXT_SUCCESS then fail NNP_IO_ERROR s1
                else Done (NNP_NO_ERROR, s1)))"

definition context_destroy :: "addr \<Rightarrow> proc \<Rightarrow> (NNPError \<times> proc) outcome" where
  "context_destroy c s =
     (if \<not> ctx_card_fatal (p_ctxs s c) then
        (case ctx_send c (H2C_InfContext (chan_of c s) True False 0) s of
           (ok, s1) \<Rightarrow> Done (if ok then NNP_NO_ERROR else NNP_IO_ERROR, s1))
      else obind (chan_kill c False s) (\<lambda>s1. Done (NNP_NO_ERROR, s1)))"

end
