(* ===== verification/Command_List.thy ===== *)
theory Command_List
  imports Inf_Context
begin

text \<open>
  \<open>nnpiCommandList\<close> (\<open>nnpiCommandList.h\<close>, \<open>nnpiCommandList.cpp\<close>): building a list, batching its
  copies, sending it to the card page by page through a command ring, scheduling it and
  collecting its errors. \<open>a\<close> is the address of the list.
\<close>

section \<open>Building\<close>

definition cmdlist_create :: "addr \<Rightarrow> proc \<Rightarrow> NNPError \<times> addr option \<times> proc" where
  "cmdlist_create c s =
     (if ctx_broken (p_ctxs s c) then (NNP_CONTEXT_BROKEN, None, s)
      else case ida_alloc (cx_cmdlist_ida (p_ctxs s c)) of
             (None, ida) \<Rightarrow> (NNP_OUT_OF_MEMORY, None, s)
           | (Some i, ida) \<Rightarrow>
               (case new_addr (upd_ctx c (\<lambda>x. x\<lparr>cx_cmdlist_ida := ida\<rparr>) s) of
                  (a, s1) \<Rightarrow> (NNP_NO_ERROR, Some a,
                    upd_db c (insertCommandList (ucast i) a)
                      (upd_list a (\<lambda>_. cmdlist_new (ucast i) c) s1))))"

definition append_cmd :: "addr \<Rightarrow> sched_cmd option \<Rightarrow> proc \<Rightarrow> NNPError \<times> proc" where
  "append_cmd a cmd s =
     (let l = p_cmdlists s a
      in if lst_finalized l then (NNP_DEVICE_BUSY, s)
         else case cmd of
           None \<Rightarrow> (NNP_INVALID_ARGUMENT, s)
         | Some x \<Rightarrow>
             if length (lst_vec l) \<ge> 0xffff then (NNP_TOO_MANY_CONTEXTS, s)
             else (NNP_NO_ERROR, upd_list a (\<lambda>l. l\<lparr>
               lst_vec := lst_vec l @ [set_index (of_nat (length (lst_vec l))) x],
               lst_num_edits := lst_num_edits l + 1\<rparr>) s))"

text \<open>The position of a command in the vector, and in a copy list there, by the user's index.\<close>

fun find_cmd :: "u16 \<Rightarrow> sched_cmd list \<Rightarrow> (nat \<times> u16) option" where
  "find_cmd i [] = None"
| "find_cmd i (x # xs) =
     (if i \<ge> num_of_subcmds x
      then map_option (\<lambda>(k, j). (Suc k, j)) (find_cmd (i - num_of_subcmds x) xs)
      else Some (0, i))"

definition get_cmd_for_overwrite :: "addr \<Rightarrow> u16 \<Rightarrow> proc \<Rightarrow> (nat \<times> u16) option \<times> proc" where
  "get_cmd_for_overwrite a usr_idx s =
     (let l = p_cmdlists s a
      in case find_cmd usr_idx (lst_vec l) of
           None \<Rightarrow> (None, s)
         | Some (k, j) \<Rightarrow>
             (case mark_for_overwrite j (lst_vec l ! k) of
                None \<Rightarrow> (None, s)
              | Some x \<Rightarrow> (Some (k, j), upd_list a (\<lambda>l. l\<lparr>
                  lst_num_edits := (if is_edited (lst_vec l ! k) then lst_num_edits l
                                    else lst_num_edits l + 1),
                  lst_vec := (lst_vec l)[k := x]\<rparr>) s)))"

section \<open>Batching copies\<close>

text \<open>
  \<open>optimize_batch_copies\<close>: the loop has made the commands \<open>out\<close> of those before \<open>i\<close>, except
  for an open batch of copies, of which it keeps the first one and its index.
\<close>

definition push_cmd :: "sched_cmd list \<Rightarrow> sched_cmd \<Rightarrow> sched_cmd list" where
  "push_cmd out x = out @ [set_index (of_nat (length out)) x]"

definition params_of :: "sched_cmd list \<Rightarrow> copy_params list" where
  "params_of xs = concat (map (\<lambda>x. case x of Cmd_Copy p \<Rightarrow> [p] | _ \<Rightarrow> []) xs)"

definition close_batch :: "'a objects_scheme \<Rightarrow> sched_cmd list \<Rightarrow> sched_cmd list \<Rightarrow> sched_cmd list" where
  "close_batch s batch out =
     (if length batch = 1 then push_cmd out (hd batch)
      else push_cmd out (Cmd_CopyList (copylist_new (params_of batch) s)))"

definition batchable :: "'a objects_scheme \<Rightarrow> sched_cmd \<Rightarrow> copy_params option" where
  "batchable s x =
     (case x of Cmd_Copy p \<Rightarrow> if cp_is_d2d (o_copies s (cpp_copy p)) then None else Some p
      | _ \<Rightarrow> None)"

fun batch_loop ::
    "'a objects_scheme \<Rightarrow> sched_cmd list \<Rightarrow> nat \<Rightarrow> sched_cmd list \<Rightarrow> (copy_params \<times> nat) option \<Rightarrow>
     sched_cmd list \<Rightarrow> sched_cmd list" where
  "batch_loop s vec i [] batch out = out"
| "batch_loop s vec i (x # xs) batch out =
     (let (batch1, break_batch) =
        (case batchable s x of
           None \<Rightarrow> (batch, True)
         | Some p \<Rightarrow>
             (case batch of
                None \<Rightarrow> (Some (p, i), False)
              | Some (q, start) \<Rightarrow>
                  (batch, \<not> (cp_c2h (o_copies s (cpp_copy p)) = cp_c2h (o_copies s (cpp_copy q))
                             \<and> i - start < 0xffff))))
      in case batch1 of
           None \<Rightarrow> batch_loop s vec (Suc i) xs None (push_cmd out x)
         | Some (q, start) \<Rightarrow>
             if break_batch \<or> i = length vec - 1 then
               let n = (if break_batch then i - start else i - start + 1);
                   out1 = close_batch s (take n (drop start vec)) out
               in batch_loop s vec (Suc i) xs None (if break_batch then push_cmd out1 x else out1)
             else batch_loop s vec (Suc i) xs batch1 out)"

definition batch_copies :: "'a objects_scheme \<Rightarrow> sched_cmd list \<Rightarrow> sched_cmd list" where
  "batch_copies s vec = batch_loop s vec 0 vec None []"

definition optimize_batch_copies :: "addr \<Rightarrow> proc \<Rightarrow> proc" where
  "optimize_batch_copies a s =
     upd_list a (\<lambda>l. l\<lparr>lst_vec := batch_copies s (lst_vec l),
                       lst_num_edits := of_nat (length (batch_copies s (lst_vec l)))\<rparr>) s"

section \<open>Pages of commands\<close>

text \<open>One page: as many commands as fit, those with their marks cleared, and what is left.\<close>

fun pack_page ::
    "'a objects_scheme \<Rightarrow> nat \<Rightarrow> sched_cmd list \<Rightarrow> u8 list \<times> sched_cmd list \<times> sched_cmd list" where
  "pack_page s room [] = ([], [], [])"
| "pack_page s room (x # xs) =
     (if room = 0 then ([], [], x # xs)
      else case pack s room x of
             (ok, bs, x') \<Rightarrow>
               if ok then (case pack_page s (room - length bs) xs of
                             (bs', dn, rest) \<Rightarrow> (bs @ bs', x' # dn, rest))
               else (bs, [], x' # xs))"

text \<open>The page of a command ring: waiting for it, writing it, releasing it.\<close>

definition cmd_ring :: "addr \<Rightarrow> nat \<Rightarrow> proc \<Rightarrow> ring_buffer option" where
  "cmd_ring c i s = ch_cmd_ringbufs (cx_chan (p_ctxs s c)) ! i"

definition set_cmd_ring :: "addr \<Rightarrow> nat \<Rightarrow> ring_buffer \<Rightarrow> proc \<Rightarrow> proc" where
  "set_cmd_ring c i rb =
     upd_chan c (\<lambda>ch. ch\<lparr>ch_cmd_ringbufs := (ch_cmd_ringbufs ch)[i := Some rb]\<rparr>)"

definition ring_room :: "addr \<Rightarrow> nat \<Rightarrow> proc \<Rightarrow> bool" where
  "ring_room c i s =
     (case cmd_ring c i s of
        None \<Rightarrow> True | Some rb \<Rightarrow> getFreeBytes rb \<ge> NNP_PAGE_SIZE \<or> m_invalid rb)"

definition lock_page :: "addr \<Rightarrow> nat \<Rightarrow> proc \<Rightarrow> (nat option \<times> u32 \<times> proc) outcome" where
  "lock_page c i s =
     obind (wait_for (ring_room c i) c s) (\<lambda>s1.
       case cmd_ring c i s1 of
         None \<Rightarrow> Undefined
       | Some rb \<Rightarrow>
           (case lockFreeSpace NNP_PAGE_SIZE UINT32_MAX rb of
              None \<Rightarrow> Waits
            | Some ((dst, cont), rb1) \<Rightarrow> Done (dst, cont, set_cmd_ring c i rb1 s1)))"

definition write_page :: "addr \<Rightarrow> nat \<Rightarrow> nat \<Rightarrow> u8 list \<Rightarrow> proc \<Rightarrow> proc outcome" where
  "write_page c i off bs s =
     (case cmd_ring c i s of
        None \<Rightarrow> Undefined
      | Some rb \<Rightarrow> (case rb_write off bs rb of
                      None \<Rightarrow> Undefined | Some rb' \<Rightarrow> Done (set_cmd_ring c i rb' s)))"

definition unlock_page :: "addr \<Rightarrow> nat \<Rightarrow> u32 \<Rightarrow> proc \<Rightarrow> proc" where
  "unlock_page c i n s =
     (case cmd_ring c i s of None \<Rightarrow> s | Some rb \<Rightarrow> set_cmd_ring c i (unlockFreeSpace n rb) s)"

text \<open>What every sender of pages does with one: the page goes out with its message, or not at all.\<close>

definition send_page :: "addr \<Rightarrow> nat \<Rightarrow> nat \<Rightarrow> u8 list \<Rightarrow> h2c_msg \<Rightarrow> proc \<Rightarrow> (bool \<times> proc) outcome" where
  "send_page c i off page m s =
     obind (write_page c i off page s) (\<lambda>s1.
       case ctx_send c m s1 of
         (ok, s2) \<Rightarrow> Done (ok, unlock_page c i (if ok then NNP_PAGE_SIZE else 0) s2))"

text \<open>
  The loop over the pages. It gives the result, the commands with their marks as packing left
  them, and the state; \<open>None\<close> is a loop that does not end.
\<close>

partial_function (option) send_pages ::
    "addr \<Rightarrow> nat \<Rightarrow> (bool \<Rightarrow> bool \<Rightarrow> nat \<Rightarrow> h2c_msg) \<Rightarrow> u16 \<Rightarrow> bool \<Rightarrow> sched_cmd list \<Rightarrow> sched_cmd list \<Rightarrow>
     proc \<Rightarrow> (NNPError \<times> sched_cmd list \<times> proc) outcome option" where
  "send_pages c i mk edits is_first acc todo s =
     (if todo = [] then Some (Done (NNP_NO_ERROR, acc, s))
      else case lock_page c i s of
             Waits \<Rightarrow> Some Waits
           | Loops \<Rightarrow> Some Loops
           | Undefined \<Rightarrow> Some Undefined
           | Done (dst, cont, s1) \<Rightarrow>
               (case dst of
                  None \<Rightarrow> Some (Done (NNP_IO_ERROR, acc @ todo, s1))
                | Some off \<Rightarrow>
                    if cont \<noteq> NNP_PAGE_SIZE
                    then Some (Done (NNP_IO_ERROR, acc @ todo, unlock_page c i 0 s1))
                    else
                      (case pack_page s1 (if is_first then 4092 else 4096) todo of
                         (bs, dn, rest) \<Rightarrow>
                           (case send_page c i off
                                   ((if is_first then le_bytes 4 (unat edits) else []) @ bs)
                                   (mk is_first (rest = [])
                                      ((if is_first then 4 else 0) + length bs)) s1 of
                              Waits \<Rightarrow> Some Waits
                            | Loops \<Rightarrow> Some Loops
                            | Undefined \<Rightarrow> Some Undefined
                            | Done (ok, s2) \<Rightarrow>
                                if \<not> ok then Some (Done (NNP_IO_ERROR, acc @ dn @ rest, s2))
                                else send_pages c i mk edits False (acc @ dn) rest s2))))"

section \<open>Sending a list\<close>

text \<open>\<open>get_cmdlist_opt_dependencies\<close>: the environment variable, if set, as \<open>atoi\<close> reads it.\<close>

definition get_cmdlist_opt_dependencies :: "int option \<Rightarrow> bool" where
  "get_cmdlist_opt_dependencies env = (case env of None \<Rightarrow> True | Some v \<Rightarrow> v \<noteq> 0)"

definition cmdlist_msg :: "bool \<Rightarrow> chan_id \<Rightarrow> u16 \<Rightarrow> int option \<Rightarrow> bool \<Rightarrow> bool \<Rightarrow> nat \<Rightarrow> h2c_msg" where
  "cmdlist_msg sched ch i env is_first is_last sz =
     H2C_CmdList sched ch i False is_first is_last
       (if sched then False else get_cmdlist_opt_dependencies env) (of_nat sz)"

definition send_to_card :: "bool \<Rightarrow> int option \<Rightarrow> addr \<Rightarrow> proc \<Rightarrow> (NNPError \<times> proc) outcome" where
  "send_to_card sched env a s =
     (let l = p_cmdlists s a; c = lst_ctx l; mk = cmdlist_msg sched (chan_of c s) (lst_id l) env
      in if lst_vec l = [] then Done (NNP_NOT_SUPPORTED, s)
         else if ctx_broken (p_ctxs s c) then Done (NNP_CONTEXT_BROKEN, s)
         else if lst_num_edits l = 0 then
           (case ctx_send c (mk True True 0) s of
              (ok, s1) \<Rightarrow> Done (if ok then NNP_NO_ERROR else NNP_IO_ERROR, s1))
         else
           obind (of_loop (send_pages c (if sched then 1 else 0) mk (lst_num_edits l) True []
                             (lst_vec l) s))
             (\<lambda>(e, vec, s1). Done (e, upd_list a (\<lambda>l. l\<lparr>
                lst_vec := (if e \<noteq> NNP_NO_ERROR then map clear_edits vec else vec),
                lst_num_edits := 0\<rparr>) s1)))"

section \<open>Finalizing, scheduling, completing\<close>

text \<open>A part that runs with the mutex of the list.\<close>

definition set_locked :: "bool \<Rightarrow> addr \<Rightarrow> proc \<Rightarrow> proc" where
  "set_locked b a = upd_list a (\<lambda>l. l\<lparr>lst_locked := b\<rparr>)"

definition with_list_lock :: "addr \<Rightarrow> (proc \<Rightarrow> ('b \<times> proc) outcome) \<Rightarrow> proc \<Rightarrow> ('b \<times> proc) outcome" where
  "with_list_lock a f s = obind (f (set_locked True a s)) (\<lambda>(r, s1). Done (r, set_locked False a s1))"

definition finalize :: "int option \<Rightarrow> bool \<Rightarrow> addr \<Rightarrow> proc \<Rightarrow> (NNPError \<times> proc) outcome" where
  "finalize env batch a =
     with_list_lock a (\<lambda>s.
       let c = lst_ctx (p_cmdlists s a);
           s1 = (if batch then optimize_batch_copies a s else s)
       in obind (send_to_card False env a (cmdlist_finalized_add c 1 s1)) (\<lambda>(e, s2).
            if e \<noteq> NNP_NO_ERROR then Done (e, cmdlist_finalized_add c (-1) s2)
            else
              let i = lst_id (p_cmdlists s2 a)
              in obind (wait_create_command c (obj_id_of INF_OBJ_TYPE_CMD i) s2) (\<lambda>(ev, s3).
                   let e1 = reply_result {NNP_IPC_CREATE_CMD_SUCCESS} {NNP_IPC_CREATE_CMD_FAILED} ev
                   in if event_code ev \<noteq> NNP_IPC_CREATE_CMD_SUCCESS then Done (e1, s3)
                      else
                        let s4 = snd (send_user_handle c INF_OBJ_TYPE_CMD i 0
                                        (lst_user_hdl (p_cmdlists s3 a)) s3)
                        in Done (NNP_NO_ERROR, upd_list a (\<lambda>l. l\<lparr>lst_finalized := True\<rparr>) s4))))"

definition cmdlist_destroy :: "addr \<Rightarrow> proc \<Rightarrow> NNPError \<times> proc" where
  "cmdlist_destroy a s =
     (let l = p_cmdlists s a; c = lst_ctx l
      in if \<not> lst_finalized l then (NNP_NO_ERROR, upd_db c (removeCommandList (lst_id l)) s)
         else if ctx_card_fatal (p_ctxs s c) then (NNP_NO_ERROR, s)
         else case ctx_send c (H2C_CmdList False (chan_of c s) (lst_id l) True False False False 0) s of
                (ok, s1) \<Rightarrow> (if ok then NNP_NO_ERROR else NNP_IO_ERROR, s1))"

text \<open>The locks of all commands; when one is refused, the earlier ones are given back.\<close>

fun prepare_cmds :: "sched_cmd list \<Rightarrow> 'a objects_scheme \<Rightarrow> (bool \<times> 'a objects_scheme) outcome" where
  "prepare_cmds [] s = Done (True, s)"
| "prepare_cmds (x # xs) s =
     obind (prepare_schedule x s) (\<lambda>(r, s1).
       if \<not> r then Done (False, s1)
       else obind (prepare_cmds xs s1) (\<lambda>(r', s2).
              if r' then Done (True, s2)
              else obind (schedule_done None x s2) (\<lambda>(_, s3). Done (False, s3))))"

fun done_cmds :: "sched_cmd list \<Rightarrow> 'a objects_scheme \<Rightarrow> 'a objects_scheme outcome" where
  "done_cmds [] s = Done s"
| "done_cmds (x # xs) s = obind (schedule_done None x s) (\<lambda>(_, s1). done_cmds xs s1)"

definition set_in_flight :: "bool \<Rightarrow> addr \<Rightarrow> proc \<Rightarrow> proc" where
  "set_in_flight b a = upd_list a (\<lambda>l. l\<lparr>lst_in_flight := b\<rparr>)"

definition schedule_list :: "addr \<Rightarrow> proc \<Rightarrow> (NNPError \<times> proc) outcome" where
  "schedule_list a s =
     (let l = p_cmdlists s a
      in if \<not> lst_finalized l \<or> lst_in_flight l \<or> lst_failed_commands l > 0
            \<or> numErrors (lst_errorList l) > 0
         then Done (NNP_DEVICE_BUSY, s)
         else
           obind (with_list_lock a (wait_can_schedule (lst_ctx l)) s) (\<lambda>(can, s1).
             if \<not> can then Done (NNP_CONTEXT_BROKEN, s1)
             else
               let s2 = set_in_flight True a s1
               in obind (prepare_cmds (lst_vec (p_cmdlists s2 a)) s2) (\<lambda>(r, s3).
                    if \<not> r then Done (NNP_DEVICE_BUSY, set_in_flight False a s3)
                    else obind (send_to_card True None a s3) (\<lambda>(e, s4).
                           if e = NNP_NO_ERROR then Done (NNP_NO_ERROR, s4)
                           else obind (done_cmds (lst_vec (p_cmdlists s4 a)) s4)
                                  (\<lambda>s5. Done (e, set_in_flight False a s5))))))"

definition clearErrors :: "addr \<Rightarrow> proc \<Rightarrow> (NNPError \<times> proc) outcome" where
  "clearErrors a =
     with_list_lock a (\<lambda>s.
       let l = p_cmdlists s a; c = lst_ctx l
       in if lst_failed_commands l = 0 \<and> numErrors (lst_errorList l) = 0 then Done (NNP_NO_ERROR, s)
          else
            let s1 = upd_list a (\<lambda>l. l\<lparr>lst_errorList := startQuery (lst_errorList l)\<rparr>) s
            in case sendQueryErrorList c (ucast (lst_id l)) True s1 of
                 (e, s2) \<Rightarrow>
                   if e \<noteq> NNP_NO_ERROR then Done (e, s2)
                   else obind (waitErrorListQueryCompletion c (To_List a) s2) (\<lambda>(e1, s3).
                          Done (e1, if e1 = NNP_NO_ERROR
                                    then upd_list a (\<lambda>l. l\<lparr>lst_failed_commands := 0\<rparr>) s3 else s3)))"

text \<open>The errors of the list, into the caller's array.\<close>

fun parse_errors ::
    "addr \<Rightarrow> error_list \<Rightarrow> nat \<Rightarrow> nat \<Rightarrow> critical_info list \<Rightarrow> proc \<Rightarrow> (critical_info list \<times> proc) outcome" where
  "parse_errors c l i 0 outs s = Done (outs, s)"
| "parse_errors c l i (Suc n) outs s =
     (if length outs \<le> i then Undefined
      else case parseExecError c l (of_nat i) (outs ! i) s of
             (o1, s1) \<Rightarrow> parse_errors c l (Suc i) n (outs[i := o1]) s1)"

definition list_idle :: "addr \<Rightarrow> proc \<Rightarrow> bool" where
  "list_idle a s =
     (let l = p_cmdlists s a; x = p_ctxs s (lst_ctx l)
      in \<not> lst_in_flight l \<or> (ctx_broken x \<and> \<not> ctx_aborted x))"

definition wait_list ::
    "addr \<Rightarrow> u32 \<Rightarrow> nat \<Rightarrow> critical_info list \<Rightarrow> u32 option \<Rightarrow> proc \<Rightarrow>
     (NNPError \<times> critical_info list \<times> u32 option \<times> proc) outcome" where
  "wait_list a timeout_us n outs num_errors s =
     (case num_errors of
        None \<Rightarrow> Done (NNP_INVALID_ARGUMENT, outs, None, s)
      | Some num \<Rightarrow>
          let c = lst_ctx (p_cmdlists s a)
          in obind (wait_timeout timeout_us n (list_idle a) c s) (\<lambda>(found, s1).
               let e = (if \<not> found then NNP_TIMED_OUT
                        else if ctx_broken (p_ctxs s1 c) then NNP_CONTEXT_BROKEN else NNP_NO_ERROR)
               in if e = NNP_NO_ERROR \<and> lst_failed_commands (p_cmdlists s1 a) > 0 then
                    let s2 = upd_list a (\<lambda>l. l\<lparr>lst_errorList :=
                               startQuery (clear_list (lst_errorList l))\<rparr>) s1
                    in (case sendQueryErrorList c (ucast (lst_id (p_cmdlists s2 a))) False s2 of
                          (e1, s3) \<Rightarrow>
                            if e1 \<noteq> NNP_NO_ERROR then Done (e1, outs, Some num, s3)
                            else obind (waitErrorListQueryCompletion c (To_List a) s3) (\<lambda>(e2, s4).
                              if e2 \<noteq> NNP_NO_ERROR then Done (e2, outs, Some num, s4)
                              else
                                let el = lst_errorList (p_cmdlists s4 a); k = min num (numErrors el)
                                in obind (parse_errors c el 0 (unat k) outs s4) (\<lambda>(outs1, s5).
                                     Done (NNP_NO_ERROR, outs1,
                                           Some (if k < num then k else numErrors el), s5))))
                  else Done (e, outs, Some 0, s1)))"

end
