(* ===== verification/Networks.thy ===== *)
theory Networks
  imports Command_List
begin

text \<open>
  Device networks (\<open>nnpiDevNet.h\<close>, \<open>nnpiDevNet.cpp\<close>), whose resources and configuration data are
  sent in pages, and infer requests (\<open>nnpiInfReq.h\<close>, \<open>nnpiInfReq.cpp\<close>), sent in one page. The
  configuration data is the list of its bytes.
\<close>

section \<open>The pages of a network\<close>

text \<open>What one page takes: up to 2048 resource ids, then configuration data in what is left.\<close>

definition net_page :: "u16 list \<Rightarrow> u8 list \<Rightarrow> u8 list \<times> u16 list \<times> u8 list" where
  "net_page ids conf =
     (let n = min (length ids) 2048; space = 4096 - 2 * n
      in (concat (map (\<lambda>i. le_bytes 2 (unat i)) (take n ids)) @ take space conf,
          drop n ids, drop space conf))"

text \<open>The loop; the message of a page has the index of its first resource.\<close>

function send_net_pages ::
    "addr \<Rightarrow> (24 word \<Rightarrow> h2c_msg) \<Rightarrow> 24 word \<Rightarrow> u16 list \<Rightarrow> u8 list \<Rightarrow> proc \<Rightarrow>
     (NNPError \<times> proc) outcome" where
  "send_net_pages c mk start ids conf s =
     obind (lock_page c 0 s) (\<lambda>(dst, cont, s1).
       case dst of
         None \<Rightarrow> Done (NNP_IO_ERROR, s1)
       | Some off \<Rightarrow>
           obind (send_page c 0 off (fst (net_page ids conf)) (mk start) s1) (\<lambda>(ok, s2).
             if \<not> ok then Done (NNP_IO_ERROR, s2)
             else if fst (snd (net_page ids conf)) = [] \<and> snd (snd (net_page ids conf)) = []
             then Done (NNP_NO_ERROR, s2)
             else send_net_pages c mk (start + of_nat (min (length ids) 2048))
                    (fst (snd (net_page ids conf))) (snd (snd (net_page ids conf))) s2))"
  by pat_completeness auto
termination
proof (relation "measure (\<lambda>(c, mk, start, ids, conf, s). length ids + length conf)", simp, goal_cases)
  case (1 c mk start ids conf s)
  then show ?case by (cases ids) (auto simp: net_page_def Let_def)
qed

definition send_create_or_add ::
    "addr \<Rightarrow> u16 \<Rightarrow> bool \<Rightarrow> u16 list \<Rightarrow> u8 list \<Rightarrow> proc \<Rightarrow> (NNPError \<times> proc) outcome" where
  "send_create_or_add c pid is_create ids conf s =
     (if length ids > 0x1000000 then Done (NNP_NOT_SUPPORTED, s)
      else
        let total = (of_nat (length ids) * 2 + of_nat (length conf) :: u64)
        in if total > 0x100000000 then Done (NNP_NOT_SUPPORTED, s)
           else if ctx_broken (p_ctxs s c) then Done (NNP_CONTEXT_BROKEN, s)
           else
             obind (send_net_pages c
                      (\<lambda>start. H2C_InfNetwork (chan_of c s) pid False False is_create
                         (of_nat (length ids)) (ucast (total - 1)) start (total > 4096))
                      0 ids conf s)
               (\<lambda>(e, s1).
                  if e \<noteq> NNP_NO_ERROR then Done (e, s1)
                  else obind (wait_create_command c (obj_id_of INF_OBJ_TYPE_DEVNET pid) s1)
                         (\<lambda>(ev, s2). Done (reply_result
                            {NNP_IPC_CREATE_DEVNET_SUCCESS, NNP_IPC_DEVNET_ADD_RES_SUCCESS}
                            {NNP_IPC_CREATE_DEVNET_FAILED, NNP_IPC_DEVNET_ADD_RES_FAILED} ev, s2))))"

section \<open>Networks\<close>

definition dr_ids :: "addr list \<Rightarrow> 'a objects_scheme \<Rightarrow> u16 list" where
  "dr_ids ds s = map (\<lambda>d. dr_id (o_devres s d)) ds"

definition devnet_create ::
    "addr \<Rightarrow> addr list \<Rightarrow> u8 list \<Rightarrow> proc \<Rightarrow> (NNPError \<times> addr option \<times> proc) outcome" where
  "devnet_create c ds conf s =
     (case allocDevNetID c s of
        (e, pid, s1) \<Rightarrow>
          if e \<noteq> NNP_NO_ERROR then Done (e, None, s1)
          else obind (send_create_or_add c pid True (dr_ids ds s1) conf s1) (\<lambda>(e1, s2).
                 if e1 \<noteq> NNP_NO_ERROR then Done (e1, None, s2)
                 else case new_addr s2 of
                        (a, s3) \<Rightarrow> Done (NNP_NO_ERROR, Some a,
                          upd_db c (insertDevNet pid a) (set_devnet a (devnet_new c pid ds) s3))))"

definition add_resources :: "addr \<Rightarrow> addr list \<Rightarrow> u8 list \<Rightarrow> proc \<Rightarrow> (NNPError \<times> proc) outcome" where
  "add_resources a ds conf s =
     (let dn = o_devnets s a
      in if get_num_alloc (dn_infreq_ida dn) > 0 then Done (NNP_NOT_SUPPORTED, s)
         else obind (send_create_or_add (dn_ctx dn) (dn_id dn) False (dr_ids ds s) conf s)
           (\<lambda>(e, s1). Done (e, if e = NNP_NO_ERROR
              then set_devnet a ((o_devnets s1 a)\<lparr>dn_devres_vec := dn_devres_vec (o_devnets s1 a) @ ds\<rparr>) s1
              else s1)))"

definition setProperty :: "addr \<Rightarrow> u32 \<Rightarrow> u32 \<Rightarrow> u32 \<Rightarrow> proc \<Rightarrow> (NNPError \<times> proc) outcome" where
  "setProperty a property property_val timeout_us s =
     (let c = dn_ctx (o_devnets s a); i = dn_id (o_devnets s a)
      in case ctx_send c (H2C_NetProperty (chan_of c s) i timeout_us property property_val) s of
           (ok, s1) \<Rightarrow>
             if \<not> ok then Done (NNP_IO_ERROR, s1)
             else obind (wait_create_command c (obj_id_of INF_OBJ_TYPE_DEVNET i) s1) (\<lambda>(ev, s2).
                    Done (reply_result
                      {NNP_IPC_DEVNET_RESOURCES_RESERVATION_SUCCESS,
                       NNP_IPC_DEVNET_RESOURCES_RELEASE_SUCCESS, NNP_IPC_DEVNET_SET_PROPERTY_SUCCESS}
                      {NNP_IPC_DEVNET_RESOURCES_RESERVATION_FAILED,
                       NNP_IPC_DEVNET_RESOURCES_RELEASE_FAILED, NNP_IPC_DEVNET_SET_PROPERTY_FAILED}
                      ev, s2)))"

definition devnet_destroy :: "addr \<Rightarrow> proc \<Rightarrow> NNPError \<times> proc" where
  "devnet_destroy a s =
     (let c = dn_ctx (o_devnets s a)
      in if ctx_card_fatal (p_ctxs s c) then (NNP_NO_ERROR, s)
         else case ctx_send c (H2C_InfNetwork (chan_of c s) (dn_id (o_devnets s a)) False True False
                                 0 0 0 False) s of
                (ok, s1) \<Rightarrow> (if ok then NNP_NO_ERROR else NNP_IO_ERROR, s1))"

definition allocInfReqID :: "addr \<Rightarrow> 'a objects_scheme \<Rightarrow> NNPError \<times> u16 \<times> 'a objects_scheme" where
  "allocInfReqID a s =
     (let dn = o_devnets s a
      in case ida_alloc (dn_infreq_ida dn) of
           (None, ida) \<Rightarrow> (NNP_NOT_SUPPORTED, 0, s)
         | (Some i, ida) \<Rightarrow> (NNP_NO_ERROR, ucast i, set_devnet a (dn\<lparr>dn_infreq_ida := ida\<rparr>) s))"

section \<open>Infer requests\<close>

text \<open>\<open>packet_size\<close> is a \<open>uint32_t\<close>.\<close>

definition infreq_packet_size :: "nat \<Rightarrow> nat \<Rightarrow> u32 \<Rightarrow> u32" where
  "infreq_packet_size nin nout config_data_size = 12 + of_nat (nin + nout) * 2 + config_data_size"

definition infreq_packet :: "u16 list \<Rightarrow> u16 list \<Rightarrow> u8 list \<Rightarrow> u8 list" where
  "infreq_packet ins outs conf =
     le_bytes 4 (length ins) @ le_bytes 4 (length outs) @ le_bytes 4 (length conf) @
     concat (map (\<lambda>i. le_bytes 2 (unat i)) (ins @ outs)) @ conf"

definition infreq_create ::
    "addr \<Rightarrow> addr list \<Rightarrow> addr list \<Rightarrow> u8 list option \<Rightarrow> u32 \<Rightarrow> proc \<Rightarrow>
     (NNPError \<times> addr option \<times> proc) outcome" where
  "infreq_create net ins outs config_data config_data_size s =
     (let dn = o_devnets s net; c = dn_ctx dn;
          psize = infreq_packet_size (length ins) (length outs) config_data_size;
          data = (case config_data of Some bs \<Rightarrow> take (unat config_data_size) bs | None \<Rightarrow> [])
      in if config_data = None \<and> config_data_size > 0 then Done (NNP_INVALID_ARGUMENT, None, s)
         else if dn_devres_vec dn = [] then Done (NNP_INCOMPLETE_NETWORK, None, s)
         else if ctx_broken (p_ctxs s c) then Done (NNP_CONTEXT_BROKEN, None, s)
         else if psize \<ge> 4096 \<or> outs = [] then Done (NNP_NOT_SUPPORTED, None, s)
         else if list_ex (\<lambda>d. \<not> has_flag (dr_flags (o_devres s d)) NNP_RESOURCE_USAGE_NN_INPUT) ins
              \<or> list_ex (\<lambda>d. \<not> has_flag (dr_flags (o_devres s d)) NNP_RESOURCE_USAGE_NN_OUTPUT) outs
         then Done (NNP_INCOMPATIBLE_RESOURCES, None, s)
         else case allocInfReqID net s of
           (e, pid, s0) \<Rightarrow>
             if e \<noteq> NNP_NO_ERROR then Done (e, None, s0)
             else obind (lock_page c 0 s0) (\<lambda>(dst, cont, s1).
               case dst of
                 None \<Rightarrow> Done (NNP_IO_ERROR, None, s1)
               | Some off \<Rightarrow>
                   if length data < unat config_data_size then Undefined
                   else obind
                     (send_page c 0 off (infreq_packet (dr_ids ins s1) (dr_ids outs s1) data)
                        (H2C_InfReqOp (chan_of c s1) (dn_id dn) pid (ucast psize) False False) s1)
                     (\<lambda>(ok, s2).
                        if \<not> ok then Done (NNP_IO_ERROR, None, s2)
                        else obind (wait_create_command c
                               \<lparr>key_type = INF_OBJ_TYPE_INFREQ, key_id = uint pid,
                                key_id2 = uint (dn_id dn)\<rparr> s2) (\<lambda>(ev, s3).
                          let e1 = reply_result {NNP_IPC_CREATE_INFREQ_SUCCESS}
                                     {NNP_IPC_CREATE_INFREQ_FAILED} ev
                          in if event_code ev \<noteq> NNP_IPC_CREATE_INFREQ_SUCCESS then Done (e1, None, s3)
                             else case new_addr s3 of
                                    (a, s4) \<Rightarrow> Done (NNP_NO_ERROR, Some a,
                                      upd_db c (insertInfReq (dn_id dn) pid a)
                                        (set_infreq a (infreq_new net pid ins outs) s4))))))"

definition infreq_destroy :: "addr \<Rightarrow> proc \<Rightarrow> NNPError \<times> proc" where
  "infreq_destroy a s =
     (let q = o_infreqs s a; dn = o_devnets s (rq_devnet q); c = dn_ctx dn
      in if ctx_card_fatal (p_ctxs s c) then (NNP_NO_ERROR, s)
         else case ctx_send c (H2C_InfReqOp (chan_of c s) (dn_id dn) (rq_id q) 0 False True) s of
                (ok, s1) \<Rightarrow> (if ok then NNP_NO_ERROR else NNP_IO_ERROR, s1))"

definition infreq_schedule :: "addr \<Rightarrow> inf_sched_params option \<Rightarrow> proc \<Rightarrow> (NNPError \<times> proc) outcome" where
  "infreq_schedule a sp s =
     (let q = o_infreqs s a; dn = o_devnets s (rq_devnet q); c = dn_ctx dn
      in obind (wait_can_schedule c s) (\<lambda>(can, s1).
           if \<not> can then Done (NNP_CONTEXT_BROKEN, s1)
           else
             let m = (case sp of
                 Some p \<Rightarrow> H2C_SchedInfReq (chan_of c s1) (dn_id dn) (rq_id q) (isp_batchSize p)
                             (isp_priority p) (isp_debugOn p) (isp_collectInfo p) False
               | None \<Rightarrow> H2C_SchedInfReq (chan_of c s1) (dn_id dn) (rq_id q) 0 0 False False True)
             in case ctx_send c m s1 of
                  (ok, s2) \<Rightarrow> Done (if ok then NNP_NO_ERROR else NNP_IO_ERROR, s2)))"

end
