(* ===== verification/Channel.thy ===== *)
theory Channel
  imports Response_Handler
begin

text \<open>
  The ring buffers of a channel and the set of active contexts (\<open>nnpiChannel.h\<close>,
  \<open>nnpiChannel.cpp\<close>). What the host driver and the device driver answer to the calls that
  create and destroy ring buffers are the error numbers given as arguments. The set of active
  channels is the list of their contexts in address order.
\<close>

section \<open>Ring buffers\<close>

abbreviation (input) MAX_CHANNEL_RINGBUFS :: nat where "MAX_CHANNEL_RINGBUFS \<equiv> 2"

definition new_ring :: "nat \<Rightarrow> ring_buffer" where
  "new_ring byte_size = rb_init (replicate byte_size 0)"

definition createCommandRingBuffer :: "addr \<Rightarrow> nat \<Rightarrow> nat \<Rightarrow> nat \<Rightarrow> nat \<Rightarrow> proc \<Rightarrow> nat \<times> proc" where
  "createCommandRingBuffer c i byte_size hostres_err dev_err s =
     (let ch = cx_chan (p_ctxs s c)
      in if i \<ge> MAX_CHANNEL_RINGBUFS then (EINVAL, s)
         else if ch_cmd_ringbufs ch ! i \<noteq> None then (EBUSY, s)
         else if ch_killed ch then (EBUSY, s)
         else if hostres_err \<noteq> 0 then (hostres_err, s)
         else if dev_err \<noteq> 0 then (dev_err, s)
         else (0, upd_chan c (\<lambda>ch. ch\<lparr>ch_cmd_ringbufs :=
                (ch_cmd_ringbufs ch)[i := Some (new_ring byte_size)]\<rparr>) s))"

definition createResponseRingBuffer :: "addr \<Rightarrow> nat \<Rightarrow> nat \<Rightarrow> nat \<Rightarrow> nat \<Rightarrow> proc \<Rightarrow> nat \<times> proc" where
  "createResponseRingBuffer c i byte_size hostres_err dev_err s =
     (let ch = cx_chan (p_ctxs s c)
      in if i \<ge> MAX_CHANNEL_RINGBUFS then (EINVAL, s)
         else if ch_resp_ringbufs ch ! i \<noteq> None then (EBUSY, s)
         else if ch_killed ch then (EBUSY, s)
         else if hostres_err \<noteq> 0 then (hostres_err, s)
         else if dev_err \<noteq> 0 then (dev_err, s)
         else (0, upd_chan c (\<lambda>ch. ch\<lparr>ch_resp_ringbufs :=
                (ch_resp_ringbufs ch)[i := Some (new_ring byte_size)]\<rparr>) s))"

definition destroyCommandRingBuffer :: "addr \<Rightarrow> nat \<Rightarrow> nat \<Rightarrow> proc \<Rightarrow> nat \<times> proc" where
  "destroyCommandRingBuffer c i dev_err s =
     (if i \<ge> MAX_CHANNEL_RINGBUFS then (EINVAL, s)
      else if ch_cmd_ringbufs (cx_chan (p_ctxs s c)) ! i = None then (ENXIO, s)
      else (dev_err, upd_chan c (\<lambda>ch. ch\<lparr>ch_cmd_ringbufs := (ch_cmd_ringbufs ch)[i := None]\<rparr>) s))"

definition destroyResponseRingBuffer :: "addr \<Rightarrow> nat \<Rightarrow> nat \<Rightarrow> proc \<Rightarrow> nat \<times> proc" where
  "destroyResponseRingBuffer c i dev_err s =
     (if i \<ge> MAX_CHANNEL_RINGBUFS then (EINVAL, s)
      else if ch_resp_ringbufs (cx_chan (p_ctxs s c)) ! i = None then (ENXIO, s)
      else (dev_err, upd_chan c (\<lambda>ch. ch\<lparr>ch_resp_ringbufs := (ch_resp_ringbufs ch)[i := None]\<rparr>) s))"

text \<open>A new channel, as its constructor and the start of its thread leave it.\<close>

definition channel_new :: "u16 \<Rightarrow> (nat \<Rightarrow> int) \<Rightarrow> resp_item list \<Rightarrow> channel" where
  "channel_new i answers inbox =
     \<lparr>ch_id = i, ch_killed = False, ch_kill_on_exit = False, ch_this = True, ch_running = True,
      ch_cmd_ringbufs = [None, None], ch_resp_ringbufs = [None, None], ch_kernel = answers,
      ch_writes = 0, ch_sent = [], ch_inbox = inbox\<rparr>"

section \<open>Active contexts\<close>

type_synonym active_contexts = "addr list option"

definition active_add :: "addr \<Rightarrow> active_contexts \<Rightarrow> active_contexts" where
  "active_add c act = Some (case act of None \<Rightarrow> [c] | Some cs \<Rightarrow> insort_insert c cs)"

definition active_remove :: "addr \<Rightarrow> active_contexts \<Rightarrow> active_contexts" where
  "active_remove c act =
     (case act of None \<Rightarrow> None
      | Some cs \<Rightarrow> (if removeAll c cs = [] then None else Some (removeAll c cs)))"

text \<open>\<open>destroy\<close>: the object of the active contexts is emptied and given up.\<close>

definition active_destroy :: "active_contexts \<Rightarrow> active_contexts" where
  "active_destroy act = None"

definition to_kill :: "bool \<Rightarrow> proc \<Rightarrow> addr \<Rightarrow> bool" where
  "to_kill force s c \<longleftrightarrow>
     (let ch = cx_chan (p_ctxs s c) in \<not> ch_killed ch \<and> (force \<or> ch_kill_on_exit ch))"

text \<open>The loop of \<open>kill_all\<close>: from the first one again after each kill. \<open>None\<close> does not end.\<close>

partial_function (option) kill_all ::
    "bool \<Rightarrow> bool \<Rightarrow> addr list \<Rightarrow> proc \<Rightarrow> proc outcome option" where
  "kill_all force umd_only cs s =
     (case find (to_kill force s) cs of
        None \<Rightarrow> Some (Done s)
      | Some c \<Rightarrow>
          (case chan_kill c umd_only s of
             Waits \<Rightarrow> Some Waits
           | Loops \<Rightarrow> Some Loops
           | Undefined \<Rightarrow> Some Undefined
           | Done s1 \<Rightarrow> kill_all force umd_only cs s1))"

definition close_all :: "active_contexts \<Rightarrow> proc \<Rightarrow> proc outcome" where
  "close_all act s = (case act of None \<Rightarrow> Done s | Some cs \<Rightarrow> of_loop (kill_all True True cs s))"

text \<open>\<open>wait_all\<close>: after the kills, the wait ends when the last active channel has been destroyed.\<close>

definition wait_all :: "active_contexts \<Rightarrow> proc \<Rightarrow> proc outcome" where
  "wait_all act s =
     (case act of None \<Rightarrow> Done s
      | Some cs \<Rightarrow> obind (of_loop (kill_all False False cs s))
          (\<lambda>s1. if cs = [] then Done s1 else Waits))"

end
