(* ===== verification/Sample.thy ===== *)
theory Sample
  imports Networks Channel
begin

text \<open>
  A process for examples: one context at address 1 with its rings, whose driver answers the n-th
  write with \<open>ans n\<close> and whose response thread reads \<open>inbox\<close>; device resource 3, network 5, and at
  every address \<open>a\<close> a copy with protocol id \<open>a\<close> of the host resource \<open>a + 16\<close>.
\<close>

definition sample_ctx :: "(nat \<Rightarrow> int) \<Rightarrow> resp_item list \<Rightarrow> inf_context" where
  "sample_ctx ans inbox = inf_context_new
     ((channel_new 3 ans inbox)\<lparr>ch_cmd_ringbufs := [Some (new_ring 8192), Some (new_ring 8192)],
        ch_resp_ringbufs := [Some (new_ring 8192), None]\<rparr>)
     \<lparr>dev_number = 0, dev_bar0 = 0, dev_bar2 = 0\<rparr> True"

definition sample_proc :: "(nat \<Rightarrow> int) \<Rightarrow> resp_item list \<Rightarrow> proc" where
  "sample_proc ans inbox =
     \<lparr>o_hostres = (\<lambda>_. hostres_new 64 3 0 4096 True), o_devres = (\<lambda>_. devres_new 1 0 64 1 0 3 0 0),
      o_copies = (\<lambda>a. copy_new 1 (ucast a) 3 (a + 16) 3 7 False),
      o_devnets = (\<lambda>_. devnet_new 1 0 [3]), o_infreqs = (\<lambda>_. infreq_new 5 0 [] [3]), o_next = 100,
      p_cmdlists = (\<lambda>_. cmdlist_new 0 1), p_ctxs = (\<lambda>_. sample_ctx ans inbox)\<rparr>"

lemmas sample_defs = sample_ctx_def sample_proc_def inf_context_new_def channel_new_def
  hostres_new_def devres_new_def copy_new_def devnet_new_def infreq_new_def cmdlist_new_def

lemma sample_ctxs [simp]: "p_ctxs (sample_proc ans inbox) = (\<lambda>_. sample_ctx ans inbox)"
  by (simp add: sample_proc_def)

lemma sample_ctx_simps [simp]:
  "cx_critical_error (sample_ctx ans inbox) = None" "ctx_broken (sample_ctx ans inbox) = False"
  "ch_killed (cx_chan (sample_ctx ans inbox)) = False" "ch_kernel (cx_chan (sample_ctx ans inbox)) = ans"
  "ch_inbox (cx_chan (sample_ctx ans inbox)) = inbox" "ch_sent (cx_chan (sample_ctx ans inbox)) = []"
  "ch_writes (cx_chan (sample_ctx ans inbox)) = 0" "ch_running (cx_chan (sample_ctx ans inbox)) = True"
  "ch_id (cx_chan (sample_ctx ans inbox)) = 3"
  "ch_cmd_ringbufs (cx_chan (sample_ctx ans inbox)) = [Some (new_ring 8192), Some (new_ring 8192)]"
  by (simp_all add: sample_ctx_def inf_context_new_def channel_new_def ctx_broken_def)

text \<open>A new ring gives its first page to be written.\<close>

lemma new_ring_page:
  "getFreeBytes (new_ring 8192) = 8192" "m_invalid (new_ring 8192) = False"
  "lockFreeSpace 4096 UINT32_MAX (new_ring 8192) =
     Some ((Some 0, 4096), (new_ring 8192)\<lparr>m_locked := True\<rparr>)"
  by (simp_all add: new_ring_def rb_init_def getFreeBytes_def lockFreeSpace_def Let_def)

lemma new_ring_write:
  assumes "length bs \<le> 8192"
  shows "\<exists>r. rb_write 0 bs ((new_ring 8192)\<lparr>m_locked := True\<rparr>) = Some r"
  using assms by (simp add: rb_write_def mem_write_def new_ring_def rb_init_def)

text \<open>The command that copies with copy \<open>a\<close>.\<close>

definition sample_copy :: "addr \<Rightarrow> copy_params" where
  "sample_copy a = \<lparr>cpp_copy = a, cpp_priority = 1, cpp_size = 64, cpp_idx = 0, cpp_edited = True\<rparr>"

end
