(* ===== verification/Schedule_Locks.thy ===== *)
theory Schedule_Locks
  imports Frame Sample
begin

text \<open>
  The locks a command list takes on the host resources of its copies: they are taken one after the
  other and given back in the same order, so the proofs rest on the locks of two copies commuting.
\<close>

section \<open>Copies\<close>

abbreviation granted :: "addr \<Rightarrow> 'a objects_scheme \<Rightarrow> 'a objects_scheme \<Rightarrow> bool" where
  "granted a s s' \<equiv> pre_schedule a s = Done (True, s')"

lemma granted_cases:
  assumes "granted a s s'"
  obtains (d2d) "cp_is_d2d (o_copies s a)" "s' = s"
  | (locked) h where "\<not> cp_is_d2d (o_copies s a)" "cp_hostres (o_copies s a) \<noteq> null"
      "lock_device_access (cp_c2h (o_copies s a)) (o_hostres s (cp_hostres (o_copies s a))) = (NNP_NO_ERROR, h)"
      "s' = set_copy a (o_copies s a\<lparr>cp_scheduled := True\<rparr>) (set_hostres (cp_hostres (o_copies s a)) h s)"
  using assms that
  by (auto simp: pre_schedule_def pre_schedule_on_def Let_def split: if_splits prod.splits)

lemma granted_other: "granted a s s' \<Longrightarrow> b \<noteq> a \<Longrightarrow> o_copies s' b = o_copies s b"
  by (erule granted_cases) (auto simp: heap_defs)

lemma lock_device_comm:
  assumes "lock_device_access w h = (NNP_NO_ERROR, h1)" "lock_device_access v h1 = (NNP_NO_ERROR, h2)"
  obtains h3 where "lock_device_access v h = (NNP_NO_ERROR, h3)" "lock_device_access w h3 = (NNP_NO_ERROR, h2)"
  using assms by (cases "lockless h") (auto simp: lock_device_access_def lockless_def split: if_splits)

text \<open>The state after a lock: the host resource is \<open>h\<close>, the copy is under way.\<close>

definition with_lock :: "addr \<Rightarrow> hostres \<Rightarrow> 'a objects_scheme \<Rightarrow> 'a objects_scheme" where
  "with_lock a h s = set_copy a (o_copies s a\<lparr>cp_scheduled := True\<rparr>) (set_hostres (cp_hostres (o_copies s a)) h s)"

lemma with_lock_copies: "o_copies (with_lock a h s) = (o_copies s)(a := o_copies s a\<lparr>cp_scheduled := True\<rparr>)"
  and with_lock_hostres: "o_hostres (with_lock a h s) = (o_hostres s)(cp_hostres (o_copies s a) := h)"
  by (simp_all add: with_lock_def heap_defs)

lemma granted_with_lock:
  "granted a s s' \<longleftrightarrow> (cp_is_d2d (o_copies s a) \<and> s' = s)
     \<or> (\<not> cp_is_d2d (o_copies s a) \<and> cp_hostres (o_copies s a) \<noteq> null
        \<and> (\<exists>h. lock_device_access (cp_c2h (o_copies s a)) (o_hostres s (cp_hostres (o_copies s a))) = (NNP_NO_ERROR, h)
                \<and> s' = with_lock a h s))"
  unfolding pre_schedule_def pre_schedule_on_def Let_def with_lock_def
  by (auto split: if_splits prod.splits)

lemma with_lock_comm:
  assumes "a \<noteq> b"
  shows "cp_hostres (o_copies s a) \<noteq> cp_hostres (o_copies s b) \<Longrightarrow>
      with_lock a h (with_lock b k s) = with_lock b k (with_lock a h s)"
    and "cp_hostres (o_copies s a) = cp_hostres (o_copies s b) \<Longrightarrow>
      with_lock a k (with_lock b h s) = with_lock b k (with_lock a h s)"
    and "cp_hostres (o_copies s a) = cp_hostres (o_copies s b) \<Longrightarrow>
      with_lock a k (with_lock b h s) = with_lock a k (with_lock b h' s)"
  using assms by (simp_all add: with_lock_def heap_defs fun_upd_twist)

lemma granted_comm:
  assumes "granted a s s1" "granted b s1 s2" "a \<noteq> b"
  shows "\<exists>s3. granted b s s3 \<and> granted a s3 s2"
proof (cases "cp_is_d2d (o_copies s a)")
  case True
  then have "s1 = s" using assms(1) by (simp add: pre_schedule_d2d)
  then have "o_copies s2 a = o_copies s a" using granted_other [OF assms(2), of a] assms(3) by simp
  then show ?thesis using \<open>s1 = s\<close> assms(2) True by (auto simp: pre_schedule_d2d)
next
  case a: False
  let ?ha = "cp_hostres (o_copies s a)" and ?hb = "cp_hostres (o_copies s b)"
  let ?wa = "cp_c2h (o_copies s a)" and ?wb = "cp_c2h (o_copies s b)"
  obtain h where h: "?ha \<noteq> null" "lock_device_access ?wa (o_hostres s ?ha) = (NNP_NO_ERROR, h)" "s1 = with_lock a h s"
    using assms(1) a unfolding granted_with_lock by blast
  have ob: "o_copies s1 b = o_copies s b" using granted_other [OF assms(1), of b] assms(3) by simp
  show ?thesis
  proof (cases "cp_is_d2d (o_copies s b)")
    case True
    then show ?thesis using assms(1,2) ob by (simp add: pre_schedule_d2d)
  next
    case b: False
    then obtain k where k: "?hb \<noteq> null" "lock_device_access ?wb (o_hostres s1 ?hb) = (NNP_NO_ERROR, k)"
        "s2 = with_lock b k s1"
      using assms(2) ob unfolding granted_with_lock by auto
    show ?thesis
    proof (cases "?ha = ?hb")
      case True
      then have "lock_device_access ?wb h = (NNP_NO_ERROR, k)" using h(3) k(2) by (simp add: with_lock_hostres)
      then obtain h3 where h3: "lock_device_access ?wb (o_hostres s ?ha) = (NNP_NO_ERROR, h3)"
          "lock_device_access ?wa h3 = (NNP_NO_ERROR, k)"
        using lock_device_comm [OF h(2)] by blast
      have "granted b s (with_lock b h3 s)"
        using b k(1) h3(1) True unfolding granted_with_lock by simp
      moreover have "granted a (with_lock b h3 s) (with_lock a k (with_lock b h3 s))"
        using a h(1) h3(2) True assms(3) unfolding granted_with_lock
        by (simp add: with_lock_copies with_lock_hostres)
      moreover have "with_lock a k (with_lock b h3 s) = s2"
        using with_lock_comm(2,3) [OF assms(3) True] h(3) k(3) by metis
      ultimately show ?thesis by metis
    next
      case False
      have "granted b s (with_lock b k s)"
        using b k(1,2) h(3) False unfolding granted_with_lock by (simp add: with_lock_hostres)
      moreover have "granted a (with_lock b k s) (with_lock a h (with_lock b k s))"
        using a h(1,2) False assms(3) unfolding granted_with_lock
        by (simp add: with_lock_copies with_lock_hostres)
      moreover have "with_lock a h (with_lock b k s) = s2"
        using with_lock_comm(1) [OF assms(3) False] h(3) k(3) by simp
      ultimately show ?thesis by metis
    qed
  qed
qed

section \<open>Lists of copies\<close>

text \<open>A copy the rollback is right about: not under way, with its host resource of its own.\<close>

definition idle_copy :: "'a objects_scheme \<Rightarrow> addr \<Rightarrow> bool" where
  "idle_copy s a \<longleftrightarrow> \<not> cp_scheduled (o_copies s a) \<and> \<not> cp_is_subres (o_copies s a)"

lemma post_idle: "idle_copy s a \<Longrightarrow> post_schedule el a s = Done (el, s)"
  by (simp add: idle_copy_def post_schedule_def)

lemma prepare_granted:
  "prepare_copies (a # as) s = Done (True, a # as, s') \<longleftrightarrow>
     (\<exists>s1. granted a s s1 \<and> prepare_copies as s1 = Done (True, as, s'))"
  by (auto simp: obind_Done_iff split: if_splits)

lemma prepare_True_all: "prepare_copies as s = Done (True, tried, s') \<Longrightarrow> tried = as"
  by (induction as arbitrary: s tried s') (auto simp: obind_Done_iff split: if_splits)

lemma prepare_other: "prepare_copies as s = Done (True, as, s') \<Longrightarrow> b \<notin> set as \<Longrightarrow> o_copies s' b = o_copies s b"
proof (induction as arbitrary: s)
  case (Cons a as)
  then show ?case unfolding prepare_granted using granted_other by fastforce
qed simp

lemma prepare_comm:
  assumes "granted a s s1" "prepare_copies as s1 = Done (True, as, s2)" "a \<notin> set as"
  shows "\<exists>s3. prepare_copies as s = Done (True, as, s3) \<and> granted a s3 s2"
  using assms
proof (induction as arbitrary: s s1)
  case (Cons b as)
  then obtain t where t: "granted b s1 t" "prepare_copies as t = Done (True, as, s2)"
    unfolding prepare_granted by blast
  obtain u where u: "granted b s u" "granted a u t"
    using granted_comm [OF Cons.prems(1) t(1)] Cons.prems(3) by auto
  obtain s3 where "prepare_copies as u = Done (True, as, s3)" "granted a s3 s2"
    using Cons.IH [OF u(2) t(2)] Cons.prems(3) by auto
  then show ?case using u(1) unfolding prepare_granted by blast
qed simp

lemma done_prepared:
  assumes "prepare_copies as s = Done (True, as, s')" "distinct as" "\<forall>a \<in> set as. idle_copy s a"
  shows "done_copies None as s' = Done (None, s)"
  using assms
proof (induction as arbitrary: s s')
  case (Cons a as)
  then obtain s1 where s1: "granted a s s1" "prepare_copies as s1 = Done (True, as, s')"
    unfolding prepare_granted by blast
  obtain s3 where s3: "prepare_copies as s = Done (True, as, s3)" "granted a s3 s'"
    using prepare_comm [OF s1] Cons.prems(2) by auto
  have "o_copies s3 a = o_copies s a" using prepare_other [OF s3(1), of a] Cons.prems(2) by simp
  then have "post_schedule None a s' = Done (None, s3)"
    using post_pre_schedule [OF s3(2)] Cons.prems(3) by (simp add: idle_copy_def)
  then show ?case using Cons.IH [OF s3(1)] Cons.prems(2,3) by simp
qed simp

lemma prepare_refused:
  assumes "prepare_copies as s = Done (False, tried, s')"
  obtains ps x xs where "as = ps @ x # xs" "tried = ps @ [x]" "prepare_copies ps s = Done (True, ps, s')"
  using assms
proof (induction as arbitrary: s tried thesis)
  case (Cons a as)
  from Cons.prems(2) obtain r s1 where r: "pre_schedule a s = Done (r, s1)"
    and rest: "(if r then obind (prepare_copies as s1) (\<lambda>(r', tried, s2). Done (r', a # tried, s2))
       else Done (False, [a], s1)) = Done (False, tried, s')" by (auto elim: obind_DoneE)
  show ?case
  proof (cases r)
    case False
    then have "tried = [a]" "s1 = s'" using rest by simp_all
    moreover have "s1 = s" using pre_schedule_refused [of a s s1] r False by simp
    ultimately show thesis using Cons.prems(1) [of "[]" a as] by simp
  next
    case True
    then obtain t where t: "prepare_copies as s1 = Done (False, t, s')" and tr: "tried = a # t"
      using rest by (auto elim!: obind_DoneE)
    obtain ps x xs where "as = ps @ x # xs" "t = ps @ [x]" "prepare_copies ps s1 = Done (True, ps, s')"
      using Cons.IH [OF _ t] by blast
    then show thesis using Cons.prems(1) [of "a # ps" x xs] tr r True by (simp add: prepare_granted)
  qed
qed simp

lemma done_append: "done_copies el (xs @ ys) s = obind (done_copies el xs s) (\<lambda>(el1, s1). done_copies el1 ys s1)"
proof (induction xs arbitrary: el s)
  case (Cons a as)
  then show ?case by (cases "post_schedule el a s") auto
qed simp

lemma refused_undone:
  assumes "prepare_copies as s = Done (False, tried, s')" "distinct as" "\<forall>a \<in> set as. idle_copy s a"
  shows "done_copies None tried s' = Done (None, s)"
proof -
  obtain ps x xs where as: "as = ps @ x # xs" "tried = ps @ [x]" and p: "prepare_copies ps s = Done (True, ps, s')"
    using prepare_refused [OF assms(1)] .
  have "done_copies None ps s' = Done (None, s)" using done_prepared [OF p] assms(2,3) as by simp
  moreover have "post_schedule None x s = Done (None, s)" using assms(3) as by (simp add: post_idle)
  ultimately show ?thesis by (simp add: as done_append)
qed

section \<open>Lists of commands\<close>

primrec locked_copies :: "sched_cmd \<Rightarrow> addr list" where
  "locked_copies (Cmd_Copy p) = [cpp_copy p]"
| "locked_copies (Cmd_CopyList l) = (if clp_need_prepare l then map cpp_copy (clp_copies l) else [])"
| "locked_copies (Cmd_InfReq r) = []"

definition all_locked :: "sched_cmd list \<Rightarrow> addr list" where
  "all_locked xs = concat (map locked_copies xs)"

lemma all_locked_simps [simp]: "all_locked [] = []" "all_locked (x # xs) = locked_copies x @ all_locked xs"
  by (simp_all add: all_locked_def)

lemma prepare_append:
  "prepare_copies (xs @ ys) s = Done (True, xs @ ys, s') \<longleftrightarrow>
     (\<exists>s1. prepare_copies xs s = Done (True, xs, s1) \<and> prepare_copies ys s1 = Done (True, ys, s'))"
proof (induction xs arbitrary: s)
  case (Cons a as)
  then show ?case unfolding append_Cons prepare_granted by blast
qed simp

lemma prepare_schedule_granted:
  "prepare_schedule x s = Done (True, s') \<longleftrightarrow> prepare_copies (locked_copies x) s = Done (True, locked_copies x, s')"
proof (cases x)
  case (Cmd_Copy p)
  then show ?thesis using prepare_granted [of "cpp_copy p" "[]" s s'] by simp
next
  case (Cmd_CopyList l)
  then show ?thesis
    by (auto simp: obind_Done_iff split: if_splits dest: prepare_True_all)
qed simp

lemma prepare_schedule_refused:
  assumes "prepare_schedule x s = Done (False, s')" "distinct (locked_copies x)" "\<forall>a \<in> set (locked_copies x). idle_copy s a"
  shows "s' = s"
proof (cases x)
  case (Cmd_Copy p)
  then show ?thesis using assms(1) pre_schedule_refused [of "cpp_copy p" s s'] by simp
next
  case (Cmd_CopyList l)
  show ?thesis
  proof (cases "clp_need_prepare l")
    case True
    then obtain tried s1 el where "prepare_copies (map cpp_copy (clp_copies l)) s = Done (False, tried, s1)"
      "done_copies None tried s1 = Done (el, s')"
      using assms(1) Cmd_CopyList by (auto simp: obind_Done_iff split: if_splits)
    then show ?thesis using refused_undone assms(2,3) Cmd_CopyList True by fastforce
  qed (use assms(1) Cmd_CopyList in simp)
qed (use assms(1) in simp)

lemma schedule_done_copies: "schedule_done el x s = done_copies el (locked_copies x) s"
proof (cases x)
  case (Cmd_Copy p)
  then show ?thesis by (cases "post_schedule el (cpp_copy p) s") auto
qed simp_all

lemma post_none: "post_schedule None a s = Done (el, s') \<Longrightarrow> el = None"
  by (auto simp: post_schedule_def Let_def split: if_splits)

lemma done_none: "done_copies None as s = Done (el, s') \<Longrightarrow> el = None"
proof (induction as arbitrary: s)
  case (Cons a as)
  then obtain el1 s1 where s1: "post_schedule None a s = Done (el1, s1)" "done_copies el1 as s1 = Done (el, s')"
    by (auto elim!: obind_DoneE)
  then show ?case using Cons.IH [of s1] post_none [OF s1(1)] by simp
qed simp

lemma done_cmds_copies: "done_copies None (all_locked xs) s = Done (el, s') \<Longrightarrow> done_cmds xs s = Done s'"
proof (induction xs arbitrary: s)
  case (Cons x xs)
  then obtain el1 s1 where s1: "done_copies None (locked_copies x) s = Done (el1, s1)"
    "done_copies el1 (all_locked xs) s1 = Done (el, s')" by (auto simp: done_append elim!: obind_DoneE)
  then show ?case using done_none [OF s1(1)] Cons.IH [of s1] by (simp add: schedule_done_copies)
qed simp

lemma prepare_cmds_granted:
  "prepare_cmds xs s = Done (True, s') \<longleftrightarrow> prepare_copies (all_locked xs) s = Done (True, all_locked xs, s')"
proof (induction xs arbitrary: s)
  case (Cons x xs)
  then show ?case
    by (auto simp: obind_Done_iff prepare_append prepare_schedule_granted [symmetric] split: if_splits)
qed simp

lemma idle_after:
  assumes "prepare_schedule x s = Done (True, s1)" "a \<notin> set (locked_copies x)" "idle_copy s a"
  shows "idle_copy s1 a"
  using prepare_other [of "locked_copies x" s s1 a] assms
  by (simp add: prepare_schedule_granted idle_copy_def)

lemma prepare_cmds_refused:
  assumes "prepare_cmds xs s = Done (False, s')" "distinct (all_locked xs)" "\<forall>a \<in> set (all_locked xs). idle_copy s a"
  shows "s' = s"
  using assms
proof (induction xs arbitrary: s s')
  case (Cons x xs)
  then obtain r s1 where r: "prepare_schedule x s = Done (r, s1)"
    and rest: "(if \<not> r then Done (False, s1) else obind (prepare_cmds xs s1) (\<lambda>(r', s2).
       if r' then Done (True, s2) else obind (schedule_done None x s2) (\<lambda>(_, s3). Done (False, s3))))
       = Done (False, s')" by (auto elim: obind_DoneE)
  show ?case
  proof (cases r)
    case False
    then show ?thesis using rest prepare_schedule_refused [of x s s1] r Cons.prems(2,3) by simp
  next
    case True
    then obtain s2 el where s2: "prepare_cmds xs s1 = Done (False, s2)" "schedule_done None x s2 = Done (el, s')"
      using rest by (auto elim!: obind_DoneE split: if_splits)
    have "\<forall>a \<in> set (all_locked xs). idle_copy s1 a"
      using idle_after [of x s s1] r True Cons.prems(2,3) by fastforce
    then have "s2 = s1" using Cons.IH [OF s2(1)] Cons.prems(2) by simp
    moreover have "done_copies None (locked_copies x) s1 = Done (None, s)"
      using done_prepared [of "locked_copies x" s s1] r True Cons.prems(2,3)
      by (simp add: prepare_schedule_granted)
    ultimately show ?thesis using s2(2) by (simp add: schedule_done_copies)
  qed
qed simp

section \<open>Properties\<close>

text \<open>C6: taking the locks of a command list is all or nothing. When a buffer refuses, every lock taken so
  far is given back and the state is exactly what it was; when all are granted, giving them back in
  the same order restores the state, although the commands share buffers and their locks are not
  released in the order of a stack. The copies of the list must be different and not under way.\<close>

theorem list_locks_undone:
  assumes "prepare_cmds xs s = Done (r, s')" "distinct (all_locked xs)"
    "\<forall>a \<in> set (all_locked xs). idle_copy s a"
  shows "if r then done_cmds xs s' = Done s else s' = s"
proof (cases r)
  case True
  then have "prepare_copies (all_locked xs) s = Done (True, all_locked xs, s')"
    using assms(1) by (simp add: prepare_cmds_granted)
  then show ?thesis using done_prepared [OF _ assms(2,3)] done_cmds_copies True by fastforce
next
  case False
  then show ?thesis using prepare_cmds_refused assms by fastforce
qed

text \<open>C31: a copy remembers one lock only. If it is locked \<open>k\<close> times before the first completion
  (scheduled again while under way, or twice in a command list), any number of completions takes back
  one of the \<open>k\<close> read locks of its host resource: for \<open>k = 1\<close> the buffer is free
  again, for \<open>k > 1\<close> it stays locked against writers for ever.\<close>

theorem copy_lock_count:
  fixes s a
  defines "hr \<equiv> cp_hostres (o_copies s a)"
  assumes "idle_copy s a" "\<not> cp_is_d2d (o_copies s a)" "\<not> cp_c2h (o_copies s a)" "\<not> lockless (o_hostres s hr)"
    and "prepare_copies (replicate k a) s = Done (True, replicate k a, s1)"
    and "done_copies None (replicate j a) s1 = Done (el, s2)" "0 < k" "0 < j"
  shows "m_readers (o_hostres s2 hr) = m_readers (o_hostres s hr) + int k - 1
         \<and> (m_readers (o_hostres s hr) = 0 \<longrightarrow>
              (fst (lock_device_access True (o_hostres s2 hr)) = NNP_NO_ERROR \<longleftrightarrow> k = 1))"
proof -
  have pre: "o_copies t' a = o_copies t a\<lparr>cp_scheduled := cp_scheduled (o_copies t a) \<or> 0 < n\<rparr>
      \<and> o_hostres t' hr = o_hostres t hr\<lparr>m_readers := m_readers (o_hostres t hr) + int n\<rparr>"
    if "prepare_copies (replicate n a) t = Done (True, replicate n a, t')"
      "\<not> cp_is_d2d (o_copies t a)" "\<not> cp_c2h (o_copies t a)" "cp_hostres (o_copies t a) = hr"
      "\<not> lockless (o_hostres t hr)" for n t t'
    using that
  proof (induction n arbitrary: t)
    case (Suc n)
    then obtain u where u: "granted a t u" "prepare_copies (replicate n a) u = Done (True, replicate n a, t')"
      unfolding replicate_Suc prepare_granted by blast
    then obtain h where h: "lock_device_access False (o_hostres t hr) = (NNP_NO_ERROR, h)" "u = with_lock a h t"
      using Suc.prems(2-4) unfolding granted_with_lock by auto
    then have "h = o_hostres t hr\<lparr>m_readers := m_readers (o_hostres t hr) + 1\<rparr>"
      using Suc.prems(5) by (simp add: lock_device_access_def split: if_splits)
    then show ?case
      using Suc.IH [OF u(2)] Suc.prems(2-5) h(2)
      by (simp add: with_lock_copies with_lock_hostres lockless_def)
  qed simp
  have idle: "done_copies None (replicate n a) t = Done (None, t)" if "\<not> cp_scheduled (o_copies t a)" for n t
    using that by (induction n) (simp_all add: post_schedule_def)
  obtain i where i: "j = Suc i" using assms(9) by (cases j) simp_all
  have "cp_hostres (o_copies s a) = hr" by (simp add: hr_def)
  note s1 = pre [OF assms(6,3,4) this assms(5)]
  obtain e t where "post_schedule None a s1 = Done (e, t)" "done_copies e (replicate i a) t = Done (el, s2)"
    using assms(7) i by (auto elim!: obind_DoneE)
  then have t: "post_schedule None a s1 = Done (None, t)" "done_copies None (replicate i a) t = Done (el, s2)"
    using post_none by blast+
  then have "\<not> cp_scheduled (o_copies t a)"
      "o_hostres t hr = o_hostres s hr\<lparr>m_readers := m_readers (o_hostres s hr) + int k - 1\<rparr>"
    using s1 assms(2-5,8) hr_def
    by (auto simp: post_schedule_def idle_copy_def Let_def heap_defs unlock_device_access_def lockless_def
        split: if_splits)
  then show ?thesis using idle [of t i] t(2) assms(5,8) by (auto simp: lock_device_access_def lockless_def)
qed

text \<open>Copy 1 of the sample state, locked twice for its buffer 17.\<close>

theorem copy_lock_count_witness:
  "\<exists>s1 el s2. prepare_copies [1, 1] (sample_proc (\<lambda>_. 8) []) = Done (True, [1, 1], s1)
     \<and> done_copies None [1, 1] s1 = Done (el, s2) \<and> m_readers (o_hostres s2 17) = 1"
proof -
  let ?s = "sample_proc (\<lambda>_. 8) []"
  have h: "o_hostres ?s = (\<lambda>_. hostres_new 64 3 0 4096 True)" "o_copies ?s 1 = copy_new 1 1 3 17 3 7 False"
    by (simp_all add: sample_proc_def)
  have p: "\<exists>s1. prepare_copies [1, 1] ?s = Done (True, [1, 1], s1) \<and> (\<exists>s2. done_copies None [1, 1] s1 = Done (None, s2))"
    by (simp add: pre_schedule_def pre_schedule_on_def post_schedule_def h copy_new_def hostres_new_def
        lock_device_access_def lockless_def has_flag_def heap_defs Let_def)
  then obtain s1 s2 where p: "prepare_copies [1, 1] ?s = Done (True, [1, 1], s1)"
    "done_copies None [1, 1] s1 = Done (None, s2)" by blast
  have r: "replicate 2 (1::addr) = [1, 1]" by (simp add: numeral_2_eq_2)
  have "m_readers (o_hostres s2 17) = 1"
    using copy_lock_count [of ?s 1 2 s1 2 None s2, unfolded r] p
    by (simp add: h idle_copy_def copy_new_def lockless_def hostres_new_def has_flag_def
        del: prepare_copies.simps done_copies.simps)
  then show ?thesis using p by blast
qed

text \<open>Copy 1 gets its buffer 17, copy 2 is refused: buffer 18 is being written.\<close>

theorem list_locks_undone_witness:
  "prepare_cmds [Cmd_Copy (sample_copy 1), Cmd_Copy (sample_copy 2)]
       (set_hostres 18 ((hostres_new 64 3 0 4096 True)\<lparr>m_readers := -1\<rparr>) (sample_proc (\<lambda>_. 8) []))
     = Done (False, set_hostres 18 ((hostres_new 64 3 0 4096 True)\<lparr>m_readers := -1\<rparr>) (sample_proc (\<lambda>_. 8) []))"
proof -
  let ?s = "set_hostres 18 ((hostres_new 64 3 0 4096 True)\<lparr>m_readers := -1\<rparr>) (sample_proc (\<lambda>_. 8) [])"
  let ?xs = "[Cmd_Copy (sample_copy 1), Cmd_Copy (sample_copy 2)]"
  have h: "o_hostres ?s = (\<lambda>_. hostres_new 64 3 0 4096 True)(18 := (hostres_new 64 3 0 4096 True)\<lparr>m_readers := -1\<rparr>)"
    "o_copies ?s 1 = copy_new 1 1 3 17 3 7 False" "o_copies ?s 2 = copy_new 1 2 3 18 3 7 False"
    by (simp_all add: sample_proc_def set_hostres_def)
  have "\<exists>s'. prepare_cmds ?xs ?s = Done (False, s')"
    by (simp add: pre_schedule_def pre_schedule_on_def post_schedule_def sample_proc_def copy_new_def hostres_new_def sample_copy_def
        lock_device_access_def lockless_def has_flag_def heap_defs Let_def)
  then obtain s' where p: "prepare_cmds ?xs ?s = Done (False, s')" by blast
  then show ?thesis
    using list_locks_undone [OF p]
    by (simp add: h idle_copy_def copy_new_def sample_copy_def del: prepare_cmds.simps)
qed

end
