(* ===== verification/Batching.thy ===== *)
theory Batching
  imports Frame Sample
begin

text \<open>
  Batching the copies of a command list: \<open>subcmds\<close> are the commands a command stands for. A batched
  list stands for the same commands in the same order, and \<open>get_cmd_for_overwrite\<close> still finds a
  command by the position at which the user appended it.
\<close>

section \<open>What a list stands for\<close>

primrec subcmds :: "sched_cmd \<Rightarrow> sched_cmd list" where
  "subcmds (Cmd_Copy p) = [Cmd_Copy p]"
| "subcmds (Cmd_CopyList l) = map Cmd_Copy (clp_copies l)"
| "subcmds (Cmd_InfReq r) = [Cmd_InfReq r]"

primrec cmd_index :: "sched_cmd \<Rightarrow> u16" where
  "cmd_index (Cmd_Copy p) = cpp_idx p"
| "cmd_index (Cmd_CopyList l) = clp_idx l"
| "cmd_index (Cmd_InfReq r) = irp_idx r"

text \<open>A command without its index, and all commands of a list so.\<close>

definition flat :: "sched_cmd list \<Rightarrow> sched_cmd list" where
  "flat xs = map (set_index 0) (concat (map subcmds xs))"

primrec is_copylist :: "sched_cmd \<Rightarrow> bool" where
  "is_copylist (Cmd_Copy p) = False"
| "is_copylist (Cmd_CopyList l) = True"
| "is_copylist (Cmd_InfReq r) = False"

text \<open>A batch: at least two copies between the host and the card, all in one direction, numbered, all
  marked and counted.\<close>

definition batch_ok :: "'a objects_scheme \<Rightarrow> copylist_params \<Rightarrow> bool" where
  "batch_ok s l \<longleftrightarrow> 2 \<le> length (clp_copies l) \<and> length (clp_copies l) \<le> 0xffff
     \<and> (\<exists>dir. \<forall>p \<in> set (clp_copies l). \<not> cp_is_d2d (o_copies s (cpp_copy p))
           \<and> cp_c2h (o_copies s (cpp_copy p)) = dir)
     \<and> map cpp_idx (clp_copies l) = map of_nat [0..<length (clp_copies l)]
     \<and> clp_edited l \<and> unat (clp_num_edits l) = length (clp_copies l)
     \<and> clp_need_prepare l = (\<exists>p \<in> set (clp_copies l). cp_need_prepare (o_copies s (cpp_copy p)))"

definition batched :: "'a objects_scheme \<Rightarrow> sched_cmd list \<Rightarrow> bool" where
  "batched s xs \<longleftrightarrow> (\<forall>k < length xs. cmd_index (xs ! k) = of_nat k
     \<and> (case xs ! k of Cmd_CopyList l \<Rightarrow> batch_ok s l | _ \<Rightarrow> True))"

lemma subcmds_set_index [simp]:
  "map (set_index 0) (subcmds (set_index i x)) = map (set_index 0) (subcmds x)"
  by (cases x) simp_all

lemma cmd_index_set_index [simp]: "cmd_index (set_index i x) = i"
  by (cases x) simp_all

lemma flat_simps [simp]:
  "flat [] = []" "flat (x # xs) = map (set_index 0) (subcmds x) @ flat xs"
  "flat (xs @ ys) = flat xs @ flat ys"
  by (simp_all add: flat_def)

lemma flat_copies [simp]: "flat (map Cmd_Copy ps) = map (\<lambda>p. set_index 0 (Cmd_Copy p)) ps"
  by (induction ps) simp_all

lemma index_copies_simps:
  "length (index_copies i ps) = length ps"
  "map cpp_idx (index_copies i ps) = map of_nat [i..<i + length ps]"
  "map (\<lambda>p. set_index 0 (Cmd_Copy p)) (index_copies i ps) = map (\<lambda>p. set_index 0 (Cmd_Copy p)) ps"
  "map cpp_copy (index_copies i ps) = map cpp_copy ps"
proof (induction ps arbitrary: i)
  case (Cons p ps)
  { case 2 then show ?case using Cons(2) [of "Suc i"] by (simp add: upt_conv_Cons del: upt_Suc) }
qed (simp_all add: fun_eq_iff)

section \<open>Closing a batch\<close>

lemma batched_push:
  assumes "batched s out" and "case x of Cmd_CopyList l \<Rightarrow> batch_ok s (l\<lparr>clp_idx := of_nat (length out)\<rparr>) | _ \<Rightarrow> True"
  shows "batched s (push_cmd out x) \<and> flat (push_cmd out x) = flat out @ map (set_index 0) (subcmds x)"
  using assms by (cases x) (auto simp: batched_def push_cmd_def nth_append less_Suc_eq)

definition same_dir :: "'a objects_scheme \<Rightarrow> bool \<Rightarrow> copy_params list \<Rightarrow> bool" where
  "same_dir s dir ps \<longleftrightarrow> (\<forall>p \<in> set ps. \<not> cp_is_d2d (o_copies s (cpp_copy p))
     \<and> cp_c2h (o_copies s (cpp_copy p)) = dir)"

lemma params_of_copies [simp]: "params_of (map Cmd_Copy ps) = ps"
  by (induction ps) (simp_all add: params_of_def)

lemma batch_ok_new:
  assumes "same_dir s dir ps" "2 \<le> length ps" "length ps \<le> 0xffff"
  shows "batch_ok s ((copylist_new ps s)\<lparr>clp_idx := i\<rparr>)"
proof -
  have c: "cpp_copy ` set (index_copies 0 ps) = cpp_copy ` set ps"
    using arg_cong [OF index_copies_simps(4) [of 0 ps], of set] by (simp add: image_image)
  have "\<forall>a \<in> cpp_copy ` set (index_copies 0 ps). \<not> cp_is_d2d (o_copies s a) \<and> cp_c2h (o_copies s a) = dir"
    unfolding c using assms(1) by (simp add: same_dir_def)
  moreover have "(\<exists>a \<in> cpp_copy ` set (index_copies 0 ps). cp_need_prepare (o_copies s a)) =
      (\<exists>a \<in> cpp_copy ` set ps. cp_need_prepare (o_copies s a))"
    by (simp add: c)
  ultimately show ?thesis
    using assms(2,3)
    by (auto simp: batch_ok_def copylist_new_def index_copies_simps list_ex_iff unat_of_nat take_bit_nat_eq_self)
qed

lemma batched_close:
  assumes "batched s out" "same_dir s dir ps" "ps \<noteq> []" "length ps \<le> 0xffff"
  shows "batched s (close_batch s (map Cmd_Copy ps) out)
    \<and> flat (close_batch s (map Cmd_Copy ps) out) = flat out @ flat (map Cmd_Copy ps)"
proof (cases "length ps = 1")
  case True
  then obtain p where "ps = [p]" by (cases ps) auto
  then show ?thesis using batched_push [OF assms(1), of "Cmd_Copy p"] by (simp add: close_batch_def)
next
  case False
  then have "2 \<le> length ps" using assms(3) by (cases ps; cases "tl ps") auto
  then have ok: "batch_ok s ((copylist_new ps s)\<lparr>clp_idx := of_nat (length out)\<rparr>)"
    using batch_ok_new assms by blast
  have "map (set_index 0) (subcmds (Cmd_CopyList (copylist_new ps s))) = flat (map Cmd_Copy ps)"
    using index_copies_simps(3) [of 0 ps] by (simp add: copylist_new_def o_def)
  then show ?thesis
    using batched_push [OF assms(1), of "Cmd_CopyList (copylist_new ps s)"] ok False by (simp add: close_batch_def)
qed


section \<open>The loop\<close>

text \<open>The open batch: the copies \<open>ps\<close> of the vector from \<open>start\<close> up to the loop's position.\<close>

definition open_batch ::
    "'a objects_scheme \<Rightarrow> sched_cmd list \<Rightarrow> nat \<Rightarrow> (copy_params \<times> nat) option \<Rightarrow> copy_params list \<Rightarrow> bool" where
  "open_batch s vec i batch ps \<longleftrightarrow>
     (case batch of
        None \<Rightarrow> ps = []
      | Some (q, start) \<Rightarrow> start + length ps = i \<and> ps \<noteq> [] \<and> i < length vec
          \<and> take (length ps) (drop start vec) = map Cmd_Copy ps
          \<and> same_dir s (cp_c2h (o_copies s (cpp_copy q))) ps \<and> length ps \<le> 0xffff)"

lemma batchable_Some: "batchable s x = Some p \<longleftrightarrow> x = Cmd_Copy p \<and> \<not> cp_is_d2d (o_copies s (cpp_copy p))"
  by (auto simp: batchable_def split: sched_cmd.splits)

lemma take_Suc_drop: "start + n < length vec \<Longrightarrow> vec ! (start + n) = x \<Longrightarrow>
    take (Suc n) (drop start vec) = take n (drop start vec) @ [x]"
  by (simp add: take_Suc_conv_app_nth)

lemma batch_loop_spec:
  assumes "xs = drop i vec" "i \<le> length vec" "batched s out" "open_batch s vec i batch ps"
    and "\<forall>x \<in> set xs. \<not> is_copylist x"
  shows "batched s (batch_loop s vec i xs batch out) \<and>
         flat (batch_loop s vec i xs batch out) = flat out @ flat (map Cmd_Copy ps) @ flat xs"
  using assms
proof (induction xs arbitrary: i batch ps out)
  case Nil
  then show ?case by (auto simp: open_batch_def split: option.splits)
next
  case (Cons x xs)
  have i: "i < length vec" using Cons.prems(1,2) by (cases "i = length vec") auto
  have "x # xs = vec ! i # drop (Suc i) vec"
    using Cons.prems(1) Cons_nth_drop_Suc [OF i] by simp
  then have x: "vec ! i = x" and xs: "xs = drop (Suc i) vec" by simp_all
  have pass: "case x of Cmd_CopyList l \<Rightarrow> batch_ok s (l\<lparr>clp_idx := j\<rparr>) | _ \<Rightarrow> True" for j
    using Cons.prems(5) by (cases x) auto
  note IH = Cons.IH [OF xs]
  have none: "open_batch s vec j None []" for j by (simp add: open_batch_def)
  show ?case
  proof (cases batch)
    case None
    then have ps: "ps = []" using Cons.prems(4) by (simp add: open_batch_def)
    show ?thesis
    proof (cases "batchable s x")
      case nb: None
      then show ?thesis
        using IH [OF _ conjunct1 [OF batched_push [OF Cons.prems(3) pass]] none] batched_push [OF Cons.prems(3) pass]
          i None ps Cons.prems(5) by simp
    next
      case (Some p)
      then have xp: "x = Cmd_Copy p" "same_dir s (cp_c2h (o_copies s (cpp_copy p))) [p]"
        by (simp_all add: batchable_Some same_dir_def)
      have one: "take 1 (drop i vec) = map Cmd_Copy [p]" using i x xp(1) by (simp add: take_Suc_conv_app_nth)
      show ?thesis
      proof (cases "i = length vec - 1")
        case True
        then have "xs = []" using xs by simp
        then show ?thesis
          using batched_close [OF Cons.prems(3) xp(2)] None ps Some True one xp(1) by simp
      next
        case False
        then have "open_batch s vec (Suc i) (Some (p, i)) [p]"
          using i one xp(2) by (simp add: open_batch_def)
        then show ?thesis
          using IH [OF _ Cons.prems(3)] None ps Some False xp(1) i Cons.prems(5) by simp
      qed
    qed
  next
    case (Some qs)
    obtain q start where qs: "qs = (q, start)" by (cases qs)
    note ob = Cons.prems(4) [unfolded open_batch_def Some qs, simplified]
    have len: "i - start = length ps" using ob by auto
    note closed = batched_close [OF Cons.prems(3)]
    show ?thesis
    proof (cases "\<exists>p. batchable s x = Some p \<and> cp_c2h (o_copies s (cpp_copy p)) = cp_c2h (o_copies s (cpp_copy q))
          \<and> i - start < 0xffff")
      case False
      let ?out = "close_batch s (map Cmd_Copy ps) out"
      have c: "batched s ?out \<and> flat ?out = flat out @ flat (map Cmd_Copy ps)"
        using closed ob by blast
      have "batch_loop s vec i (x # xs) batch out = batch_loop s vec (Suc i) xs None (push_cmd ?out x)"
        using False ob len Some qs by (auto simp: Let_def split: option.splits)
      then show ?thesis
        using IH [OF _ conjunct1 [OF batched_push [OF conjunct1 [OF c] pass]] none]
          batched_push [OF conjunct1 [OF c] pass] c i Cons.prems(5) by simp
    next
      case True
      then obtain p where p: "batchable s x = Some p" "cp_c2h (o_copies s (cpp_copy p)) = cp_c2h (o_copies s (cpp_copy q))"
        "i - start < 0xffff" by blast
      then have xp: "x = Cmd_Copy p" by (simp add: batchable_Some)
      have sd: "same_dir s (cp_c2h (o_copies s (cpp_copy q))) (ps @ [p])"
        using ob p by (auto simp: same_dir_def batchable_Some)
      have tk: "take (Suc (length ps)) (drop start vec) = map Cmd_Copy (ps @ [p])"
        using take_Suc_drop [of start "length ps" vec x] ob x xp i by auto
      show ?thesis
      proof (cases "i = length vec - 1")
        case last: True
        then have "xs = []" using xs by simp
        have "batch_loop s vec i (x # xs) batch out = close_batch s (map Cmd_Copy (ps @ [p])) out"
          using p last tk len Some qs \<open>xs = []\<close> by (simp add: Let_def)
        then show ?thesis
          using closed [OF sd] p(3) len xp \<open>xs = []\<close> by simp
      next
        case False
        then have "Suc i < length vec" using i by linarith
        then have "open_batch s vec (Suc i) (Some (q, start)) (ps @ [p])"
          using ob sd tk p(3) len by (simp add: open_batch_def)
        then show ?thesis
          using IH [OF _ Cons.prems(3)] p False Some qs xp i Cons.prems(5) by simp
      qed
    qed
  qed
qed


lemma batch_copies_flat:
  assumes "\<forall>x \<in> set vec. \<not> is_copylist x"
  shows "flat (batch_copies s vec) = flat vec \<and> batched s (batch_copies s vec)"
proof -
  have "batched s []" "open_batch s vec 0 None []" by (simp_all add: batched_def open_batch_def)
  then show ?thesis
    using batch_loop_spec [of vec 0 vec s "[]" None "[]"] assms by (simp add: batch_copies_def)
qed

text \<open>C2: batching a list keeps what it stands for: the same commands in the same order, with the same
  parameters. The commands are numbered from 0, and every batch is at least two copies of one
  direction between the host and the card, numbered, marked and counted.\<close>

theorem batching_equivalence:
  assumes "\<forall>x \<in> set vec. \<not> is_copylist x"
  shows "flat (batch_copies s vec) = flat vec \<and> batched s (batch_copies s vec)"
  by (rule batch_copies_flat [OF assms])

text \<open>A list of two copies to the card, one back, an infer request and two more copies.\<close>

definition sample_cmds :: "sched_cmd list" where
  "sample_cmds = [Cmd_Copy (sample_copy 1), Cmd_Copy (sample_copy 2), Cmd_InfReq (infreq_params_new 9 None),
     Cmd_Copy (sample_copy 3), Cmd_Copy (sample_copy 4)]"

theorem batching_equivalence_witness:
  "flat (batch_copies (sample_proc (\<lambda>_. 8) []) sample_cmds) = flat sample_cmds
   \<and> batched (sample_proc (\<lambda>_. 8) []) (batch_copies (sample_proc (\<lambda>_. 8) []) sample_cmds)
   \<and> length (batch_copies (sample_proc (\<lambda>_. 8) []) sample_cmds) = 3"
proof -
  have "length (batch_copies (sample_proc (\<lambda>_. 8) []) sample_cmds) = 3"
    by (simp add: batch_copies_def sample_cmds_def batchable_def sample_copy_def sample_proc_def
        copy_new_def close_batch_def push_cmd_def)
  then show ?thesis
    using batching_equivalence [of sample_cmds "sample_proc (\<lambda>_. 8) []"] by (simp add: sample_cmds_def)
qed

section \<open>Overwriting by position\<close>

lemma num_of_subcmds_length: "num_of_subcmds x = of_nat (length (subcmds x))"
  by (cases x) simp_all

lemma length_flat: "length (flat (x # xs)) = length (subcmds x) + length (flat xs)"
  by simp

lemma find_cmd_spec:
  assumes "\<forall>x \<in> set xs. length (subcmds x) < 65536"
  shows "if unat i < length (flat xs)
    then \<exists>k j. find_cmd i xs = Some (k, j) \<and> k < length xs \<and> unat j < length (subcmds (xs ! k))
           \<and> length (flat (take k xs)) + unat j = unat i
    else find_cmd i xs = None"
  using assms
proof (induction i xs rule: find_cmd.induct)
  case (2 i x xs)
  have n: "unat (num_of_subcmds x) = length (subcmds x)"
    using 2(2) by (simp add: num_of_subcmds_length unat_of_nat take_bit_nat_eq_self)
  have le: "(num_of_subcmds x \<le> i) = (length (subcmds x) \<le> unat i)"
    by (simp add: word_le_nat_alt n)
  show ?case
  proof (cases "num_of_subcmds x \<le> i")
    case False
    then have "unat i < length (subcmds x)" using le by simp
    then show ?thesis using False by (simp add: exI [of _ "0::nat"])
  next
    case True
    then have sub: "unat (i - num_of_subcmds x) = unat i - length (subcmds x)" "length (subcmds x) \<le> unat i"
      using le n by (simp_all add: unat_sub)
    have IH: "if unat (i - num_of_subcmds x) < length (flat xs)
      then \<exists>k j. find_cmd (i - num_of_subcmds x) xs = Some (k, j) \<and> k < length xs \<and> unat j < length (subcmds (xs ! k))
             \<and> length (flat (take k xs)) + unat j = unat (i - num_of_subcmds x)
      else find_cmd (i - num_of_subcmds x) xs = None"
      using 2 True by simp
    show ?thesis
    proof (cases "unat i < length (flat (x # xs))")
      case False
      then show ?thesis using IH True sub by (auto split: if_splits)
    next
      case t: True
      then have "unat (i - num_of_subcmds x) < length (flat xs)" using sub by simp
      then obtain k j where "find_cmd (i - num_of_subcmds x) xs = Some (k, j)" "k < length xs"
        "unat j < length (subcmds (xs ! k))" "length (flat (take k xs)) + unat j = unat (i - num_of_subcmds x)"
        using IH by auto
      then have "find_cmd i (x # xs) = Some (Suc k, j)" "Suc k < length (x # xs)"
        "unat j < length (subcmds ((x # xs) ! Suc k))" "length (flat (take (Suc k) (x # xs))) + unat j = unat i"
        using True sub by simp_all
      then show ?thesis using t by (metis (lifting))
    qed
  qed
qed simp

primrec mark_edited :: "sched_cmd \<Rightarrow> sched_cmd" where
  "mark_edited (Cmd_Copy p) = Cmd_Copy (p\<lparr>cpp_edited := True\<rparr>)"
| "mark_edited (Cmd_CopyList l) = Cmd_CopyList l"
| "mark_edited (Cmd_InfReq r) = Cmd_InfReq (r\<lparr>irp_edited := True\<rparr>)"

lemma mark_for_overwrite_subcmds:
  assumes "unat j < length (subcmds x)" "length (subcmds x) < 65536"
  obtains y where "mark_for_overwrite j x = Some y"
    "subcmds y = (subcmds x)[unat j := mark_edited (subcmds x ! unat j)]"
proof (cases x)
  case (Cmd_Copy p)
  then have "unat j = 0" "j = 0" using assms(1) by (simp_all add: unat_eq_zero)
  then show thesis using that Cmd_Copy by simp
next
  case (Cmd_InfReq r)
  then have "unat j = 0" "j = 0" using assms(1) by (simp_all add: unat_eq_zero)
  then show thesis using that Cmd_InfReq by simp
next
  case (Cmd_CopyList l)
  have u: "unat (of_nat (length (clp_copies l)) :: u16) = length (clp_copies l)"
    using assms(2) Cmd_CopyList by (simp add: unat_of_nat take_bit_nat_eq_self)
  have "\<not> of_nat (length (clp_copies l)) \<le> j" using assms(1) Cmd_CopyList by (simp add: word_le_nat_alt u)
  then show thesis using that Cmd_CopyList assms(1) by (simp add: Let_def map_update)
qed

lemma flat_update:
  assumes "k < length xs" "subcmds y = (subcmds (xs ! k))[j := z]" "j < length (subcmds (xs ! k))"
  shows "flat (xs[k := y]) = (flat xs)[length (flat (take k xs)) + j := set_index 0 z]"
proof -
  have xs: "xs = take k xs @ xs ! k # drop (Suc k) xs" using assms(1) by (simp add: id_take_nth_drop)
  have "flat (xs[k := y]) = flat (take k xs) @ map (set_index 0) (subcmds y) @ flat (drop (Suc k) xs)"
    using assms(1) by (simp add: upd_conv_take_nth_drop)
  also have "\<dots> = (flat (take k xs) @ map (set_index 0) (subcmds (xs ! k)) @ flat (drop (Suc k) xs))
      [length (flat (take k xs)) + j := set_index 0 z]"
    using assms(2,3) by (simp add: list_update_append map_update)
  also have "\<dots> = (flat xs)[length (flat (take k xs)) + j := set_index 0 z]"
    by (subst (4) xs) simp
  finally show ?thesis .
qed

text \<open>C24: overwriting addresses a command by the position at which it was appended, however the list was
  batched: \<open>get_cmd_for_overwrite\<close> marks exactly the command at that position of what the list
  stands for, and gives no command for a position outside.\<close>

theorem overwrite_position:
  assumes "\<forall>x \<in> set (lst_vec (p_cmdlists s a)). length (subcmds x) < 65536"
    and "get_cmd_for_overwrite a i s = (r, s')"
  shows "if unat i < length (flat (lst_vec (p_cmdlists s a)))
    then \<exists>k j. r = Some (k, j)
      \<and> set_index 0 (subcmds (lst_vec (p_cmdlists s' a) ! k) ! unat j)
          = mark_edited (flat (lst_vec (p_cmdlists s a)) ! unat i)
      \<and> flat (lst_vec (p_cmdlists s' a)) = (flat (lst_vec (p_cmdlists s a)))
          [unat i := mark_edited (flat (lst_vec (p_cmdlists s a)) ! unat i)]
    else r = None \<and> s' = s"
proof (cases "unat i < length (flat (lst_vec (p_cmdlists s a)))")
  case False
  then show ?thesis using find_cmd_spec [OF assms(1), of i] assms(2)
    by (simp add: get_cmd_for_overwrite_def Let_def)
next
  case True
  let ?v = "lst_vec (p_cmdlists s a)"
  obtain k j where f: "find_cmd i ?v = Some (k, j)" and k: "k < length ?v"
    and j: "unat j < length (subcmds (?v ! k))" and pos: "length (flat (take k ?v)) + unat j = unat i"
    using find_cmd_spec [OF assms(1), of i] True by auto
  have "length (subcmds (?v ! k)) < 65536" using assms(1) k by simp
  then obtain y where m: "mark_for_overwrite j (?v ! k) = Some y"
    and y: "subcmds y = (subcmds (?v ! k))[unat j := mark_edited (subcmds (?v ! k) ! unat j)]"
    using mark_for_overwrite_subcmds [OF j] by metis
  have r: "r = Some (k, j)" and v': "lst_vec (p_cmdlists s' a) = ?v[k := y]"
    using assms(2) f m by (auto simp: get_cmd_for_overwrite_def Let_def)
  have ix: "set_index 0 (mark_edited z) = mark_edited (set_index 0 z)" for z by (cases z) simp_all
  have "?v = take k ?v @ ?v ! k # drop (Suc k) ?v" using k by (simp add: id_take_nth_drop)
  then have "flat ?v = flat (take k ?v) @ map (set_index 0) (subcmds (?v ! k)) @ flat (drop (Suc k) ?v)"
    by (metis flat_simps(2,3))
  then have at: "flat ?v ! unat i = set_index 0 (subcmds (?v ! k) ! unat j)"
    using j pos [symmetric] by (simp add: nth_append)
  have "flat (?v[k := y]) = (flat ?v)[unat i := mark_edited (flat ?v ! unat i)]"
    using flat_update [OF k y j] pos by (simp add: at ix)
  moreover have "set_index 0 (subcmds (?v[k := y] ! k) ! unat j) = mark_edited (flat ?v ! unat i)"
    using k y j by (simp add: at ix)
  ultimately show ?thesis using True r v' by auto
qed

lemma batched_sizes:
  assumes "batched s xs"
  shows "\<forall>x \<in> set xs. length (subcmds x) < 65536"
proof
  fix x assume "x \<in> set xs"
  then obtain k where "k < length xs" "x = xs ! k" by (auto simp: in_set_conv_nth)
  then have "case x of Cmd_CopyList l \<Rightarrow> batch_ok s l | _ \<Rightarrow> True"
    using assms by (auto simp: batched_def)
  then show "length (subcmds x) < 65536"
    by (cases x) (auto simp: batch_ok_def)
qed

lemma optimize_batch_copies_vec:
  "lst_vec (p_cmdlists (optimize_batch_copies a s) a) = batch_copies s (lst_vec (p_cmdlists s a))"
  by (simp add: optimize_batch_copies_def)

theorem overwrite_position_witness:
  "\<exists>k j s'. get_cmd_for_overwrite 7 3 (optimize_batch_copies 7
       (upd_list 7 (\<lambda>l. l\<lparr>lst_vec := sample_cmds\<rparr>) (sample_proc (\<lambda>_. 8) []))) = (Some (k, j), s')
     \<and> set_index 0 (subcmds (lst_vec (p_cmdlists s' 7) ! k) ! unat j) = Cmd_Copy (sample_copy 3)"
proof -
  let ?init = "upd_list 7 (\<lambda>l. l\<lparr>lst_vec := sample_cmds\<rparr>) (sample_proc (\<lambda>_. 8) [])"
  let ?s = "optimize_batch_copies 7 ?init"
  have v: "lst_vec (p_cmdlists ?s 7) = batch_copies ?init sample_cmds"
    by (simp add: optimize_batch_copies_vec)
  have b: "flat (batch_copies ?init sample_cmds) = flat sample_cmds" "batched ?init (batch_copies ?init sample_cmds)"
    using batch_copies_flat [of sample_cmds ?init] by (simp_all add: sample_cmds_def)
  obtain r s' where g: "get_cmd_for_overwrite 7 3 ?s = (r, s')" by fastforce
  have f: "flat (lst_vec (p_cmdlists ?s 7)) = flat sample_cmds" using b(1) by (simp only: v)
  have "unat (3::16 word) < length (flat sample_cmds)"
    "mark_edited (flat sample_cmds ! unat (3::16 word)) = Cmd_Copy (sample_copy 3)"
    by (simp_all add: sample_cmds_def sample_copy_def)
  moreover have "\<forall>x \<in> set (lst_vec (p_cmdlists ?s 7)). length (subcmds x) < 65536"
    using batched_sizes [OF b(2)] by (simp only: v)
  ultimately obtain k j where "r = Some (k, j)"
    "set_index 0 (subcmds (lst_vec (p_cmdlists s' 7) ! k) ! unat j) = Cmd_Copy (sample_copy 3)"
    using overwrite_position [OF _ g] f by auto
  then show ?thesis using g by blast
qed

end
