(* ===== verification/Paging.thy ===== *)
theory Paging
  imports Frame Sample
begin

text \<open>
  What a command list sends: \<open>encode\<close> is the encoding of a command with no page limit, \<open>pages\<close> the
  sequence of pages of the loop in \<open>send_to_card\<close>. The pages are the whole encoding, cut where a page
  is full, and every page makes progress, so the loop ends.
\<close>

section \<open>The encoding\<close>

definition encode_copy :: "'a objects_scheme \<Rightarrow> copy_params \<Rightarrow> u8 list" where
  "encode_copy s p = (if cpp_edited p then copy_bytes s p else [])"

primrec encode :: "'a objects_scheme \<Rightarrow> sched_cmd \<Rightarrow> u8 list" where
  "encode s (Cmd_Copy p) = encode_copy s p"
| "encode s (Cmd_CopyList l) =
     (if clp_edited l then copylist_header l else []) @
     (if clp_num_edits l = 0 then [] else concat (map (encode_copy s) (clp_copies l)))"
| "encode s (Cmd_InfReq r) = (if irp_edited r then infreq_bytes s r else [])"

definition encode_all :: "'a objects_scheme \<Rightarrow> sched_cmd list \<Rightarrow> u8 list" where
  "encode_all s xs = concat (map (encode s) xs)"

lemma encode_all_simps [simp]:
  "encode_all s [] = []" "encode_all s (x # xs) = encode s x @ encode_all s xs"
  "encode_all s (xs @ ys) = encode_all s xs @ encode_all s ys"
  by (simp_all add: encode_all_def)

lemma length_bytes [simp]:
  "length (copy_bytes s p) = 16" "length (copylist_header l) = 7"
  "length (infreq_bytes s r) = (if irp_null_params r then 10 else 15)"
  by (simp_all add: copy_bytes_def copylist_header_def infreq_bytes_def Let_def)

text \<open>What packing a command comes to: the bytes are a prefix of its encoding, the rest stays
  marked, and packing only stops short when less than 16 bytes are left.\<close>

definition packed :: "'a objects_scheme \<Rightarrow> nat \<Rightarrow> u8 list \<Rightarrow> bool \<Rightarrow> u8 list \<Rightarrow> u8 list \<Rightarrow> bool" where
  "packed s room enc ok bs enc' \<longleftrightarrow> enc = bs @ enc' \<and> length bs \<le> room
     \<and> (ok \<longrightarrow> enc' = []) \<and> (\<not> ok \<longrightarrow> room - length bs < 16)"

lemma pack_copy_packed:
  "pack_copy s room p = (ok, bs, p') \<Longrightarrow> packed s room (encode_copy s p) ok bs (encode_copy s p')"
  by (auto simp: pack_copy_def packed_def encode_copy_def split: if_splits)

lemma pack_copies_packed:
  "pack_copies s room ps = (ok, bs, ps') \<Longrightarrow>
     packed s room (concat (map (encode_copy s) ps)) ok bs (concat (map (encode_copy s) ps'))"
proof (induction ps arbitrary: room ok bs ps')
  case Nil
  then show ?case by (simp add: packed_def)
next
  case (Cons p ps)
  obtain ok1 b1 p1 where p: "pack_copy s room p = (ok1, b1, p1)" by (metis prod_cases3)
  note p1 = pack_copy_packed [OF p]
  show ?case
  proof (cases ok1)
    case False
    with Cons.prems p p1 show ?thesis by (auto simp: packed_def)
  next
    case True
    obtain ok2 b2 ps2 where r: "pack_copies s (room - length b1) ps = (ok2, b2, ps2)" by (metis prod_cases3)
    with Cons.IH [OF r] p1 Cons.prems p True show ?thesis by (auto simp: packed_def)
  qed
qed

lemma pack_copylist_packed:
  assumes "pack_copylist s room l = (ok, bs, l')"
  shows "packed s room (encode s (Cmd_CopyList l)) ok bs (encode s (Cmd_CopyList l'))"
proof (cases "clp_edited l \<and> room < 7")
  case True
  then show ?thesis using assms by (simp add: pack_copylist_def packed_def)
next
  case False
  define hdr where "hdr = (if clp_edited l then copylist_header l else [])"
  have h: "length hdr \<le> room" using False by (auto simp: hdr_def)
  show ?thesis
  proof (cases "clp_num_edits l = 0")
    case True
    then show ?thesis using assms False h by (auto simp: pack_copylist_def packed_def hdr_def Let_def split: if_splits)
  next
    case n: False
    obtain ok1 b1 ps where r: "pack_copies s (room - length hdr) (clp_copies l) = (ok1, b1, ps)"
      by (metis prod_cases3)
    show ?thesis
      using assms False n h r pack_copies_packed [OF r]
      by (auto simp: pack_copylist_def packed_def hdr_def Let_def split: if_splits)
  qed
qed

lemma pack_packed: "pack s room x = (ok, bs, x') \<Longrightarrow> packed s room (encode s x) ok bs (encode s x')"
proof (cases x)
  case (Cmd_Copy p)
  then show "pack s room x = (ok, bs, x') \<Longrightarrow> ?thesis"
    by (auto split: prod.splits dest!: pack_copy_packed)
next
  case (Cmd_CopyList l)
  then show "pack s room x = (ok, bs, x') \<Longrightarrow> ?thesis"
    by (auto split: prod.splits dest!: pack_copylist_packed simp del: encode.simps)
next
  case (Cmd_InfReq r)
  then show "pack s room x = (ok, bs, x') \<Longrightarrow> ?thesis"
    by (auto simp: pack_infreq_def packed_def split: if_splits)
qed

section \<open>One page\<close>

lemma pack_page_spec:
  "pack_page s room xs = (bs, dn, rest) \<Longrightarrow>
     encode_all s xs = bs @ encode_all s rest \<and> length bs \<le> room \<and> encode_all s dn = []
     \<and> (rest \<noteq> [] \<longrightarrow> room - length bs < 16) \<and> length dn + length rest = length xs"
proof (induction s room xs arbitrary: bs dn rest rule: pack_page.induct)
  case (2 s room x xs)
  show ?case
  proof (cases "room = 0")
    case True
    then show ?thesis using 2 by auto
  next
    case False
    obtain ok b x' where p: "pack s room x = (ok, b, x')" by (metis prod_cases3)
    note pp = pack_packed [OF p, unfolded packed_def]
    show ?thesis
    proof (cases ok)
      case True
      obtain b2 dn2 rest2 where r: "pack_page s (room - length b) xs = (b2, dn2, rest2)"
        by (metis prod_cases3)
      show ?thesis using 2(1) [OF False p [symmetric] refl True r] 2(2) False p True r pp by auto
    next
      case ok: False
      then show ?thesis using 2(2) False p pp by auto
    qed
  qed
qed auto

section \<open>All pages\<close>

definition page_room :: "bool \<Rightarrow> nat" where
  "page_room is_first = (if is_first then 4092 else 4096)"

lemma page_progress:
  assumes "pack_page s (page_room f) xs = (bs, dn, rest)" and "rest \<noteq> []"
  shows "length (encode_all s rest) < length (encode_all s xs)"
  using pack_page_spec [OF assms(1)] assms(2) by (auto simp: page_room_def split: if_splits)

function pages :: "'a objects_scheme \<Rightarrow> bool \<Rightarrow> sched_cmd list \<Rightarrow> u8 list list" where
  "pages s f xs =
     (if xs = [] then []
      else case pack_page s (page_room f) xs of (bs, dn, rest) \<Rightarrow>
             bs # (if rest = [] then [] else pages s False rest))"
  by pat_completeness auto
termination
  by (relation "measure (\<lambda>(s, f, xs). length (encode_all s xs))") (auto dest: page_progress [OF sym])

declare pages.simps [simp del]

lemma pages_Nil [simp]: "pages s f [] = []"
  by (simp add: pages.simps)

lemma pages_step:
  assumes "xs \<noteq> []" and "pack_page s (page_room f) xs = (bs, dn, rest)"
  shows "pages s f xs = bs # pages s False rest"
  using assms by (subst pages.simps) simp

lemma pages_concat: "concat (pages s f xs) = encode_all s xs"
proof (induction s f xs rule: pages.induct)
  case (1 s f xs)
  obtain bs dn rest where p: "pack_page s (page_room f) xs = (bs, dn, rest)" by (metis prod_cases3)
  show ?case
  proof (cases "xs = []")
    case False
    then show ?thesis
      using pages_step [OF False p] pack_page_spec [OF p] 1 [OF False p [symmetric] refl] by (cases "rest = []") auto
  qed simp
qed

lemma pages_fit: "i < length (pages s f xs) \<Longrightarrow> length (pages s f xs ! i) \<le> page_room (f \<and> i = 0)"
proof (induction s f xs arbitrary: i rule: pages.induct)
  case (1 s f xs)
  obtain bs dn rest where p: "pack_page s (page_room f) xs = (bs, dn, rest)" by (metis prod_cases3)
  show ?case
  proof (cases "xs = []")
    case True
    then show ?thesis using 1 by simp
  next
    case False
    note st = pages_step [OF False p]
    show ?thesis
    proof (cases i)
      case 0
      then show ?thesis using st pack_page_spec [OF p] by simp
    next
      case (Suc j)
      then have j: "j < length (pages s False rest)" using 1(2) st by simp
      then have "rest \<noteq> []" by auto
      then show ?thesis using 1(1) [OF False p [symmetric] refl _ j] st Suc by simp
    qed
  qed
qed


text \<open>The encoding needs only what the response thread leaves alone.\<close>

definition same_bytes :: "proc \<Rightarrow> proc \<Rightarrow> bool" where
  "same_bytes s s' \<longleftrightarrow> copy_bytes s' = copy_bytes s \<and> infreq_bytes s' = infreq_bytes s"

lemma quiet_same_bytes: "quiet c s s' \<Longrightarrow> same_bytes s s'"
  using quiet_fields by (simp add: same_bytes_def copy_bytes_def infreq_bytes_def fun_eq_iff Let_def)

lemma sends_same_bytes:
  assumes "sends c ms s s'"
  shows "same_bytes s s'"
proof -
  have "same_bytes s (add_sent c ms s)"
    by (simp add: same_bytes_def copy_bytes_def infreq_bytes_def fun_eq_iff Let_def add_sent_def upd_chan_def)
  then show ?thesis
    using quiet_same_bytes [OF assms [unfolded sends_def]] by (simp add: same_bytes_def)
qed

lemma same_pack:
  assumes "same_bytes s s'"
  shows "pack s' = pack s" "encode_all s' = encode_all s"
proof -
  note assms = assms [unfolded same_bytes_def]
  have c: "pack_copy s' = pack_copy s" "pack_infreq s' = pack_infreq s" "encode_copy s' = encode_copy s"
    by (simp_all add: pack_copy_def pack_infreq_def encode_copy_def fun_eq_iff assms)
  have "pack_copies s' room ps = pack_copies s room ps" for room ps
    by (induction ps arbitrary: room) (simp_all add: c split: prod.split)
  then have "pack_copies s' = pack_copies s" by (intro ext)
  then have "pack_copylist s' = pack_copylist s" by (intro ext) (simp only: pack_copylist_def)
  then have "pack s' room x = pack s room x" for room x by (cases x) (simp_all add: c)
  then show "pack s' = pack s" by (simp add: fun_eq_iff)
  have "encode s' x = encode s x" for x by (cases x) (simp_all add: c assms)
  then have "encode s' = encode s" by (intro ext)
  then show "encode_all s' = encode_all s" by (intro ext) (simp only: encode_all_def)
qed

lemma same_pages:
  assumes "same_bytes s s'"
  shows "pack_page s' room xs = pack_page s room xs" and "pages s' f xs = pages s f xs"
proof -
  show *: "pack_page s' room xs = pack_page s room xs" for room xs
    by (induction xs arbitrary: room) (simp_all add: same_pack [OF assms] split: prod.split)
  show "pages s' f xs = pages s f xs"
  proof (induction xs arbitrary: f rule: measure_induct_rule [of "\<lambda>xs. length (encode_all s xs)"])
    case (less xs)
    show ?case
    proof (cases "xs = []")
      case False
      obtain bs dn rest where p: "pack_page s (page_room f) xs = (bs, dn, rest)" by (metis prod_cases3)
      then have p': "pack_page s' (page_room f) xs = (bs, dn, rest)" by (simp add: *)
      show ?thesis
        using less [OF page_progress [OF p]] pages_step [OF False p] pages_step [OF False p']
        by (cases "rest = []") auto
    qed simp
  qed
qed

section \<open>The loop\<close>

lemma lock_page_quiet: "lock_page c i s = Done (dst, cont, s') \<Longrightarrow> quiet c s s'"
  unfolding lock_page_def set_cmd_ring_def
  by (auto elim!: obind_DoneE split: option.splits prod.splits dest!: wait_for_Done
      intro: quiet_trans [OF _ quiet_rings(1)])

lemma unlock_page_quiet: "quiet c s (unlock_page c i n s)"
  by (auto simp: unlock_page_def set_cmd_ring_def quiet_rings(1) split: option.splits)

lemma write_page_quiet: "write_page c i off bs s = Done s' \<Longrightarrow> quiet c s s'"
  by (auto simp: write_page_def set_cmd_ring_def quiet_rings(1) split: option.splits)

lemma send_page_sends:
  assumes "send_page c i off page m s = Done (ok, s')"
  shows "sends c (if ok then [m] else []) s s'"
proof -
  obtain s1 where w: "write_page c i off page s = Done s1"
    and r: "(case ctx_send c m s1 of (ok, s2) \<Rightarrow> Done (ok, unlock_page c i (if ok then NNP_PAGE_SIZE else 0) s2))
      = Done (ok, s')"
    using assms unfolding send_page_def by (elim obind_DoneE)
  obtain s2 where m: "ctx_send c m s1 = (ok, s2)"
    and s': "s' = unlock_page c i (if ok then NNP_PAGE_SIZE else 0) s2"
    using r by (cases "ctx_send c m s1") auto
  show ?thesis
    unfolding s'
    using quiet_sends [OF write_page_quiet [OF w] ctx_send_sends [OF m]] unlock_page_quiet
    by (rule sends_quiet)
qed

text \<open>The messages of the pages; each page is \<open>sz\<close> bytes and the first one has the count before.\<close>

fun page_msgs :: "(bool \<Rightarrow> bool \<Rightarrow> nat \<Rightarrow> h2c_msg) \<Rightarrow> bool \<Rightarrow> u8 list list \<Rightarrow> h2c_msg list" where
  "page_msgs mk f [] = []"
| "page_msgs mk f (p # ps) =
     mk f (ps = []) ((if f then 4 else 0) + length p) # page_msgs mk False ps"

lemma length_page_msgs [simp]: "length (page_msgs mk f ps) = length ps"
  by (induction mk f ps rule: page_msgs.induct) simp_all

text \<open>One turn of the loop, as an equation.\<close>

lemma send_pages_unfold:
  assumes "todo \<noteq> []" "lock_page c i s = Done (Some off, NNP_PAGE_SIZE, s1)"
    "pack_page s1 (page_room f) todo = (bs, dn, rest)"
  shows "send_pages c i mk edits f acc todo s =
    (case send_page c i off ((if f then le_bytes 4 (unat edits) else []) @ bs)
            (mk f (rest = []) ((if f then 4 else 0) + length bs)) s1 of
       Waits \<Rightarrow> Some Waits | Loops \<Rightarrow> Some Loops | Undefined \<Rightarrow> Some Undefined
     | Done (ok, s2) \<Rightarrow> if \<not> ok then Some (Done (NNP_IO_ERROR, acc @ dn @ rest, s2))
                       else send_pages c i mk edits False (acc @ dn) rest s2)"
  using assms by (subst send_pages.simps) (simp add: page_room_def)

lemma send_pages_no_page:
  assumes "todo \<noteq> []" "\<nexists>off s1. lock_page c i s = Done (Some off, NNP_PAGE_SIZE, s1)"
  obtains r where "send_pages c i mk edits f acc todo s = Some r" "\<nexists>x. r = Done (NNP_NO_ERROR, x)"
proof -
  have "\<exists>r. send_pages c i mk edits f acc todo s = Some r \<and> (\<nexists>x. r = Done (NNP_NO_ERROR, x))"
    using assms by (subst send_pages.simps) (auto split: outcome.split option.split)
  then show thesis using that by blast
qed

lemma send_pages_turn:
  assumes "todo \<noteq> []"
  obtains (finished) r where "send_pages c i mk edits f acc todo s = Some r"
      "\<nexists>x. r = Done (NNP_NO_ERROR, x)"
  | (page) bs dn rest s1 s2 where "pack_page s (page_room f) todo = (bs, dn, rest)" "quiet c s s1"
      "sends c [mk f (rest = []) ((if f then 4 else 0) + length bs)] s1 s2"
      "send_pages c i mk edits f acc todo s = send_pages c i mk edits False (acc @ dn) rest s2"
proof (cases "\<exists>off s1. lock_page c i s = Done (Some off, NNP_PAGE_SIZE, s1)")
  case False
  then show thesis using send_pages_no_page [OF assms] finished by metis
next
  case True
  then obtain off s1 where l: "lock_page c i s = Done (Some off, NNP_PAGE_SIZE, s1)" by blast
  have q: "quiet c s s1" by (rule lock_page_quiet [OF l])
  obtain bs dn rest where p: "pack_page s1 (page_room f) todo = (bs, dn, rest)" by (metis prod_cases3)
  let ?r = "send_page c i off ((if f then le_bytes 4 (unat edits) else []) @ bs)
              (mk f (rest = []) ((if f then 4 else 0) + length bs)) s1"
  note step = send_pages_unfold [OF assms l p, of mk edits acc]
  show thesis
  proof (cases "\<exists>s2. ?r = Done (True, s2)")
    case True
    then obtain s2 where r: "?r = Done (True, s2)" by blast
    show thesis
    proof (rule page [OF _ q])
      show "pack_page s (page_room f) todo = (bs, dn, rest)" using p same_pages(1) [OF quiet_same_bytes [OF q]] by simp
      show "sends c [mk f (rest = []) ((if f then 4 else 0) + length bs)] s1 s2"
        using send_page_sends [OF r] by simp
      show "send_pages c i mk edits f acc todo s = send_pages c i mk edits False (acc @ dn) rest s2"
        unfolding step r by simp
    qed
  next
    case no: False
    have "\<exists>r. send_pages c i mk edits f acc todo s = Some r \<and> (\<nexists>x. r = Done (NNP_NO_ERROR, x))"
      unfolding step using no by (cases ?r) auto
    then show thesis using finished by blast
  qed
qed


lemma send_pages_returns: "\<exists>r. send_pages c i mk edits f acc todo s = Some r"
proof (induction "length (encode_all s todo)" arbitrary: s todo acc f rule: less_induct)
  case less
  show ?case
  proof (cases "todo = []")
    case True
    then show ?thesis by (subst send_pages.simps) simp
  next
    case False
    then show ?thesis
    proof (cases rule: send_pages_turn [of todo c i mk edits f acc s])
      case (page bs dn rest s1 s2)
      have "encode_all s2 = encode_all s"
        using same_pack(2) [OF quiet_same_bytes [OF page(2)]] same_pack(2) [OF sends_same_bytes [OF page(3)]]
        by simp
      then show ?thesis
        using page(4) less [of s2 rest] page_progress [OF page(1)]
        by (cases "rest = []") (auto simp: send_pages.simps [of c i mk edits _ _ "[]"])
    qed blast
  qed
qed

lemma send_pages_sends:
  assumes "send_pages c i mk edits f acc todo s = Some (Done (NNP_NO_ERROR, vec, s'))"
  shows "sends c (page_msgs mk f (pages s f todo)) s s' \<and> length vec = length acc + length todo
    \<and> encode_all s vec = encode_all s acc"
  using assms
proof (induction "length (encode_all s todo) + length todo" arbitrary: s todo acc f rule: less_induct)
  case less
  show ?case
  proof (cases "todo = []")
    case True
    then show ?thesis using less.prems by (subst (asm) send_pages.simps) (simp add: sends_Nil)
  next
    case False
    then show ?thesis
    proof (cases rule: send_pages_turn [of todo c i mk edits f acc s])
      case (finished r)
      then show ?thesis using less.prems by auto
    next
      case (page bs dn rest s1 s2)
      have sb: "same_bytes s s2"
        using quiet_same_bytes [OF page(2)] sends_same_bytes [OF page(3)] by (simp add: same_bytes_def)
      note pp = pack_page_spec [OF page(1)]
      have "length (encode_all s2 rest) + length rest < length (encode_all s todo) + length todo"
      proof (cases "rest = []")
        case True
        then show ?thesis using False pp same_pack(2) [OF sb] by simp
      next
        case r: False
        have "length rest \<le> length todo" using pp by linarith
        then show ?thesis using page_progress [OF page(1) r] same_pack(2) [OF sb] by simp
      qed
      from less.hyps [OF this, of False "acc @ dn"] less.prems page(4)
      have r: "sends c (page_msgs mk False (pages s2 False rest)) s2 s'"
        "length vec = length (acc @ dn) + length rest" "encode_all s2 vec = encode_all s2 (acc @ dn)"
        by auto
      have "pages s f todo = bs # pages s2 False rest"
        using pages_step [OF False page(1)] same_pages(2) [OF sb] by simp
      moreover have "(pages s2 False rest = []) = (rest = [])"
        by (subst pages.simps) (simp split: prod.split)
      ultimately show ?thesis
        using sends_trans [OF quiet_sends [OF page(2,3)] r(1)] r(2,3) pp same_pack(2) [OF sb] by auto
    qed
  qed
qed

text \<open>Induction over a run of the loop, for every result.\<close>

lemma send_pages_run:
  assumes "send_pages c i mk edits f acc todo s = Some r"
    and nil: "\<And>acc s. P acc [] s (Done (NNP_NO_ERROR, acc, s))"
    and stuck: "\<And>acc todo s r. r \<in> {Waits, Loops, Undefined} \<Longrightarrow> P acc todo s r"
    and fail: "\<And>acc todo s s'. quiet c s s' \<Longrightarrow> P acc todo s (Done (NNP_IO_ERROR, acc @ todo, s'))"
    and page_fail: "\<And>room acc todo s (s1 :: proc) bs dn rest s'. pack_page s1 room todo = (bs, dn, rest) \<Longrightarrow> quiet c s s' \<Longrightarrow>
      P acc todo s (Done (NNP_IO_ERROR, acc @ dn @ rest, s'))"
    and page: "\<And>room acc todo s (s1 :: proc) bs dn rest m s2 r. pack_page s1 room todo = (bs, dn, rest) \<Longrightarrow> sends c [m] s s2 \<Longrightarrow>
      P (acc @ dn) rest s2 r \<Longrightarrow> P acc todo s r"
  shows "P acc todo s r"
proof (rule send_pages.raw_induct [where P = "\<lambda>d i mk edits f acc todo s r. d = c \<longrightarrow> P acc todo s r",
      OF _ assms(1), rule_format, OF _ refl])
  fix send d i mk edits f acc todo s r
  assume IH: "\<And>d i mk edits f acc todo s y. send d i mk edits f acc todo s = Some y \<Longrightarrow> d = c \<Longrightarrow> P acc todo s y"
    and body: "(if todo = [] then Some (Done (NNP_NO_ERROR, acc, s))
      else case lock_page d i s of
             Waits \<Rightarrow> Some Waits
           | Loops \<Rightarrow> Some Loops
           | Undefined \<Rightarrow> Some Undefined
           | Done (dst, cont, s1) \<Rightarrow>
               (case dst of
                  None \<Rightarrow> Some (Done (NNP_IO_ERROR, acc @ todo, s1))
                | Some off \<Rightarrow>
                    if cont \<noteq> NNP_PAGE_SIZE
                    then Some (Done (NNP_IO_ERROR, acc @ todo, unlock_page d i 0 s1))
                    else
                      (case pack_page s1 (if f then 4092 else 4096) todo of
                         (bs, dn, rest) \<Rightarrow>
                           (case send_page d i off
                                   ((if f then le_bytes 4 (unat edits) else []) @ bs)
                                   (mk f (rest = [])
                                      ((if f then 4 else 0) + length bs)) s1 of
                              Waits \<Rightarrow> Some Waits
                            | Loops \<Rightarrow> Some Loops
                            | Undefined \<Rightarrow> Some Undefined
                            | Done (ok, s2) \<Rightarrow>
                                if \<not> ok then Some (Done (NNP_IO_ERROR, acc @ dn @ rest, s2))
                                else send d i mk edits False (acc @ dn) rest s2)))) = Some r"
    and c: "d = c"
  show "P acc todo s r"
  proof (cases "\<exists>off s1. todo \<noteq> [] \<and> lock_page c i s = Done (Some off, NNP_PAGE_SIZE, s1)")
    case False
    show ?thesis
    proof (cases "todo = []")
      case True
      then show ?thesis using body nil by auto
    next
      case t: False
      show ?thesis
      proof (cases "lock_page c i s")
        case (Done x)
        obtain dst cont s1 where x: "x = (dst, cont, s1)" by (cases x)
        have q: "quiet c s s1" using Done x lock_page_quiet by metis
        show ?thesis
        proof (cases dst)
          case None
          then have "r = Done (NNP_IO_ERROR, acc @ todo, s1)" using body t Done x c by simp
          then show ?thesis using fail [OF q] by simp
        next
          case (Some off)
          then have "r = Done (NNP_IO_ERROR, acc @ todo, unlock_page c i 0 s1)" using body t Done x c False by auto
          then show ?thesis using fail quiet_trans [OF q unlock_page_quiet] by simp
        qed
      qed (use body t c stuck in auto)
    qed
  next
    case True
    then obtain off s1 where l: "todo \<noteq> []" "lock_page c i s = Done (Some off, NNP_PAGE_SIZE, s1)" by blast
    have q: "quiet c s s1" by (rule lock_page_quiet [OF l(2)])
    obtain bs dn rest where p: "pack_page s1 (if f then 4092 else 4096) todo = (bs, dn, rest)" by (cases "pack_page s1 (if f then 4092 else 4096) todo")
    let ?m = "mk f (rest = []) ((if f then 4 else 0) + length bs)"
    let ?r = "send_page c i off ((if f then le_bytes 4 (unat edits) else []) @ bs) ?m s1"
    show ?thesis
    proof (cases ?r)
      case (Done y)
      obtain ok s2 where y: "y = (ok, s2)" by (cases y)
      have s2: "sends c (if ok then [?m] else []) s s2"
        using quiet_sends [OF q send_page_sends] Done y by simp
      show ?thesis
      proof (cases ok)
        case True
        then have "send c i mk edits False (acc @ dn) rest s2 = Some r" using body l p Done y c by simp
        then have "P (acc @ dn) rest s2 r" using IH by blast
        then show ?thesis using page [OF p] s2 True by simp
      next
        case False
        then have "r = Done (NNP_IO_ERROR, acc @ dn @ rest, s2)" using body l p Done y c by simp
        then show ?thesis using page_fail [OF p] s2 False by (simp add: sends_Nil)
      qed
    qed (use body l p c stuck in auto)
  qed
qed

section \<open>The list on the wire\<close>


text \<open>A list of one copy.\<close>

definition one_copy :: sched_cmd where
  "one_copy = Cmd_Copy \<lparr>cpp_copy = 2, cpp_priority = 1, cpp_size = 64, cpp_idx = 0, cpp_edited = True\<rparr>"

definition list_proc :: proc where
  "list_proc = upd_list 7 (\<lambda>l. l\<lparr>lst_vec := [one_copy], lst_num_edits := 1\<rparr>) (sample_proc (\<lambda>_. 8) [])"

lemma list_proc_simps:
  "lst_vec (p_cmdlists list_proc 7) = [one_copy]" "lst_num_edits (p_cmdlists list_proc 7) = 1"
  "lst_ctx (p_cmdlists list_proc 7) = 1" "ctx_broken (p_ctxs list_proc 1) = False"
  by (simp_all add: list_proc_def sample_defs ctx_broken_def)

lemma msg_size_CmdList [simp]: "msg_size (H2C_CmdList b c i d f l od sz) = 8"
  by (cases b) (simp_all add: msg_size_def msg_qwords_def layout_bits_def h2c_ChanInferenceCmdListOp_def)

lemma list_proc_page:
  obtains s1 where "lock_page 1 1 list_proc = Done (Some 0, 4096, s1)"
    "\<And>bs b c i d f l od sz. length bs \<le> 8192 \<Longrightarrow>
       \<exists>s2. send_page 1 1 0 bs (H2C_CmdList b c i d f l od sz) s1 = Done (True, s2)"
proof
  let ?s1 = "set_cmd_ring 1 1 ((new_ring 8192)\<lparr>m_locked := True\<rparr>) list_proc"
  show "lock_page 1 1 list_proc = Done (Some 0, 4096, ?s1)"
    by (simp add: lock_page_def wait_for_def wait_steps_def ring_room_def cmd_ring_def new_ring_page
        list_proc_def)
  fix bs :: "u8 list" and b c i d f l od sz assume "length bs \<le> 8192"
  then obtain r where "rb_write 0 bs ((new_ring 8192)\<lparr>m_locked := True\<rparr>) = Some r"
    using new_ring_write by blast
  then show "\<exists>s2. send_page 1 1 0 bs (H2C_CmdList b c i d f l od sz) ?s1 = Done (True, s2)"
    by (simp add: send_page_def write_page_def cmd_ring_def set_cmd_ring_def upd_chan_def ctx_send_def
        chan_send_def chan_write_def sys_write_def list_proc_def Let_def upd_ctx_def)
qed

lemma list_proc_sends: "\<exists>s'. send_to_card True None 7 list_proc = Done (NNP_NO_ERROR, s')"
proof -
  obtain s1 where l: "lock_page 1 1 list_proc = Done (Some 0, 4096, s1)"
    and sp: "\<And>bs b c i d f l od sz. length bs \<le> 8192 \<Longrightarrow>
       \<exists>s2. send_page 1 1 0 bs (H2C_CmdList b c i d f l od sz) s1 = Done (True, s2)"
    using list_proc_page by blast
  obtain bs dn where p: "pack_page s1 (page_room True) [one_copy] = (bs, dn, [])" "length bs \<le> 4092"
    by (auto simp: one_copy_def pack_copy_def page_room_def)
  let ?mk = "cmdlist_msg True (chan_of 1 list_proc) (lst_id (p_cmdlists list_proc 7)) None"
  obtain s2 where "send_page 1 1 0 (le_bytes 4 1 @ bs) (?mk True True (4 + length bs)) s1 = Done (True, s2)"
    using sp [of "le_bytes 4 1 @ bs"] p(2) unfolding cmdlist_msg_def by fastforce
  then show ?thesis
    using send_pages_unfold [of "[one_copy]" 1 1 list_proc 0 s1 True bs dn "[]" ?mk 1 "[]"] l p
    by (simp add: send_to_card_def list_proc_simps Let_def send_pages.simps [of _ _ _ _ _ _ "[]"] of_loop_def)
qed


text \<open>C22: the loop that sends the pages of a list always ends: each page has room for a whole command or
  for the next part of a copy list, whatever the response thread does meanwhile.\<close>

theorem send_pages_ends:
  "\<exists>r. send_pages c i mk edits is_first acc todo s = Some r"
  by (rule send_pages_returns)

section \<open>The pages in the ring\<close>

lemma cmd_ring_set:
  "i < length (ch_cmd_ringbufs (cx_chan (p_ctxs s c))) \<Longrightarrow> cmd_ring c i (set_cmd_ring c i rb s) = Some rb"
  by (simp add: cmd_ring_def set_cmd_ring_def upd_chan_def)

lemma ctx_send_ring: "ctx_send c m s = (ok, s') \<Longrightarrow>
    ch_cmd_ringbufs (cx_chan (p_ctxs s' c)) = ch_cmd_ringbufs (cx_chan (p_ctxs s c))"
  by (auto simp: ctx_send_def chan_send_def chan_write_def sys_write_def Let_def upd_chan_def
      split: prod.splits if_splits)

text \<open>What \<open>lock_page\<close> has found: room for a page at the tail.\<close>

lemma lock_page_room:
  assumes "lock_page c i s = Done (Some off, NNP_PAGE_SIZE, s1)" "cmd_ring c i s1 = Some rb"
    "i < length (ch_cmd_ringbufs (cx_chan (p_ctxs s c)))"
  shows "off = unat (m_tail rb) \<and> \<not> m_invalid rb \<and> NNP_PAGE_SIZE \<le> getFreeBytes rb \<and> m_locked rb"
proof -
  from assms(1) obtain s0 rb0 rb1 where s0: "wait_for (ring_room c i) c s = Done s0" "cmd_ring c i s0 = Some rb0"
    and l: "lockFreeSpace NNP_PAGE_SIZE UINT32_MAX rb0 = Some ((Some off, NNP_PAGE_SIZE), rb1)"
    and s1: "s1 = set_cmd_ring c i rb1 s0"
    unfolding lock_page_def by (auto elim!: obind_DoneE split: option.splits prod.splits)
  have "i < length (ch_cmd_ringbufs (cx_chan (p_ctxs s0 c)))"
    using wait_for_Done [OF s0(1)] assms(3) by (simp add: quiet_def ctx_quiet_def ctx_key_def)
  then have "rb1 = rb" using assms(2) s1 by (simp add: cmd_ring_set)
  then show ?thesis using l by (auto simp: lockFreeSpace_def Let_def getFreeBytes_def split: if_splits)
qed

text \<open>C20: the page behind a message is in the ring when the message goes out: after the bytes the card has
  not taken yet, the ring holds the page, filled up to 4096 bytes, and it is ready for the next page
  or, when it is full, for the card.\<close>

theorem page_delivered:
  assumes "lock_page c i s = Done (Some off, NNP_PAGE_SIZE, s1)" "cmd_ring c i s1 = Some rb"
    and "i < length (ch_cmd_ringbufs (cx_chan (p_ctxs s c)))" "page_ring rb" "length page \<le> 4096"
    and "send_page c i off page m s1 = Done (True, s2)"
  shows "sends c [m] s s2
    \<and> (\<exists>rb' rest. cmd_ring c i s2 = Some rb' \<and> page_ring rb' \<and> \<not> m_invalid rb' \<and> \<not> m_locked rb'
         \<and> rb_content rb' = rb_content rb @ page @ rest \<and> length (page @ rest) = 4096)"
proof -
  have q: "quiet c s s1" by (rule lock_page_quiet [OF assms(1)])
  have len: "i < length (ch_cmd_ringbufs (cx_chan (p_ctxs s1 c)))"
    using q assms(3) by (simp add: quiet_def ctx_quiet_def ctx_key_def)
  note room = lock_page_room [OF assms(1-3)]
  have ok: "rb_ok rb" and S: "m_size rb = 2 * NNP_PAGE_SIZE" using assms(4) by (simp_all add: page_ring_def)
  have "4096 \<le> 8192 - rb_avail rb" using room unat_free [OF ok] S by (simp add: word_le_nat_alt)
  then have "rb_avail rb \<le> 4096" by arith
  then obtain rb1 where w: "rb_write off page (rb\<lparr>m_locked := True\<rparr>) = Some rb1"
    and put: "page_ring (unlockFreeSpace NNP_PAGE_SIZE rb1)" "\<not> m_invalid (unlockFreeSpace NNP_PAGE_SIZE rb1)"
      "\<exists>rest. rb_content (unlockFreeSpace NNP_PAGE_SIZE rb1) = rb_content rb @ page @ rest \<and> length (page @ rest) = 4096"
    using page_put [OF assms(4) _ _ assms(5)] room by metis
  have locked: "rb\<lparr>m_locked := True\<rparr> = rb" using room by simp
  obtain t where t: "ctx_send c m (set_cmd_ring c i rb1 s1) = (True, t)" "s2 = unlock_page c i NNP_PAGE_SIZE t"
    using assms(2,6) w unfolding locked send_page_def write_page_def by (auto split: prod.splits)
  have "cmd_ring c i t = Some rb1" "i < length (ch_cmd_ringbufs (cx_chan (p_ctxs t c)))"
    using ctx_send_ring [OF t(1)] cmd_ring_set [OF len] len by (simp_all add: cmd_ring_def set_cmd_ring_def upd_chan_def)
  then have "cmd_ring c i s2 = Some (unlockFreeSpace NNP_PAGE_SIZE rb1)"
    using t(2) by (simp add: unlock_page_def cmd_ring_set)
  moreover have "\<not> m_locked (unlockFreeSpace NNP_PAGE_SIZE rb1)" by (simp add: unlockFreeSpace_def Let_def)
  ultimately show ?thesis
    using put quiet_sends [OF q send_page_sends [OF assms(6)]] by auto
qed

lemma fresh_lock_page:
  assumes "cmd_ring c i s = Some (new_ring 8192)"
  shows "lock_page c i s = Done (Some 0, 4096, set_cmd_ring c i ((new_ring 8192)\<lparr>m_locked := True\<rparr>) s)"
proof -
  have "ring_room c i s" using assms by (simp add: ring_room_def new_ring_page)
  then show ?thesis using assms by (simp add: lock_page_def wait_for_now new_ring_page)
qed

lemma fresh_send_page:
  assumes "i < length (ch_cmd_ringbufs (cx_chan (p_ctxs s c)))" "\<not> ch_killed (cx_chan (p_ctxs s c))"
    "\<And>n. ch_kernel (cx_chan (p_ctxs s c)) n = msg_size m" "length bs \<le> 8192"
  shows "\<exists>s2. send_page c i 0 bs m (set_cmd_ring c i ((new_ring 8192)\<lparr>m_locked := True\<rparr>) s) = Done (True, s2)
    \<and> cx_create_reply (p_ctxs s2 c) = cx_create_reply (p_ctxs s c)
    \<and> cx_critical_error (p_ctxs s2 c) = cx_critical_error (p_ctxs s c)"
proof -
  obtain r where "rb_write 0 bs ((new_ring 8192)\<lparr>m_locked := True\<rparr>) = Some r"
    using new_ring_write [OF assms(4)] by blast
  then show ?thesis
    using assms(1-3)
    by (simp add: send_page_def write_page_def cmd_ring_def set_cmd_ring_def upd_chan_def ctx_send_def
        chan_send_def chan_write_def sys_write_def Let_def upd_ctx_def unlock_page_def)
qed

text \<open>Sending a first page through the ring of the sample state.\<close>

theorem page_delivered_witness:
  "\<exists>s2 rb rest. send_page 1 1 0 [1, 2] (H2C_CmdList False 3 0 False True True False 6)
       (set_cmd_ring 1 1 ((new_ring 8192)\<lparr>m_locked := True\<rparr>) (sample_proc (\<lambda>_. 8) [])) = Done (True, s2)
     \<and> cmd_ring 1 1 s2 = Some rb \<and> rb_content rb = [1, 2] @ rest \<and> length rest = 4094"
proof -
  let ?s = "sample_proc (\<lambda>_. 8) []" and ?m = "H2C_CmdList False 3 0 False True True False 6"
  let ?rb = "(new_ring 8192)\<lparr>m_locked := True\<rparr>"
  have l: "lock_page 1 1 ?s = Done (Some 0, 4096, set_cmd_ring 1 1 ?rb ?s)"
    by (rule fresh_lock_page) (simp add: cmd_ring_def)
  obtain s2 where s2: "send_page 1 1 0 [1, 2] ?m (set_cmd_ring 1 1 ?rb ?s) = Done (True, s2)"
    using fresh_send_page [of 1 ?s 1 ?m "[1, 2]"] by auto
  have "page_ring (new_ring 8192)" unfolding new_ring_def by (rule page_ring_init) (rule length_replicate)
  then have p: "page_ring ?rb" by simp
  have "rb_content ?rb = []" by (simp add: rb_content_def rb_avail_def new_ring_def rb_init_def)
  then show ?thesis
    using page_delivered [OF l _ _ p _ s2] s2 by (auto simp: cmd_ring_set)
qed

end
