(* ===== verification/Edit_Marks.thy ===== *)
theory Edit_Marks
  imports Batching Paging
begin

text \<open>
  The edit marks of a command list: which commands the card has not got in their present form. The
  number in the header of the list's first page is kept by hand in \<open>m_num_edits\<close>, and so is the one
  of every copy list; both are exact.
\<close>

section \<open>Marks\<close>

text \<open>The mark and the count of a copy list agree with its copies; packing has the weaker half only.\<close>

definition marks_sound :: "sched_cmd \<Rightarrow> bool" where
  "marks_sound x = (case x of
     Cmd_CopyList l \<Rightarrow> clp_num_edits l = 0 \<longrightarrow> \<not> clp_edited l \<and> (\<forall>p \<in> set (clp_copies l). \<not> cpp_edited p)
   | _ \<Rightarrow> True)"

definition cmd_marks_ok :: "sched_cmd \<Rightarrow> bool" where
  "cmd_marks_ok x = (case x of
     Cmd_CopyList l \<Rightarrow> length (clp_copies l) \<le> 0xffff
       \<and> unat (clp_num_edits l) = length (filter cpp_edited (clp_copies l))
       \<and> (clp_edited l \<longleftrightarrow> clp_num_edits l \<noteq> 0)
   | _ \<Rightarrow> True)"

definition unmarked :: "sched_cmd \<Rightarrow> bool" where
  "unmarked x \<longleftrightarrow> \<not> is_edited x \<and> (case x of
     Cmd_CopyList l \<Rightarrow> clp_num_edits l = 0 \<and> (\<forall>p \<in> set (clp_copies l). \<not> cpp_edited p) | _ \<Rightarrow> True)"

definition marks_ok :: "cmdlist \<Rightarrow> bool" where
  "marks_ok l \<longleftrightarrow> length (lst_vec l) \<le> 0xffff
     \<and> unat (lst_num_edits l) = length (filter is_edited (lst_vec l)) \<and> (\<forall>x \<in> set (lst_vec l). cmd_marks_ok x)"

text \<open>What sending leaves of a command: its kind, its index, and those of the commands it stands for.\<close>

definition shape :: "sched_cmd \<Rightarrow> bool \<times> u16 \<times> u16 list" where
  "shape x = (is_copylist x, cmd_index x, map cmd_index (subcmds x))"

lemma shape_simps [simp]:
  "shape (Cmd_Copy p) = (False, cpp_idx p, [cpp_idx p])" "shape (Cmd_InfReq r) = (False, irp_idx r, [irp_idx r])"
  "shape (Cmd_CopyList l) = (True, clp_idx l, map cpp_idx (clp_copies l))"
  by (simp_all add: shape_def comp_def)

lemma shape_length: "shape x = shape y \<Longrightarrow> length (subcmds x) = length (subcmds y)"
  unfolding shape_def by (metis length_map prod.inject)

lemma marks_ok_sound: "cmd_marks_ok x \<Longrightarrow> marks_sound x"
  by (cases x) (auto simp: marks_sound_def cmd_marks_ok_def filter_empty_conv)

section \<open>Packing\<close>

lemma pack_copies_unmarked: "pack_copies s room ps = (True, bs, ps') \<Longrightarrow> \<forall>p \<in> set ps'. \<not> cpp_edited p"
proof (induction ps arbitrary: room bs ps')
  case (Cons p ps)
  obtain ok b1 p1 where p1: "pack_copy s room p = (ok, b1, p1)" by (metis prod_cases3)
  obtain ok2 b2 ps2 where ps2: "pack_copies s (room - length b1) ps = (ok2, b2, ps2)" by (metis prod_cases3)
  have "ok" "ok2" "ps' = p1 # ps2" using Cons.prems p1 ps2 by (auto split: if_splits)
  moreover have "\<not> cpp_edited p1" using p1 \<open>ok\<close> by (auto simp: pack_copy_def split: if_splits)
  ultimately show ?case using Cons.IH [of "room - length b1" b2 ps2] ps2 by simp
qed simp

lemma pack_copies_shape: "pack_copies s room ps = (ok, bs, ps') \<Longrightarrow> map cpp_idx ps' = map cpp_idx ps"
proof (induction ps arbitrary: room ok bs ps')
  case (Cons p ps)
  obtain ok1 b1 p1 where p1: "pack_copy s room p = (ok1, b1, p1)" by (metis prod_cases3)
  obtain ok2 b2 ps2 where ps2: "pack_copies s (room - length b1) ps = (ok2, b2, ps2)" by (metis prod_cases3)
  moreover have "cpp_idx p1 = cpp_idx p" using p1 by (auto simp: pack_copy_def split: if_splits)
  ultimately show ?case using Cons.IH [of "room - length b1" ok2 b2 ps2] Cons.prems p1 by (auto split: if_splits)
qed simp

lemma pack_copylist_marks:
  assumes "pack_copylist s room l = (ok, bs, l')" "marks_sound (Cmd_CopyList l)"
  shows "marks_sound (Cmd_CopyList l') \<and> (ok \<longrightarrow> unmarked (Cmd_CopyList l'))
    \<and> shape (Cmd_CopyList l') = shape (Cmd_CopyList l)"
proof (cases "clp_edited l \<and> room < 7")
  case True
  then show ?thesis using assms by (simp add: pack_copylist_def)
next
  case room: False
  show ?thesis
  proof (cases "clp_num_edits l = 0")
    case True
    then show ?thesis using assms room
      by (auto simp: pack_copylist_def marks_sound_def unmarked_def Let_def)
  next
    case False
    let ?room = "room - length (if clp_edited l then copylist_header l else [])"
    obtain ok2 bs2 ps where ps: "pack_copies s ?room (clp_copies l) = (ok2, bs2, ps)" by (metis prod_cases3)
    then have "l' = (if ok then l\<lparr>clp_edited := False, clp_copies := ps, clp_num_edits := 0\<rparr>
        else l\<lparr>clp_edited := False, clp_copies := ps\<rparr>)" "ok2 = ok"
      using assms(1) room False by (auto simp: pack_copylist_def Let_def split: if_splits)
    then show ?thesis
      using False pack_copies_unmarked [of s ?room "clp_copies l" bs2 ps] pack_copies_shape [OF ps] ps
      by (auto simp: marks_sound_def unmarked_def)
  qed
qed

lemma pack_marks:
  assumes "pack s room x = (ok, bs, x')" "marks_sound x"
  shows "marks_sound x' \<and> (ok \<longrightarrow> unmarked x') \<and> shape x' = shape x"
proof (cases x)
  case (Cmd_CopyList l)
  then show ?thesis using assms pack_copylist_marks [of s room l] by (auto split: prod.splits)
qed (use assms in \<open>auto simp: pack_copy_def pack_infreq_def marks_sound_def unmarked_def split: if_splits prod.splits\<close>)

lemma pack_page_marks:
  assumes "pack_page s room xs = (bs, dn, rest)" "\<forall>x \<in> set xs. marks_sound x"
  shows "(\<forall>x \<in> set dn. unmarked x) \<and> (\<forall>x \<in> set rest. marks_sound x)
    \<and> map shape (dn @ rest) = map shape xs"
  using assms
proof (induction s room xs arbitrary: bs dn rest rule: pack_page.induct)
  case (2 s room x xs)
  obtain ok b x' where x': "pack s room x = (ok, b, x')" by (metis prod_cases3)
  note px = pack_marks [OF x']
  show ?case
  proof (cases "room = 0 \<or> \<not> ok")
    case True
    then show ?thesis using 2(2,3) x' px by (auto split: if_splits)
  next
    case False
    obtain b2 dn2 rest2 where r: "pack_page s (room - length b) xs = (b2, dn2, rest2)" by (metis prod_cases3)
    then have "dn = x' # dn2" "rest = rest2" using 2(2) x' False by auto
    then show ?thesis using 2(1) [OF _ x'[symmetric] refl] False r px 2(3) by auto
  qed
qed simp

section \<open>Sending\<close>

lemma unmarked_sound: "unmarked x \<Longrightarrow> marks_sound x"
  by (cases x) (auto simp: unmarked_def marks_sound_def)

lemma clear_unmarked: "marks_sound x \<Longrightarrow> unmarked (clear_edits x)"
  by (cases x) (auto simp: unmarked_def marks_sound_def clear_copy_edits_def)

lemma clear_shape: "shape (clear_edits x) = shape x"
  by (cases x) (simp_all add: clear_copy_edits_def comp_def)

lemma unmarked_ok: "unmarked x \<Longrightarrow> length (subcmds x) \<le> 0xffff \<Longrightarrow> cmd_marks_ok x"
  by (cases x) (auto simp: unmarked_def cmd_marks_ok_def filter_empty_conv)

text \<open>What the loop keeps: commands done are unmarked, the others are sound.\<close>

definition pages_keep :: "sched_cmd list \<Rightarrow> sched_cmd list \<Rightarrow> (NNPError \<times> sched_cmd list \<times> proc) outcome \<Rightarrow> bool" where
  "pages_keep acc todo r \<longleftrightarrow> (\<forall>e vec s'. r = Done (e, vec, s') \<longrightarrow> (\<forall>x \<in> set acc. unmarked x) \<longrightarrow>
     (\<forall>x \<in> set todo. marks_sound x) \<longrightarrow>
     (\<forall>x \<in> set vec. marks_sound x) \<and> (e = NNP_NO_ERROR \<longrightarrow> (\<forall>x \<in> set vec. unmarked x))
     \<and> map shape vec = map shape (acc @ todo))"

lemma pages_keep_simps [simp]: "pages_keep acc todo Waits" "pages_keep acc todo Loops" "pages_keep acc todo Undefined"
  by (simp_all add: pages_keep_def)

lemma pages_keep_fail: "pages_keep acc todo (Done (NNP_IO_ERROR, acc @ todo, s'))"
  using unmarked_sound by (auto simp: pages_keep_def)

lemma pages_keep_page:
  assumes "pack_page s room todo = (bs, dn, rest)" "pages_keep (acc @ dn) rest r"
  shows "pages_keep acc todo r"
  unfolding pages_keep_def
proof (intro allI impI)
  fix e vec s' assume r: "r = Done (e, vec, s')" and acc: "\<forall>x \<in> set acc. unmarked x"
    and todo: "\<forall>x \<in> set todo. marks_sound x"
  note pp = pack_page_marks [OF assms(1) todo]
  have "\<forall>x \<in> set (acc @ dn). unmarked x" "\<forall>x \<in> set rest. marks_sound x" using pp acc by auto
  moreover have "map shape ((acc @ dn) @ rest) = map shape (acc @ todo)"
    using pp by simp
  ultimately show "(\<forall>x \<in> set vec. marks_sound x) \<and> (e = NNP_NO_ERROR \<longrightarrow> (\<forall>x \<in> set vec. unmarked x))
     \<and> map shape vec = map shape (acc @ todo)"
    using assms(2) r unfolding pages_keep_def by metis
qed

lemma send_pages_marks: "send_pages c i mk edits f acc todo s = Some r \<Longrightarrow> pages_keep acc todo r"
proof (erule send_pages_run [where P = "\<lambda>acc todo s r. pages_keep acc todo r"], goal_cases)
  case (1 acc s)
  show ?case using unmarked_sound by (auto simp: pages_keep_def)
next
  case (2 acc todo s r)
  then show ?case by auto
next
  case (3 acc todo s s')
  show ?case by (rule pages_keep_fail)
next
  case (4 room acc todo s s1 bs dn rest s')
  then show ?case using pages_keep_page pages_keep_fail [of "acc @ dn" rest s'] by simp
next
  case (5 room acc todo s s1 bs dn rest m s2 r)
  then show ?case using pages_keep_page by blast
qed

section \<open>The operations\<close>

abbreviation marks_of :: "addr \<Rightarrow> proc \<Rightarrow> bool" where
  "marks_of a s \<equiv> marks_ok (p_cmdlists s a)"

lemma is_edited_simps [simp]: "is_edited (set_index i x) = is_edited x" "cmd_marks_ok (set_index i x) = cmd_marks_ok x"
  "is_copylist (set_index i x) = is_copylist x"
  by (cases x; simp add: cmd_marks_ok_def)+

lemma marks_ok_key:
  "lst_vec l' = lst_vec l \<Longrightarrow> lst_num_edits l' = lst_num_edits l \<Longrightarrow> marks_ok l' = marks_ok l"
  by (simp add: marks_ok_def)

lemma unat_inc16: "unat (x :: u16) < 0xffff \<Longrightarrow> unat (x + 1) = unat x + 1"
  by (simp add: unat_word_ariths)

lemma append_marks:
  assumes "marks_of a s" "is_edited x" "\<not> is_copylist x"
  shows "marks_of a (snd (append_cmd a (Some x) s))"
proof -
  have c: "cmd_marks_ok x" using assms(3) by (cases x) (simp_all add: cmd_marks_ok_def)
  let ?l = "p_cmdlists s a"
  have "unat (lst_num_edits ?l + 1) = unat (lst_num_edits ?l) + 1" if "length (lst_vec ?l) < 0xffff"
    using that assms(1) le_less_trans [OF length_filter_le [of is_edited "lst_vec ?l"]] by (intro unat_inc16) (simp add: marks_ok_def)
  then show ?thesis
    using assms(1,2) c by (auto simp: append_cmd_def Let_def marks_ok_def)
qed

lemma filter_update:
  assumes "k < length xs"
  shows "length (filter P (xs[k := y])) + of_bool (P (xs ! k)) = length (filter P xs) + of_bool (P y)"
proof -
  have xs: "xs = take k xs @ xs ! k # drop (Suc k) xs" using assms by (simp add: id_take_nth_drop)
  have "length (filter P (xs[k := y])) = length (filter P (take k xs)) + of_bool (P y) + length (filter P (drop (Suc k) xs))"
    using assms by (simp add: upd_conv_take_nth_drop)
  moreover have "length (filter P xs) = length (filter P (take k xs)) + of_bool (P (xs ! k)) + length (filter P (drop (Suc k) xs))"
    by (subst xs) simp
  ultimately show ?thesis by simp
qed

lemma mark_for_overwrite_marks:
  assumes "mark_for_overwrite j x = Some y" "cmd_marks_ok x"
  shows "cmd_marks_ok y \<and> is_edited y"
proof (cases x)
  case (Cmd_CopyList l)
  let ?p = "clp_copies l ! unat j"
  have len: "length (clp_copies l) \<le> 0xffff" using assms(2) Cmd_CopyList by (simp add: cmd_marks_ok_def)
  then have u: "unat (of_nat (length (clp_copies l)) :: u16) = length (clp_copies l)"
    by (simp add: unat_of_nat take_bit_nat_eq_self)
  have j: "unat j < length (clp_copies l)" and y: "y = Cmd_CopyList ((if \<not> cpp_edited ?p
        then l\<lparr>clp_num_edits := clp_num_edits l + 1, clp_edited := True\<rparr> else l)
        \<lparr>clp_copies := (clp_copies l)[unat j := ?p\<lparr>cpp_edited := True\<rparr>]\<rparr>)"
    using assms(1) Cmd_CopyList by (auto simp: Let_def word_le_nat_alt u split: if_splits)
  note f = filter_update [OF j, of cpp_edited "?p\<lparr>cpp_edited := True\<rparr>"]
  show ?thesis
  proof (cases "cpp_edited ?p")
    case True
    then have "length (filter cpp_edited (clp_copies l)) \<noteq> 0"
      using j by (auto simp: filter_empty_conv)
    then have "clp_num_edits l \<noteq> 0" using assms(2) Cmd_CopyList by (auto simp: cmd_marks_ok_def)
    then show ?thesis using assms(2) Cmd_CopyList y True f by (simp add: cmd_marks_ok_def)
  next
    case False
    have "length (filter cpp_edited (clp_copies l)) < length (clp_copies l)"
      using j False by (intro length_filter_less [of ?p]) simp_all
    then have "unat (clp_num_edits l + 1) = unat (clp_num_edits l) + 1"
      using assms(2) Cmd_CopyList len by (intro unat_inc16) (simp add: cmd_marks_ok_def)
    moreover from this have "clp_num_edits l + 1 \<noteq> 0" by auto
    ultimately show ?thesis using assms(2) Cmd_CopyList y False f by (simp add: cmd_marks_ok_def)
  qed
qed (use assms in \<open>auto simp: cmd_marks_ok_def split: if_splits\<close>)

lemma find_cmd_index: "find_cmd i xs = Some (k, j) \<Longrightarrow> k < length xs"
  by (induction i xs arbitrary: k rule: find_cmd.induct) (auto split: if_splits)

lemma overwrite_marks:
  assumes "marks_of a s"
  shows "marks_of a (snd (get_cmd_for_overwrite a i s))"
proof (cases "find_cmd i (lst_vec (p_cmdlists s a))")
  case None
  then show ?thesis using assms by (simp add: get_cmd_for_overwrite_def Let_def)
next
  case (Some kj)
  obtain k j where kj: "kj = (k, j)" by (cases kj)
  let ?l = "p_cmdlists s a" and ?v = "lst_vec (p_cmdlists s a)"
  have k: "k < length ?v" using Some kj find_cmd_index by blast
  show ?thesis
  proof (cases "mark_for_overwrite j (?v ! k)")
    case None
    then show ?thesis using assms Some kj by (simp add: get_cmd_for_overwrite_def Let_def)
  next
    case m: (Some y)
    have y: "cmd_marks_ok y" "is_edited y"
      using mark_for_overwrite_marks [OF m] assms k by (simp_all add: marks_ok_def)
    note f = filter_update [OF k, of is_edited y]
    have "unat (lst_num_edits ?l + 1) = unat (lst_num_edits ?l) + 1" if "\<not> is_edited (?v ! k)"
    proof (rule unat_inc16)
      have "length (filter is_edited ?v) < length ?v" using k that by (intro length_filter_less [of "?v ! k"]) simp_all
      then show "unat (lst_num_edits ?l) < 0xffff" using assms by (simp add: marks_ok_def)
    qed
    then show ?thesis
      using assms Some kj m y f k set_update_subset_insert [of ?v k y]
      by (cases "is_edited (?v ! k)") (auto simp: get_cmd_for_overwrite_def Let_def marks_ok_def)
  qed
qed

lemma batch_marks:
  assumes "length vec \<le> 0xffff" "\<forall>x \<in> set vec. is_edited x \<and> \<not> is_copylist x"
  shows "length (batch_copies s vec) \<le> length vec
    \<and> (\<forall>x \<in> set (batch_copies s vec). is_edited x \<and> cmd_marks_ok x)"
proof -
  let ?b = "batch_copies s vec"
  have b: "flat ?b = flat vec" "batched s ?b" using batch_copies_flat [of vec s] assms(2) by auto
  have flat_vec: "flat vec = map (set_index 0) vec"
    using assms(2)
  proof (induction vec)
    case (Cons x xs)
    then show ?case by (cases x) simp_all
  qed simp
  have ok: "case x of Cmd_CopyList l \<Rightarrow> batch_ok s l | _ \<Rightarrow> True" if "x \<in> set ?b" for x
    using b(2) that by (auto simp: batched_def in_set_conv_nth)
  have edited: "is_edited y" if "x \<in> set ?b" "y \<in> set (subcmds x)" for x y
  proof -
    have "set_index 0 y \<in> set (flat ?b)" using that by (auto simp: flat_def)
    then obtain z where "z \<in> set vec" "set_index 0 y = set_index 0 z" using b(1) flat_vec by auto
    then show ?thesis using assms(2) is_edited_simps(1) [of 0] by metis
  qed
  have "length xs \<le> length (flat xs)" if "\<forall>x \<in> set xs. subcmds x \<noteq> []" for xs
    using that
  proof (induction xs)
    case (Cons x xs)
    then show ?case by (cases "subcmds x") auto
  qed simp
  moreover have "subcmds x \<noteq> []" if "x \<in> set ?b" for x
    using ok [OF that] by (cases x) (auto simp: batch_ok_def)
  ultimately have "length ?b \<le> length vec" using b(1) flat_vec by (metis length_map)
  moreover have "is_edited x \<and> cmd_marks_ok x" if x: "x \<in> set ?b" for x
  proof (cases x)
    case (Cmd_CopyList l)
    have "filter cpp_edited (clp_copies l) = clp_copies l"
      using edited [OF x] Cmd_CopyList by (force simp: filter_id_conv)
    moreover have "clp_num_edits l \<noteq> 0" using ok [OF x] Cmd_CopyList by (auto simp: batch_ok_def)
    ultimately show ?thesis using ok [OF x] Cmd_CopyList by (simp add: batch_ok_def cmd_marks_ok_def)
  qed (use edited [OF x, of x] in \<open>simp_all add: cmd_marks_ok_def\<close>)
  ultimately show ?thesis by blast
qed

lemma optimize_marks:
  assumes "marks_of a s" "\<forall>x \<in> set (lst_vec (p_cmdlists s a)). is_edited x \<and> \<not> is_copylist x"
  shows "marks_of a (optimize_batch_copies a s)"
proof -
  let ?b = "batch_copies s (lst_vec (p_cmdlists s a))"
  have "length ?b \<le> 0xffff" "\<forall>x \<in> set ?b. is_edited x \<and> cmd_marks_ok x"
    using batch_marks [OF _ assms(2), of s] assms(1) by (auto simp: marks_ok_def)
  moreover from this have "filter is_edited ?b = ?b" by (simp add: filter_id_conv)
  ultimately show ?thesis
    by (simp add: optimize_batch_copies_def marks_ok_def unat_of_nat take_bit_nat_eq_self)
qed

lemma unmarked_list_ok:
  assumes "\<forall>x \<in> set vec. unmarked x" "map shape vec = map shape vec0"
    "length vec0 \<le> 0xffff" "\<forall>x \<in> set vec0. cmd_marks_ok x" "lst_vec l = vec" "lst_num_edits l = 0"
  shows "marks_ok l"
proof -
  have len: "length vec = length vec0" using assms(2) map_eq_imp_length_eq by blast
  have "length (subcmds x) \<le> 0xffff" if "x \<in> set vec" for x
  proof -
    have "shape x \<in> set (map shape vec0)" using that assms(2) by (metis image_eqI set_map)
    then obtain y where y: "y \<in> set vec0" "shape x = shape y" by auto
    note y = y(1) shape_length [OF y(2)]
    have "length (subcmds y) \<le> 0xffff" using assms(4) y(1) by (cases y) (auto simp: cmd_marks_ok_def)
    then show ?thesis using y(2) by simp
  qed
  then have "\<forall>x \<in> set vec. cmd_marks_ok x" using assms(1) unmarked_ok by blast
  moreover have "filter is_edited vec = []" using assms(1) by (auto simp: filter_empty_conv unmarked_def)
  ultimately show ?thesis using assms(3,5,6) len by (simp add: marks_ok_def)
qed

lemma sends_lists: "sends c ms s s' \<Longrightarrow> list_key (p_cmdlists s' a) = list_key (p_cmdlists s a)"
  unfolding sends_def quiet_def by (auto simp: add_sent_def upd_chan_def fun_eq_iff)

text \<open>After a list was sent, or tried to be: no marks are left, if there were any.\<close>

lemma send_to_card_marks:
  assumes "send_to_card b env a s = Done (e, s')" "marks_of a s"
  shows "marks_of a s' \<and> (lst_num_edits (p_cmdlists s a) \<noteq> 0 \<and> lst_vec (p_cmdlists s a) \<noteq> []
      \<and> \<not> ctx_broken (p_ctxs s (lst_ctx (p_cmdlists s a))) \<longrightarrow>
      lst_num_edits (p_cmdlists s' a) = 0 \<and> (\<forall>x \<in> set (lst_vec (p_cmdlists s' a)). unmarked x)
      \<and> length (lst_vec (p_cmdlists s' a)) = length (lst_vec (p_cmdlists s a)))
    \<and> map shape (lst_vec (p_cmdlists s' a)) = map shape (lst_vec (p_cmdlists s a))"
proof -
  let ?l = "p_cmdlists s a" and ?c = "lst_ctx (p_cmdlists s a)"
  let ?mk = "cmdlist_msg b (chan_of ?c s) (lst_id ?l) env"
  consider "s' = s" "lst_vec ?l = [] \<or> ctx_broken (p_ctxs s ?c)"
    | "lst_num_edits ?l = 0" "\<exists>m ok. ctx_send ?c m s = (ok, s')"
    | vec s1 where "lst_num_edits ?l \<noteq> 0"
      "send_pages ?c (if b then 1 else 0) ?mk (lst_num_edits ?l) True [] (lst_vec ?l) s = Some (Done (e, vec, s1))"
      "s' = upd_list a (\<lambda>l. l\<lparr>lst_vec := (if e \<noteq> NNP_NO_ERROR then map clear_edits vec else vec), lst_num_edits := 0\<rparr>) s1"
    using assms(1)
    by (auto simp: send_to_card_def Let_def of_loop_def split: if_splits prod.splits option.splits elim!: obind_DoneE)
  then show ?thesis
  proof cases
    case 1
    then show ?thesis using assms(2) by auto
  next
    case 2
    then obtain m ok where "ctx_send ?c m s = (ok, s')" by blast
    then have "p_cmdlists s' = p_cmdlists s" by (auto simp: ctx_send_def upd_chan_def split: prod.splits)
    then show ?thesis using assms(2) 2 by simp
  next
    case 3
    have k: "\<forall>x \<in> set vec. marks_sound x" "e = NNP_NO_ERROR \<Longrightarrow> \<forall>x \<in> set vec. unmarked x"
      "map shape vec = map shape (lst_vec ?l)"
      using send_pages_marks [OF 3(2)] assms(2) marks_ok_sound by (auto simp: pages_keep_def marks_ok_def)
    let ?v = "if e \<noteq> NNP_NO_ERROR then map clear_edits vec else vec"
    have cleared: "map shape (map clear_edits vec) = map shape vec"
      by (simp add: clear_shape)
    have v: "\<forall>x \<in> set ?v. unmarked x" "map shape ?v = map shape (lst_vec ?l)"
      using k clear_unmarked cleared by auto
    then have "length ?v = length (lst_vec ?l)" using map_eq_imp_length_eq by blast
    moreover have "lst_vec (p_cmdlists s' a) = ?v" "lst_num_edits (p_cmdlists s' a) = 0" using 3(3) by simp_all
    moreover have "marks_of a s'"
      using unmarked_list_ok [OF v] assms(2) calculation by (simp add: marks_ok_def)
    ultimately show ?thesis using v by simp
  qed
qed

section \<open>Properties\<close>

text \<open>What can happen to a command list: a new command is appended, one is taken for overwriting, the copies
  of a list the card has nothing of are batched, it is sent, and the response thread runs.\<close>

inductive list_step :: "addr \<Rightarrow> proc \<Rightarrow> proc \<Rightarrow> bool" for a where
  append: "is_edited x \<Longrightarrow> \<not> is_copylist x \<Longrightarrow> append_cmd a (Some x) s = (e, s') \<Longrightarrow> list_step a s s'"
| overwrite: "get_cmd_for_overwrite a i s = (r, s') \<Longrightarrow> list_step a s s'"
| batch: "\<forall>x \<in> set (lst_vec (p_cmdlists s a)). is_edited x \<and> \<not> is_copylist x \<Longrightarrow>
    list_step a s (optimize_batch_copies a s)"
| send: "send_to_card b env a s = Done (e, s') \<Longrightarrow> list_step a s s'"
| response: "quiet c s s' \<Longrightarrow> list_step a s s'"

lemma list_step_marks: "list_step a s s' \<Longrightarrow> marks_of a s \<Longrightarrow> marks_of a s'"
proof (induction rule: list_step.induct)
  case (append x s e s')
  then show ?case using append_marks [of s a x] by simp
next
  case (overwrite i s r s')
  then show ?case using overwrite_marks [of s a i] by simp
next
  case (response c s s')
  then show ?case using quiet_fields [OF response(1)] marks_ok_key by metis
qed (auto dest: optimize_marks send_to_card_marks)




text \<open>The first page of a list of one copy cannot be written; the next message can.\<close>

definition failing_proc :: proc where
  "failing_proc = upd_list 7 (\<lambda>l. l\<lparr>lst_vec := [one_copy], lst_num_edits := 1\<rparr>)
     (sample_proc (\<lambda>n. if n = 0 then 0 else 8) [])"

lemma failing_proc_simps [simp]:
  "p_cmdlists failing_proc 7 = (cmdlist_new 0 1)\<lparr>lst_vec := [one_copy], lst_num_edits := 1\<rparr>"
  "p_ctxs failing_proc 1 = sample_ctx (\<lambda>n. if n = 0 then 0 else 8) []"
  by (simp_all add: failing_proc_def sample_proc_def)

lemma failing_page:
  assumes "length bs \<le> 8192"
  shows "\<exists>s2. send_page 1 0 0 bs (H2C_CmdList b c i d f l od sz)
      (set_cmd_ring 1 0 ((new_ring 8192)\<lparr>m_locked := True\<rparr>) failing_proc) = Done (False, s2)
    \<and> p_cmdlists s2 = p_cmdlists failing_proc \<and> ctx_broken (p_ctxs s2 1) = False
    \<and> ch_killed (cx_chan (p_ctxs s2 1)) = False \<and> ch_writes (cx_chan (p_ctxs s2 1)) = 1
    \<and> ch_kernel (cx_chan (p_ctxs s2 1)) = (\<lambda>n. if n = 0 then 0 else 8)"
proof -
  obtain r where "rb_write 0 bs ((new_ring 8192)\<lparr>m_locked := True\<rparr>) = Some r"
    using new_ring_write [OF assms] by blast
  then show ?thesis
    by (simp add: send_page_def write_page_def cmd_ring_def set_cmd_ring_def upd_chan_def ctx_send_def
        chan_send_def chan_write_def sys_write_def Let_def upd_ctx_def unlock_page_def ctx_broken_def)
qed

lemma failing_proc_sends:
  obtains s' where "send_to_card False None 7 failing_proc = Done (NNP_IO_ERROR, s')"
    "ctx_broken (p_ctxs s' 1) = False" "ch_killed (cx_chan (p_ctxs s' 1)) = False"
    "ch_kernel (cx_chan (p_ctxs s' 1)) = (\<lambda>n. if n = 0 then 0 else 8)" "ch_writes (cx_chan (p_ctxs s' 1)) = 1"
    "lst_ctx (p_cmdlists s' 7) = 1" "lst_vec (p_cmdlists s' 7) \<noteq> []" "lst_num_edits (p_cmdlists s' 7) = 0"
proof -
  let ?s1 = "set_cmd_ring 1 0 ((new_ring 8192)\<lparr>m_locked := True\<rparr>) failing_proc"
  have l: "lock_page 1 0 failing_proc = Done (Some 0, 4096, ?s1)"
    by (rule fresh_lock_page) (simp add: cmd_ring_def)
  obtain bs dn where p: "pack_page ?s1 (page_room True) [one_copy] = (bs, dn, [])" "length bs \<le> 4092"
    by (auto simp: one_copy_def pack_copy_def page_room_def)
  let ?mk = "cmdlist_msg False (chan_of 1 failing_proc) (lst_id (p_cmdlists failing_proc 7)) None"
  have m: "?mk True True (4 + length bs) = H2C_CmdList False (chan_of 1 failing_proc) (lst_id (p_cmdlists failing_proc 7))
      False True True (get_cmdlist_opt_dependencies None) (of_nat (4 + length bs))"
    by (simp only: cmdlist_msg_def if_False)
  have "length (le_bytes 4 1 @ bs) \<le> 8192" using p(2) by simp
  from failing_page [OF this] obtain s2 where s2: "send_page 1 0 0 (le_bytes 4 1 @ bs) (?mk True True (4 + length bs)) ?s1 = Done (False, s2)"
    "p_cmdlists s2 = p_cmdlists failing_proc" "ctx_broken (p_ctxs s2 1) = False"
    "ch_killed (cx_chan (p_ctxs s2 1)) = False" "ch_writes (cx_chan (p_ctxs s2 1)) = 1"
    "ch_kernel (cx_chan (p_ctxs s2 1)) = (\<lambda>n. if n = 0 then 0 else 8)"
    unfolding m by blast
  have pl: "dn \<noteq> []" using pack_page_spec [OF p(1)] by auto
  have "send_pages 1 0 ?mk 1 True [] [one_copy] failing_proc = Some (Done (NNP_IO_ERROR, dn, s2))"
    using send_pages_unfold [of "[one_copy]" 1 0 failing_proc 0 ?s1 True bs dn "[]" ?mk 1 "[]", OF _ l p(1)]
    by (simp only: unat_1 s2(1) if_True outcome.case prod.case not_True_eq_False not_False_eq_True append_Nil append_Nil2
        list.simps refl simp_thms)
  then have r: "send_to_card False None 7 failing_proc = Done (NNP_IO_ERROR, upd_list 7 (\<lambda>l. l\<lparr>
      lst_vec := map clear_edits dn, lst_num_edits := 0\<rparr>) s2)"
    by (simp add: send_to_card_def Let_def of_loop_def cmdlist_new_def)
  show thesis
    by (rule that [OF r]) (use s2 pl in \<open>simp_all add: cmdlist_new_def\<close>)
qed


end
