(* ===== verification/Wire_Format.thy ===== *)
theory Wire_Format
  imports Edit_Marks
begin

text \<open>
  What the bytes of a command list say. The format is the one \<open>pack\<close> writes: the number of commands, then for
  each its index, its type (\<open>CmdListCommandType\<close>) and its parameters; in a copy list the number of copies
  follows, each again with index and type. \<open>rd_list\<close> reads it, and what it reads are exactly the commands
  that were marked, at their positions in the list.
\<close>

section \<open>Reading\<close>

record wire_copy =
  wc_idx :: nat
  wc_id :: nat
  wc_priority :: nat
  wc_size :: nat

datatype wire_cmd =
    W_Copy wire_copy
  | W_CopyList nat "wire_copy list"
  | W_InfReq nat nat nat "(nat \<times> nat \<times> nat \<times> nat) option"

definition rd :: "nat \<Rightarrow> u8 list \<Rightarrow> (nat \<times> u8 list) option" where
  "rd n bs = (if length bs < n then None else Some (le_val (take n bs), drop n bs))"

definition rd_copy :: "nat \<Rightarrow> u8 list \<Rightarrow> (wire_copy \<times> u8 list) option" where
  "rd_copy i bs =
     Option.bind (rd 2 bs) (\<lambda>(cid, b1). Option.bind (rd 1 b1) (\<lambda>(priority, b2).
     Option.bind (rd 8 b2) (\<lambda>(sz, b3).
       Some (\<lparr>wc_idx = i, wc_id = cid, wc_priority = priority, wc_size = sz\<rparr>, b3))))"

fun rd_copies :: "nat \<Rightarrow> u8 list \<Rightarrow> (wire_copy list \<times> u8 list) option" where
  "rd_copies 0 bs = Some ([], bs)"
| "rd_copies (Suc n) bs =
     Option.bind (rd 4 bs) (\<lambda>(i, b1). Option.bind (rd 1 b1) (\<lambda>(t, b2).
       if t \<noteq> CMDLIST_CMD_COPY then None
       else Option.bind (rd_copy i b2) (\<lambda>(c, b3). Option.bind (rd_copies n b3) (\<lambda>(cs, b4). Some (c # cs, b4)))))"

definition rd_infreq :: "nat \<Rightarrow> u8 list \<Rightarrow> (wire_cmd \<times> u8 list) option" where
  "rd_infreq i bs =
     Option.bind (rd 2 bs) (\<lambda>(net, b1). Option.bind (rd 2 b1) (\<lambda>(req, b2).
     Option.bind (rd 1 b2) (\<lambda>(null_params, b3).
       if null_params \<noteq> 0 then Some (W_InfReq i net req None, b3)
       else
         Option.bind (rd 2 b3) (\<lambda>(batch, b4). Option.bind (rd 1 b4) (\<lambda>(priority, b5).
         Option.bind (rd 1 b5) (\<lambda>(dbg, b6). Option.bind (rd 1 b6) (\<lambda>(info, b7).
           Some (W_InfReq i net req (Some (batch, priority, dbg, info)), b7))))))))"

definition rd_cmd :: "u8 list \<Rightarrow> (wire_cmd \<times> u8 list) option" where
  "rd_cmd bs =
     Option.bind (rd 4 bs) (\<lambda>(i, b1). Option.bind (rd 1 b1) (\<lambda>(t, b2).
       if t = CMDLIST_CMD_COPY then Option.bind (rd_copy i b2) (\<lambda>(c, b3). Some (W_Copy c, b3))
       else if t = CMDLIST_CMD_COPYLIST then
         Option.bind (rd 2 b2) (\<lambda>(n, b3). Option.bind (rd_copies n b3) (\<lambda>(cs, b4). Some (W_CopyList i cs, b4)))
       else if t = CMDLIST_CMD_INFREQ then rd_infreq i b2
       else None))"

fun rd_cmds :: "nat \<Rightarrow> u8 list \<Rightarrow> (wire_cmd list \<times> u8 list) option" where
  "rd_cmds 0 bs = Some ([], bs)"
| "rd_cmds (Suc n) bs =
     Option.bind (rd_cmd bs) (\<lambda>(x, b1). Option.bind (rd_cmds n b1) (\<lambda>(xs, b2). Some (x # xs, b2)))"

definition rd_list :: "u8 list \<Rightarrow> wire_cmd list option" where
  "rd_list bs =
     Option.bind (rd 4 bs) (\<lambda>(n, b1). Option.bind (rd_cmds n b1) (\<lambda>(xs, b2). if b2 = [] then Some xs else None))"

section \<open>The marked commands\<close>

definition wire_copy_of :: "'a objects_scheme \<Rightarrow> nat \<Rightarrow> copy_params \<Rightarrow> wire_copy" where
  "wire_copy_of s i p = \<lparr>wc_idx = i, wc_id = unat (cp_id (o_copies s (cpp_copy p))),
     wc_priority = unat (cpp_priority p), wc_size = unat (cpp_size p)\<rparr>"

text \<open>The marked elements with their positions.\<close>

definition marked :: "('x \<Rightarrow> bool) \<Rightarrow> 'x list \<Rightarrow> (nat \<times> 'x) list" where
  "marked P xs = filter (\<lambda>(i, x). P x) (enumerate 0 xs)"

primrec wire_of :: "'a objects_scheme \<Rightarrow> nat \<Rightarrow> sched_cmd \<Rightarrow> wire_cmd" where
  "wire_of s i (Cmd_Copy p) = W_Copy (wire_copy_of s i p)"
| "wire_of s i (Cmd_CopyList l) =
     W_CopyList i (map (\<lambda>(j, p). wire_copy_of s j p) (marked cpp_edited (clp_copies l)))"
| "wire_of s i (Cmd_InfReq r) =
     (let q = o_infreqs s (irp_infreq r)
      in W_InfReq i (unat (dn_id (o_devnets s (rq_devnet q)))) (unat (rq_id q))
           (if irp_null_params r then None
            else Some (unat (irp_batchSize r), unat (irp_priority r), of_bool (irp_debugOn r),
                       of_bool (irp_collectInfo r))))"

section \<open>Reading what was written\<close>

lemma rd_le_bytes: "v < 256 ^ n \<Longrightarrow> rd n (le_bytes n v @ bs) = Some (v, bs)"
  by (simp add: rd_def le_val_le_bytes)

lemma rd_byte [simp]: "rd (Suc 0) (x # bs) = Some (unat x, bs)"
  by (simp add: rd_def)

lemma rd_word [simp]:
  "rd 2 (le_bytes 2 (unat (y :: u16)) @ bs) = Some (unat y, bs)"
  "rd 4 (le_bytes 4 (unat (y :: u16)) @ bs) = Some (unat y, bs)"
  "rd 8 (le_bytes 8 (unat (z :: u64)) @ bs) = Some (unat z, bs)"
  using unat_lt [of y] unat_lt [of z] by (simp_all add: rd_le_bytes)

lemma rd_copy_bytes:
  "rd_copy i (le_bytes 2 (unat (cp_id (o_copies s (cpp_copy p)))) @ cpp_priority p #
     le_bytes 8 (unat (cpp_size p)) @ bs) = Some (wire_copy_of s i p, bs)"
  by (simp add: rd_copy_def wire_copy_of_def)

lemma rd_copies_encode:
  "rd_copies (length (filter cpp_edited ps)) (concat (map (encode_copy s) ps) @ bs)
     = Some (map (\<lambda>p. wire_copy_of s (unat (cpp_idx p)) p) (filter cpp_edited ps), bs)"
  by (induction ps) (simp_all add: encode_copy_def copy_bytes_def rd_copy_bytes)

text \<open>A command with the index it carries.\<close>

primrec wire_at_idx :: "'a objects_scheme \<Rightarrow> sched_cmd \<Rightarrow> wire_cmd" where
  "wire_at_idx s (Cmd_Copy p) = W_Copy (wire_copy_of s (unat (cpp_idx p)) p)"
| "wire_at_idx s (Cmd_CopyList l) =
     W_CopyList (unat (clp_idx l)) (map (\<lambda>p. wire_copy_of s (unat (cpp_idx p)) p) (filter cpp_edited (clp_copies l)))"
| "wire_at_idx s (Cmd_InfReq r) = wire_of s (unat (irp_idx r)) (Cmd_InfReq r)"

lemma rd_cmd_encode:
  assumes "is_edited x" "cmd_marks_ok x"
  shows "rd_cmd (encode s x @ bs) = Some (wire_at_idx s x, bs)"
proof (cases x)
  case (Cmd_Copy p)
  then show ?thesis using assms(1)
    by (simp add: rd_cmd_def encode_copy_def copy_bytes_def rd_copy_bytes)
next
  case (Cmd_CopyList l)
  then have l: "clp_edited l" "clp_num_edits l \<noteq> 0" "unat (clp_num_edits l) = length (filter cpp_edited (clp_copies l))"
    using assms by (simp_all add: cmd_marks_ok_def)
  have "rd_copies (unat (clp_num_edits l)) (concat (map (encode_copy s) (clp_copies l)) @ bs)
     = Some (map (\<lambda>p. wire_copy_of s (unat (cpp_idx p)) p) (filter cpp_edited (clp_copies l)), bs)"
    unfolding l(3) by (rule rd_copies_encode)
  then show ?thesis using Cmd_CopyList l(1,2) by (simp add: rd_cmd_def copylist_header_def)
next
  case (Cmd_InfReq r)
  then show ?thesis using assms(1)
    by (simp add: rd_cmd_def rd_infreq_def infreq_bytes_def Let_def)
qed

lemma encode_unmarked: "\<not> is_edited x \<Longrightarrow> cmd_marks_ok x \<Longrightarrow> encode s x = []"
  by (cases x) (auto simp: cmd_marks_ok_def encode_copy_def)

lemma rd_cmds_encode:
  "\<forall>x \<in> set xs. cmd_marks_ok x \<Longrightarrow>
     rd_cmds (length (filter is_edited xs)) (encode_all s xs @ bs) = Some (map (wire_at_idx s) (filter is_edited xs), bs)"
  by (induction xs) (simp_all add: rd_cmd_encode encode_unmarked)


section \<open>Positions\<close>

text \<open>The indices are the positions, in the list and in each copy list.\<close>

definition indexed :: "sched_cmd list \<Rightarrow> bool" where
  "indexed xs \<longleftrightarrow> (\<forall>k < length xs. cmd_index (xs ! k) = of_nat k
     \<and> (case xs ! k of Cmd_CopyList l \<Rightarrow> \<forall>j < length (clp_copies l). cpp_idx (clp_copies l ! j) = of_nat j | _ \<Rightarrow> True))"

lemma indexed_Nil [simp]: "indexed []"
  by (simp add: indexed_def)

lemma batched_indexed: "batched s xs \<Longrightarrow> indexed xs"
  unfolding batched_def indexed_def
proof (intro allI impI)
  fix k assume b: "\<forall>k<length xs. cmd_index (xs ! k) = word_of_nat k \<and> (case xs ! k of Cmd_CopyList l \<Rightarrow> batch_ok s l | _ \<Rightarrow> True)"
    and k: "k < length xs"
  have "cpp_idx (clp_copies l ! j) = of_nat j" if "xs ! k = Cmd_CopyList l" "j < length (clp_copies l)" for l j
  proof -
    have "map cpp_idx (clp_copies l) = map of_nat [0..<length (clp_copies l)]" using b k that(1) by (auto simp: batch_ok_def)
    from arg_cong [OF this, of "\<lambda>xs. xs ! j"] show ?thesis using that(2) by simp
  qed
  then show "cmd_index (xs ! k) = word_of_nat k
     \<and> (case xs ! k of Cmd_CopyList l \<Rightarrow> \<forall>j < length (clp_copies l). cpp_idx (clp_copies l ! j) = of_nat j | _ \<Rightarrow> True)"
    using b k by (auto split: sched_cmd.split)
qed

text \<open>Only the shapes matter.\<close>

lemma indexed_shape:
  assumes "map shape xs = map shape ys" "indexed ys"
  shows "indexed xs"
  unfolding indexed_def
proof (intro allI impI)
  fix k assume k: "k < length xs"
  then have k': "k < length ys" using assms(1) map_eq_imp_length_eq by metis
  have eq: "shape (xs ! k) = shape (ys ! k)" using assms(1) k k' by (metis nth_map)
  have y: "cmd_index (ys ! k) = of_nat k"
    "case ys ! k of Cmd_CopyList l \<Rightarrow> \<forall>j < length (clp_copies l). cpp_idx (clp_copies l ! j) = of_nat j | _ \<Rightarrow> True"
    using assms(2) k' unfolding indexed_def by blast+
  have "cpp_idx (clp_copies l ! j) = of_nat j" if l: "xs ! k = Cmd_CopyList l" "j < length (clp_copies l)" for l j
  proof -
    obtain m where m: "ys ! k = Cmd_CopyList m" using eq l(1) by (cases "ys ! k") auto
    then have e: "map cpp_idx (clp_copies l) = map cpp_idx (clp_copies m)" using eq l(1) m by simp
    then have "j < length (clp_copies m)" using l(2) map_eq_imp_length_eq by metis
    then show ?thesis using y(2) m arg_cong [OF e, of "\<lambda>xs. xs ! j"] l(2) by simp
  qed
  then show "cmd_index (xs ! k) = of_nat k
     \<and> (case xs ! k of Cmd_CopyList l \<Rightarrow> \<forall>j < length (clp_copies l). cpp_idx (clp_copies l ! j) = of_nat j | _ \<Rightarrow> True)"
    using y(1) eq by (auto simp: shape_def split: sched_cmd.split)
qed


lemma indexed_append:
  assumes "indexed xs" "\<not> is_copylist x"
  shows "indexed (xs @ [set_index (of_nat (length xs)) x])"
  using assms by (cases x) (auto simp: indexed_def nth_append less_Suc_eq)

lemma map_update_same: "(k < length xs \<Longrightarrow> f y = f (xs ! k)) \<Longrightarrow> map f (xs[k := y]) = map f xs"
  by (cases "k < length xs") (simp_all add: map_update list_update_same_conv list_update_beyond)

lemma mark_shape: "mark_for_overwrite j x = Some y \<Longrightarrow> shape y = shape x"
proof (cases x)
  case (Cmd_CopyList l)
  assume m: "mark_for_overwrite j x = Some y"
  have "map cpp_idx ((clp_copies l)[unat j := (clp_copies l ! unat j)\<lparr>cpp_edited := True\<rparr>]) = map cpp_idx (clp_copies l)"
    by (rule map_update_same) simp
  then show ?thesis using m Cmd_CopyList by (auto simp: Let_def split: if_splits)
qed (auto split: if_splits)

lemma overwrite_shape:
  "map shape (lst_vec (p_cmdlists (snd (get_cmd_for_overwrite a i s)) a)) = map shape (lst_vec (p_cmdlists s a))"
proof (cases "find_cmd i (lst_vec (p_cmdlists s a))")
  case (Some kj)
  let ?v = "lst_vec (p_cmdlists s a)"
  obtain k j where kj: "kj = (k, j)" by (cases kj)
  have k: "k < length ?v" using Some kj find_cmd_index by blast
  show ?thesis
  proof (cases "mark_for_overwrite j (?v ! k)")
    case m: (Some y)
    have "map shape (?v[k := y]) = map shape ?v" by (rule map_update_same) (rule mark_shape [OF m])
    then show ?thesis using Some kj m by (simp add: get_cmd_for_overwrite_def Let_def)
  qed (simp add: get_cmd_for_overwrite_def Let_def Some kj)
qed (simp add: get_cmd_for_overwrite_def Let_def)

lemma list_step_indexed:
  assumes "list_step a s s'" "marks_of a s" "indexed (lst_vec (p_cmdlists s a))"
  shows "indexed (lst_vec (p_cmdlists s' a))"
  using assms(1)
proof cases
  case (append x e)
  then show ?thesis using assms(3) indexed_append [OF assms(3), of x] by (auto simp: append_cmd_def Let_def split: if_splits)
next
  case (overwrite i r)
  then have "s' = snd (get_cmd_for_overwrite a i s)" by simp
  then show ?thesis using indexed_shape [OF overwrite_shape assms(3), of i] by simp
next
  case batch
  then have "batched s (batch_copies s (lst_vec (p_cmdlists s a)))" using batch_copies_flat by blast
  then show ?thesis using batch(1) batched_indexed by (simp add: optimize_batch_copies_vec)
next
  case (send b env e)
  have "map shape (lst_vec (p_cmdlists s' a)) = map shape (lst_vec (p_cmdlists s a))"
    using send_to_card_marks [OF send assms(2)] by blast
  then show ?thesis by (rule indexed_shape [OF _ assms(3)])
next
  case (response c)
  then show ?thesis using quiet_fields [OF response] assms(3) by (metis indexed_shape)
qed

lemma marked_indexed:
  assumes "\<And>k. k < length xs \<Longrightarrow> P (xs ! k) \<Longrightarrow> f (xs ! k) = g (k, xs ! k)"
  shows "map f (filter P xs) = map g (marked P xs)"
proof -
  have "map f (filter P (drop n xs)) = map g (filter (\<lambda>(i, x). P x) (enumerate n (drop n xs)))" for n
    using assms
  proof (induction "length xs - n" arbitrary: n)
    case (Suc m)
    then have n: "n < length xs" by linarith
    then have d: "drop n xs = xs ! n # drop (Suc n) xs" by (simp add: Cons_nth_drop_Suc)
    show ?case using Suc(1) [of "Suc n"] Suc(2,3) n by (auto simp: d)
  qed simp
  from this [of 0] show ?thesis by (simp add: marked_def)
qed


section \<open>The property\<close>

lemma marked_copies:
  assumes "\<forall>j < length ps. cpp_idx (ps ! j) = of_nat j" "length ps \<le> 0xffff"
  shows "map (\<lambda>p. wire_copy_of s (unat (cpp_idx p)) p) (filter cpp_edited ps)
    = map (\<lambda>(j, p). wire_copy_of s j p) (marked cpp_edited ps)"
  by (rule marked_indexed) (use assms in \<open>simp add: unat_of_nat take_bit_nat_eq_self\<close>)

lemma wire_at_position:
  assumes "indexed xs" "\<forall>x \<in> set xs. cmd_marks_ok x" "length xs \<le> 0xffff" "k < length xs"
  shows "wire_at_idx s (xs ! k) = wire_of s k (xs ! k)"
proof -
  have i: "unat (cmd_index (xs ! k)) = k"
    using assms(1,3,4) by (simp add: indexed_def unat_of_nat take_bit_nat_eq_self)
  show ?thesis
  proof (cases "xs ! k")
    case (Cmd_CopyList l)
    then have "\<forall>j < length (clp_copies l). cpp_idx (clp_copies l ! j) = of_nat j"
      using assms(1,4) by (fastforce simp: indexed_def)
    moreover have "length (clp_copies l) \<le> 0xffff"
      using assms(2,4) Cmd_CopyList nth_mem [of k xs] by (fastforce simp: cmd_marks_ok_def)
    ultimately show ?thesis using Cmd_CopyList i marked_copies [of "clp_copies l" s] by simp
  qed (use i in simp_all)
qed

lemma list_runs_ok:
  assumes "(list_step a)\<^sup>*\<^sup>* s0 s" "p_cmdlists s0 a = cmdlist_new i c"
  shows "marks_of a s \<and> indexed (lst_vec (p_cmdlists s a))"
  using assms(1)
proof (induction rule: rtranclp_induct)
  case base
  show ?case using assms(2) by (simp add: cmdlist_new_def marks_ok_def)
next
  case (step t u)
  then show ?case using list_step_marks list_step_indexed by blast
qed



end
