(* ===== verification/Network_Pages.thy ===== *)
theory Network_Pages
  imports Paging
begin

text \<open>
  A network on the wire: the resource ids and the configuration data that
  \<open>nnpiDevNet::send_create_or_add\<close> cuts into pages arrive as one piece.
\<close>

section \<open>The pages\<close>

function net_pages :: "u16 list \<Rightarrow> u8 list \<Rightarrow> u8 list list" where
  "net_pages ids conf =
     (case net_page ids conf of
        (p, ids', conf') \<Rightarrow> p # (if ids' = [] \<and> conf' = [] then [] else net_pages ids' conf'))"
  by pat_completeness auto
termination
proof (relation "measure (\<lambda>(ids, conf). length ids + length conf)", simp, goal_cases)
  case (1 ids conf p ids' conf')
  then show ?case by (cases ids) (auto simp: net_page_def Let_def)
qed

declare net_pages.simps [simp del] send_net_pages.simps [simp del]

definition id_bytes :: "u16 list \<Rightarrow> u8 list" where
  "id_bytes ids = concat (map (\<lambda>i. le_bytes 2 (unat i)) ids)"

lemma id_bytes_append [simp]: "id_bytes (xs @ ys) = id_bytes xs @ id_bytes ys"
  by (simp add: id_bytes_def)

lemma length_id_bytes [simp]: "length (id_bytes ids) = 2 * length ids"
  by (induction ids) (simp_all add: id_bytes_def)

lemma net_page_simps:
  "fst (net_page ids conf) = id_bytes (take 2048 ids) @ take (4096 - 2 * min (length ids) 2048) conf"
  "fst (snd (net_page ids conf)) = drop 2048 ids"
  "snd (snd (net_page ids conf)) = drop (4096 - 2 * min (length ids) 2048) conf"
  by (cases "length ids \<le> 2048"; simp add: net_page_def Let_def id_bytes_def min_def)+

lemma net_pages_step:
  "net_pages ids conf = fst (net_page ids conf) #
     (if fst (snd (net_page ids conf)) = [] \<and> snd (snd (net_page ids conf)) = [] then []
      else net_pages (fst (snd (net_page ids conf))) (snd (snd (net_page ids conf))))"
  by (subst net_pages.simps) (simp split: prod.split)

lemma net_pages_content:
  "concat (net_pages ids conf) = id_bytes ids @ conf \<and> (\<forall>p \<in> set (net_pages ids conf). length p \<le> 4096)"
proof (induction ids conf rule: net_pages.induct)
  case (1 ids conf)
  have IH: "concat (net_pages ids' conf') = id_bytes ids' @ conf' \<and> (\<forall>p \<in> set (net_pages ids' conf'). length p \<le> 4096)"
    if "ids' = fst (snd (net_page ids conf))" "conf' = snd (snd (net_page ids conf))" "\<not> (ids' = [] \<and> conf' = [])"
    for ids' conf' using 1 that by (cases "net_page ids conf") auto
  have len: "length (fst (net_page ids conf)) \<le> 4096" by (simp add: net_page_simps)
  have split: "id_bytes ids = id_bytes (take 2048 ids) @ id_bytes (drop 2048 ids)"
    by (simp flip: id_bytes_append)
  show ?case
  proof (cases "drop 2048 ids = []")
    case True
    then show ?thesis using IH [OF refl refl] len
      by (subst (1 2) net_pages_step) (auto simp: net_page_simps id_bytes_def)
  next
    case False
    then have "min (length ids) 2048 = 2048" by simp
    then show ?thesis using IH [OF refl refl] len False split
      by (subst (1 2) net_pages_step) (simp add: net_page_simps)
  qed
qed

text \<open>The message of a page: \<open>mk\<close> of the number of resources in the pages before.\<close>

lemma net_pages_starts:
  "map (\<lambda>k. mk (start + of_nat (min (2048 * k) (length ids)) :: 24 word)) [0..<length (net_pages ids conf)]
     = mk start # (if fst (snd (net_page ids conf)) = [] \<and> snd (snd (net_page ids conf)) = [] then []
         else map (\<lambda>k. mk (start + of_nat (min (length ids) 2048) + of_nat (min (2048 * k) (length (drop 2048 ids)))))
           [0..<length (net_pages (fst (snd (net_page ids conf))) (snd (snd (net_page ids conf))))])"
proof -
  have "min (2048 * Suc k) n = min n 2048 + min (2048 * k) (n - 2048)" for k n :: nat by auto
  then have *: "of_nat (min (2048 * Suc k) (length ids)) =
      (of_nat (min (length ids) 2048) + of_nat (min (2048 * k) (length ids - 2048)) :: 24 word)" for k
    by (simp only: of_nat_add)
  show ?thesis
    by (subst net_pages_step) (simp add: upt_conv_Cons map_Suc_upt [symmetric] * add.assoc del: upt_Suc mult_Suc_right)
qed

lemma send_net_pages_sends:
  assumes "send_net_pages c mk start ids conf s = Done (NNP_NO_ERROR, s')"
  shows "sends c (map (\<lambda>k. mk (start + of_nat (min (2048 * k) (length ids)))) [0..<length (net_pages ids conf)]) s s'"
  using assms
proof (induction c mk start ids conf s rule: send_net_pages.induct)
  case (1 c mk start ids conf s)
  let ?p = "net_page ids conf"
  from "1.prems" obtain dst cont s1 where l: "lock_page c 0 s = Done (dst, cont, s1)"
    and r: "(case dst of None \<Rightarrow> Done (NNP_IO_ERROR, s1)
       | Some off \<Rightarrow> obind (send_page c 0 off (fst ?p) (mk start) s1) (\<lambda>(ok, s2).
            if \<not> ok then Done (NNP_IO_ERROR, s2)
            else if fst (snd ?p) = [] \<and> snd (snd ?p) = [] then Done (NNP_NO_ERROR, s2)
            else send_net_pages c mk (start + of_nat (min (length ids) 2048)) (fst (snd ?p)) (snd (snd ?p)) s2))
        = Done (NNP_NO_ERROR, s')"
    by (subst (asm) send_net_pages.simps) (auto elim!: obind_DoneE)
  then obtain off ok s2 where off: "dst = Some off" and p: "send_page c 0 off (fst ?p) (mk start) s1 = Done (ok, s2)"
    and r2: "(if \<not> ok then Done (NNP_IO_ERROR, s2)
            else if fst (snd ?p) = [] \<and> snd (snd ?p) = [] then Done (NNP_NO_ERROR, s2)
            else send_net_pages c mk (start + of_nat (min (length ids) 2048)) (fst (snd ?p)) (snd (snd ?p)) s2)
        = Done (NNP_NO_ERROR, s')"
    by (cases dst) (auto elim!: obind_DoneE)
  then have ok: "ok" by (cases ok) simp_all
  have s2: "sends c [mk start] s s2"
    using quiet_sends [OF lock_page_quiet [OF l] send_page_sends [OF p]] ok by simp
  show ?case
  proof (cases "fst (snd ?p) = [] \<and> snd (snd ?p) = []")
    case True
    then show ?thesis using s2 r2 ok by (subst net_pages_step) simp
  next
    case False
    then have r3: "send_net_pages c mk (start + of_nat (min (length ids) 2048)) (fst (snd ?p)) (snd (snd ?p)) s2
        = Done (NNP_NO_ERROR, s')" using r2 by (simp only: ok False simp_thms if_False)
    have "map (\<lambda>k. mk (start + of_nat (min (2048 * k) (length ids)))) [0..<length (net_pages ids conf)] =
        mk start # map (\<lambda>k. mk (start + of_nat (min (length ids) 2048) + of_nat (min (2048 * k) (length (drop 2048 ids)))))
           [0..<length (net_pages (fst (snd ?p)) (snd (snd ?p)))]"
      using net_pages_starts [of mk start ids conf] False by simp
    moreover have "sends c (map (\<lambda>k. mk (start + of_nat (min (length ids) 2048) + of_nat (min (2048 * k) (length (drop 2048 ids)))))
           [0..<length (net_pages (fst (snd ?p)) (snd (snd ?p)))]) s2 s'"
      using "1.IH" [OF l refl refl off p refl _ False] ok r3 unfolding net_page_simps(2) by simp
    ultimately show ?thesis using sends_trans [OF s2] by simp
  qed
qed

section \<open>Properties\<close>

lemma quiet_replies: "quiet c s (upd_ctx c (\<lambda>x. x\<lparr>cx_create_reply := g x\<rparr>) s)"
  by (rule quiet_ctx_keep) (simp_all add: ctx_key_def ctx_broken_def)

lemma wait_create_quiet: "wait_create_command c k s = Done (ev, s') \<Longrightarrow> quiet c s s'"
  unfolding wait_create_command_def Let_def
  by (auto elim!: obind_DoneE split: option.splits dest!: wait_for_Done intro: quiet_trans [OF _ quiet_replies])

lemma net_message [simp]: "head_update (H2C_InfNetwork a b d e f g h i j) = False"
  by (simp add: head_update_def)

lemma ucast_pred: "ucast (of_nat n - 1 :: u64) = (of_nat n - 1 :: 32 word)"
proof -
  have "(int n mod 2 ^ 64 - 1) mod 2 ^ 32 = (int n mod 2 ^ 64 mod 2 ^ 32 - 1) mod 2 ^ 32"
    by (rule mod_diff_left_eq [symmetric])
  also have "int n mod 2 ^ 64 mod 2 ^ 32 = int n mod 2 ^ 32" by (rule mod_mod_cancel) simp
  finally have "uint (ucast (of_nat n - 1 :: u64) :: 32 word) = uint (of_nat n - 1 :: 32 word)"
    by (simp add: unsigned_ucast_eq uint_word_ariths unsigned_of_nat take_bit_eq_mod mod_mod_cancel of_nat_mod)
  then show ?thesis using word_uint_eq_iff by blast
qed

lemma over_a_page: "n < 2 ^ 64 \<Longrightarrow> ((of_nat n :: u64) > 4096) = (4096 < n)"
  by (simp add: word_less_nat_alt unsigned_of_nat take_bit_eq_mod)


text \<open>One resource and three bytes, the answer being there already.\<close>

lemma msg_size_InfNetwork [simp]: "msg_size (H2C_InfNetwork a b d e f g h i j) = 16"
  by (simp add: msg_size_def msg_qwords_def layout_bits_def h2c_ChanInferenceNetworkOp_def)

definition net_proc :: proc where
  "net_proc = upd_ctx 1 (\<lambda>x. x\<lparr>cx_create_reply := [(obj_id_of INF_OBJ_TYPE_DEVNET 9,
     zero_report\<lparr>event_code := NNP_IPC_CREATE_DEVNET_SUCCESS\<rparr>)]\<rparr>) (sample_proc (\<lambda>_. 16) [])"

lemma net_proc_simps [simp]: "cx_chan (p_ctxs net_proc 1) = cx_chan (sample_ctx (\<lambda>_. 16) [])"
  "ctx_broken (p_ctxs net_proc 1) = False" "chan_of 1 net_proc = 3" "commands (p_ctxs net_proc 1) = []"
  by (simp_all add: net_proc_def ctx_broken_def chan_of_def commands_def)

lemma net_proc_sends: "\<exists>s'. send_create_or_add 1 9 True [5] [1, 2, 3] net_proc = Done (NNP_NO_ERROR, s')"
proof -
  let ?m = "H2C_InfNetwork 3 9 False False True 1 4 0 False"
  have l: "lock_page 1 0 net_proc = Done (Some 0, 4096, set_cmd_ring 1 0 ((new_ring 8192)\<lparr>m_locked := True\<rparr>) net_proc)"
    by (rule fresh_lock_page) (simp add: cmd_ring_def)
  obtain s2 where s2: "send_page 1 0 0 (fst (net_page [5] [1, 2, 3])) ?m
        (set_cmd_ring 1 0 ((new_ring 8192)\<lparr>m_locked := True\<rparr>) net_proc) = Done (True, s2)"
      "cx_create_reply (p_ctxs s2 1) = cx_create_reply (p_ctxs net_proc 1)" "cx_critical_error (p_ctxs s2 1) = None"
    using fresh_send_page [of 0 net_proc 1 ?m "fst (net_page [5] [1, 2, 3])"]
    by (auto simp: net_page_simps net_proc_def)
  have "reply_find (obj_id_of INF_OBJ_TYPE_DEVNET 9) (cx_create_reply (p_ctxs net_proc 1))
      = Some (zero_report\<lparr>event_code := NNP_IPC_CREATE_DEVNET_SUCCESS\<rparr>)"
    by (simp add: net_proc_def obj_less_def)
  then have "\<exists>s3. wait_create_command 1 (obj_id_of INF_OBJ_TYPE_DEVNET 9) s2
      = Done (zero_report\<lparr>event_code := NNP_IPC_CREATE_DEVNET_SUCCESS\<rparr>, s3)"
    using s2 by (simp add: wait_create_command_def wait_for_now reply_ready_def Let_def)
  moreover have "send_net_pages 1 (\<lambda>start. H2C_InfNetwork 3 9 False False True 1 4 start False) 0 [5] [1, 2, 3] net_proc
      = Done (NNP_NO_ERROR, s2)"
    using l s2(1) by (subst send_net_pages.simps) (simp add: net_page_simps)
  ultimately show ?thesis
    by (auto simp: send_create_or_add_def Let_def reply_result_def is_context_fatal_event_def)
qed


end
