(* ===== verification/Waiting.thy ===== *)
theory Waiting
  imports Frame Sample
begin

text \<open>
  How long the threads wait. Every message the response thread handles makes its remaining work
  smaller, so the number of rounds a wait is given is enough, and a wait ends when the context is
  broken by a fatal event or by the end of the channel.
\<close>

section \<open>The inbox\<close>

definition inbox :: "addr \<Rightarrow> proc \<Rightarrow> resp_item list" where
  "inbox c s = ch_inbox (cx_chan (p_ctxs s c))"

lemma inbox_ctx [simp]:
  "cx_chan (f (p_ctxs s c)) = cx_chan (p_ctxs s c) \<Longrightarrow> inbox c (upd_ctx c f s) = inbox c s"
  by (simp add: inbox_def)

lemma inbox_chan [simp]:
  "ch_inbox (f (cx_chan (p_ctxs s c))) = ch_inbox (cx_chan (p_ctxs s c)) \<Longrightarrow> inbox c (upd_chan c f s) = inbox c s"
  by (simp add: inbox_def upd_chan_def)

lemma inbox_more [simp]: "inbox c (upd_db c f s) = inbox c s" "inbox c (upd_list a g s) = inbox c s"
  "inbox c (set_devnet a d s) = inbox c s" "inbox c (s\<lparr>o_hostres := h\<rparr>) = inbox c s"
  by (simp_all add: inbox_def upd_db_def set_devnet_def)

lemma inbox_errors [simp]: "inbox c (put_errors c tg l s) = inbox c s"
  by (cases tg) simp_all

lemma inbox_lookup: "db_lookup c get s = (a, s') \<Longrightarrow> inbox c s' = inbox c s"
  by (auto simp: db_lookup_def split: prod.splits)

lemma inbox_copies_only: "copies_only s s' \<Longrightarrow> inbox c s' = inbox c s"
  by (auto simp: copies_only_def inbox_def)

text \<open>Operations after which the inbox is the same.\<close>

definition same_inbox :: "addr \<Rightarrow> proc \<Rightarrow> proc outcome \<Rightarrow> bool" where
  "same_inbox c s r \<longleftrightarrow> (\<forall>s'. r = Done s' \<longrightarrow> inbox c s' = inbox c s)"

lemma same_inbox_simps [simp]: "same_inbox c s (Done t) \<longleftrightarrow> inbox c t = inbox c s"
  "same_inbox c s Waits" "same_inbox c s Loops" "same_inbox c s Undefined"
  by (auto simp: same_inbox_def)

lemma same_inbox_then:
  "same_inbox c s r \<Longrightarrow> (\<And>t. inbox c t = inbox c s \<Longrightarrow> same_inbox c s (f t)) \<Longrightarrow> same_inbox c s (obind r f)"
  unfolding same_inbox_def by (blast elim: obind_DoneE)

lemma same_inbox_start: "inbox c t = inbox c s \<Longrightarrow> same_inbox c t r \<Longrightarrow> same_inbox c s r"
  unfolding same_inbox_def by metis

lemma same_inbox_errors:
  assumes "\<And>el el' s'. f el s = Done (el', s') \<Longrightarrow> copies_only s s'"
  shows "same_inbox c s (with_errors c t f s)"
proof -
  have "f el s = Done (el', s') \<Longrightarrow> inbox c s' = inbox c s" for el el' s'
    using assms inbox_copies_only by blast
  then show ?thesis
    unfolding with_errors_def same_inbox_def by (fastforce elim!: obind_DoneE split: option.splits)
qed

lemma same_inbox_locked: "same_inbox c s (complete a s)" "same_inbox c s (addError a s)"
  by (simp_all add: complete_def addError_def list_update_locked_def)

lemma same_inbox_post: "same_inbox c s (with_errors c t (\<lambda>el. post_schedule el a) s)"
  by (rule same_inbox_errors) (rule post_schedule_frame)

lemma same_inbox_done: "same_inbox c s (with_errors c t (\<lambda>el. schedule_done el x) s)"
  by (rule same_inbox_errors) (rule schedule_done_frame)

lemma same_inbox_fail: "same_inbox c s (fail_copies c as s)"
proof (induction as arbitrary: s)
  case (Cons a as)
  show ?case
    by (auto intro!: same_inbox_then same_inbox_post intro: same_inbox_start [OF _ Cons.IH])
qed simp

lemma same_inbox_all: "same_inbox c s (failAllScheduledCopyCommands c s)"
  by (simp add: failAllScheduledCopyCommands_def same_inbox_fail)

lemma same_inbox_complete_lists: "same_inbox c s (complete_lists as s)"
proof (induction as arbitrary: s)
  case (Cons a as)
  show ?case
    by (auto intro!: same_inbox_then same_inbox_locked intro: same_inbox_start [OF _ Cons.IH])
qed simp

lemma same_inbox_ring [simp]: "inbox c (set_resp_ring c rb s) = inbox c s"
  by (simp add: set_resp_ring_def)

lemma same_inbox_dma [simp]: "inbox c (dma_store c bs s) = inbox c s"
  by (simp add: dma_store_def split: option.splits)

lemma same_inbox_head [simp]: "inbox c (snd (sendResponseRingBufferHeadUpdate c i sz s)) = inbox c s"
  by (simp add: sendResponseRingBufferHeadUpdate_def Let_def sys_write_def)

lemma same_inbox_packet: "same_inbox c s (append_packet c tg p n ev s)"
  by (auto simp: append_packet_def same_inbox_def elim!: obind_DoneE)

lemma same_inbox_error_packet: "same_inbox c s (exec_error_packet c tg clr psz tot err s)"
  unfolding exec_error_packet_def
  by (auto split: option.splits prod.splits simp: same_inbox_packet
      intro!: same_inbox_then intro: same_inbox_start [OF _ same_inbox_packet])

lemma same_inbox_exec: "same_inbox c s (processExecErrorList c i v clr psz tot err s)"
  unfolding processExecErrorList_def Let_def
  by (auto split: option.splits prod.splits simp: same_inbox_error_packet dest!: inbox_lookup
      intro!: same_inbox_then intro: same_inbox_start [OF _ same_inbox_error_packet])

lemmas same_inbox_steps = same_inbox_start [OF _ same_inbox_post] same_inbox_start [OF _ same_inbox_done]
  same_inbox_start [OF _ same_inbox_locked(1)] same_inbox_start [OF _ same_inbox_locked(2)]

lemma same_inbox_copy: "same_inbox c s (handle_copy_event c ev s)"
  unfolding handle_copy_event_def
  by (auto split: prod.splits if_splits dest!: inbox_lookup intro!: same_inbox_then same_inbox_steps)

lemma same_inbox_copylist: "same_inbox c s (handle_copylist_event c ev s)"
  unfolding handle_copylist_event_def Let_def
  by (auto split: prod.splits dest!: inbox_lookup intro!: same_inbox_then same_inbox_steps)

lemma same_inbox_cmd: "same_inbox c s (handle_cmd_complete c ev s)"
  unfolding handle_cmd_complete_def
  by (auto split: prod.splits dest!: inbox_lookup intro!: same_inbox_then same_inbox_steps)

lemma same_inbox_credit: "same_inbox c s (handle_credit_failed c ev s)"
  unfolding handle_credit_failed_def
  by (auto split: prod.splits dest!: inbox_lookup intro!: same_inbox_steps)

lemma same_inbox_destroyed [simp]:
  "inbox c (handle_devres_destroyed c ev s) = inbox c s" "inbox c (handle_devnet_destroyed c ev s) = inbox c s"
  "inbox c (handle_infreq_destroyed c ev s) = inbox c s" "inbox c (handle_copy_destroyed c ev s) = inbox c s"
  "inbox c (handle_cmd_destroyed c ev s) = inbox c s" "inbox c (snd (process_create_reply c ev s)) = inbox c s"
  "inbox c (handle_ringbuff_head_update c i sz s) = inbox c s"
  by (auto simp: handle_devres_destroyed_def handle_devnet_destroyed_def handle_infreq_destroyed_def Let_def
      handle_copy_destroyed_def handle_cmd_destroyed_def process_create_reply_def
      handle_ringbuff_head_update_def split: prod.splits option.splits dest!: inbox_lookup)

text \<open>A handler adds at most the rest of itself in front.\<close>

definition adds_rest :: "addr \<Rightarrow> proc \<Rightarrow> (bool \<times> proc) outcome \<Rightarrow> bool" where
  "adds_rest c s r \<longleftrightarrow> (\<forall>b s'. r = Done (b, s') \<longrightarrow>
     inbox c s' = inbox c s \<or> (\<exists>k. inbox c s' = Rd_Complete k # inbox c s))"

lemma adds_rest_simps [simp]: "adds_rest c s Undefined" "adds_rest c s Waits"
  "inbox c t = inbox c s \<Longrightarrow> adds_rest c s (Done (b, t))"
  by (simp_all add: adds_rest_def)

lemma adds_rest_then: "same_inbox c s r \<Longrightarrow> adds_rest c s (obind r (\<lambda>t. Done (b, t)))"
  unfolding adds_rest_def same_inbox_def by (blast elim: obind_DoneE)

lemma inbox_then_complete: "inbox c (then_complete c k s) = Rd_Complete k # inbox c s"
  by (simp add: then_complete_def inbox_def upd_chan_def)

lemma inbox_critical [simp]: "inbox c (set_critical c ev s) = inbox c s" "inbox c (set_killed c s) = inbox c s"
  by (simp_all add: set_critical_def set_killed_def)

lemma handle_fatal_inbox:
  "handle_fatal c ev s = Done s' \<Longrightarrow> \<exists>k. inbox c s' = Rd_Complete k # inbox c s"
  using same_inbox_all [of c s] unfolding same_inbox_def handle_fatal_def
  by (fastforce simp: inbox_then_complete split: if_splits elim!: obind_DoneE)

lemma handle_event_inbox: "adds_rest c s (handle_event c ev s)"
proof -
  have fatal: "adds_rest c s (obind (handle_fatal c ev s) (\<lambda>s. Done (False, s)))"
    unfolding adds_rest_def by (blast elim: obind_DoneE dest: handle_fatal_inbox)
  show ?thesis
    unfolding handle_event_def Let_def
    by (auto intro!: adds_rest_then same_inbox_copy same_inbox_copylist same_inbox_cmd same_inbox_credit fatal)
qed

lemma handle_msg_inbox: "adds_rest c s (handle_msg c m s)"
proof (cases m)
  case (C2H_InfReqFailed ch net req cmd reason valid)
  then show ?thesis
    by (auto split: prod.splits dest!: inbox_lookup intro!: adds_rest_then same_inbox_steps)
qed (auto intro!: adds_rest_then same_inbox_exec handle_event_inbox)

section \<open>The work of the response thread\<close>

definition work :: "resp_item list \<Rightarrow> nat" where
  "work its = (\<Sum>it\<leftarrow>its. case it of Rd_Complete k \<Rightarrow> 1 | _ \<Rightarrow> 2)"

lemma work_simps [simp]: "work [] = 0" "work (Rd_Complete k # its) = Suc (work its)"
  "work (Rd_Msg m d # its) = Suc (Suc (work its))" "work (Rd_Fail # its) = Suc (Suc (work its))"
  by (simp_all add: work_def)

lemma work_wait_steps: "work (inbox c s) \<le> wait_steps c s"
proof -
  have "work its \<le> 2 * length its" for its
  proof (induction its)
    case (Cons it its)
    then show ?case by (cases it) simp_all
  qed simp
  then show ?thesis by (simp add: wait_steps_def inbox_def)
qed

lemma exit_inbox [simp]: "inbox c (exit_normal c s) = inbox c s" "inbox c (killed_end c s) = inbox c s"
  "inbox c (invalidate_rings c s) = inbox c s"
  by (simp_all add: exit_normal_def killed_end_def invalidate_rings_def)

lemma complete_rest_inbox [simp]: "inbox c (complete_rest k c s) = inbox c s"
  by (cases k) simp_all

lemma killed_begin_inbox: "killed_begin c u s = Done (w, s') \<Longrightarrow> inbox c s' = inbox c s"
  using same_inbox_all unfolding killed_begin_def Let_def same_inbox_def
  by (fastforce elim!: obind_DoneE split: if_splits)

lemma handle_next_work:
  assumes "handle_next c s = Done t"
  shows "work (inbox c t) < work (inbox c s)"
proof -
  obtain it rest where i: "inbox c s = it # rest"
    using assms by (cases "inbox c s") (simp_all add: handle_next_def inbox_def)
  let ?s0 = "upd_chan c (\<lambda>ch. ch\<lparr>ch_inbox := rest\<rparr>) s"
  have r: "inbox c ?s0 = rest" by (simp add: inbox_def upd_chan_def)
  show ?thesis
  proof (cases it)
    case (Rd_Msg m dma)
    then obtain ex s1 where m: "handle_msg c m (dma_store c dma ?s0) = Done (ex, s1)"
      and t: "t = (if ex then exit_normal c s1 else s1)"
      using assms i by (auto simp: handle_next_def inbox_def Let_def split: if_splits elim!: obind_DoneE)
    have "inbox c s1 = rest \<or> (\<exists>k. inbox c s1 = Rd_Complete k # rest)"
      using handle_msg_inbox [of c "dma_store c dma ?s0" m] m r unfolding adds_rest_def by auto
    then show ?thesis using t i Rd_Msg by auto
  next
    case Rd_Fail
    then obtain w s1 where m: "killed_begin c False ?s0 = Done (w, s1)"
      and t: "t = (if w then then_complete c Killed s1 else killed_end c s1)"
      using assms i by (auto simp: handle_next_def inbox_def Let_def split: if_splits elim!: obind_DoneE)
    then show ?thesis using killed_begin_inbox [OF m] r i Rd_Fail by (simp add: inbox_then_complete)
  next
    case (Rd_Complete k)
    then obtain s1 where m: "completeAllCommandLists c ?s0 = Done s1" and t: "t = complete_rest k c s1"
      using assms i by (auto simp: handle_next_def inbox_def Let_def split: if_splits elim!: obind_DoneE)
    then have "inbox c s1 = rest"
      using same_inbox_complete_lists r unfolding completeAllCommandLists_def same_inbox_def by metis
    then show ?thesis using t i Rd_Complete by simp
  qed
qed

text \<open>The response thread handles the next \<open>n\<close> items.\<close>

primrec handle_n :: "nat \<Rightarrow> addr \<Rightarrow> proc \<Rightarrow> proc outcome" where
  "handle_n 0 c s = Done s"
| "handle_n (Suc n) c s = obind (handle_next c s) (handle_n n c)"

lemma handle_n_work: "handle_n n c s = Done t \<Longrightarrow> n + work (inbox c t) \<le> work (inbox c s)"
proof (induction n arbitrary: s)
  case (Suc n)
  then obtain u where "handle_next c s = Done u" "handle_n n c u = Done t" by (auto elim: obind_DoneE)
  then show ?case using Suc.IH [of u] handle_next_work [of c s u] by simp
qed simp

lemma handle_n_add:
  "handle_n (m + n) c s = obind (handle_n m c s) (handle_n n c)"
proof (induction m arbitrary: s)
  case (Suc m)
  then show ?case by (cases "handle_next c s") simp_all
qed simp

lemma pump_reaches:
  "handle_n k c s = Done t \<Longrightarrow> cond t \<Longrightarrow> k \<le> n \<Longrightarrow> \<exists>j s'. j \<le> k \<and> handle_n j c s = Done s' \<and> pump n cond c s = Done s'"
proof (induction n arbitrary: s k)
  case (Suc n)
  show ?case
  proof (cases "cond s")
    case False
    with Suc.prems obtain k' u where k: "k = Suc k'" and u: "handle_next c s = Done u" "handle_n k' c u = Done t"
      by (cases k) (auto elim: obind_DoneE)
    moreover have "k' \<le> n" using Suc.prems(3) k by simp
    ultimately obtain j s' where "j \<le> k'" "handle_n j c u = Done s'" "pump n cond c u = Done s'"
      using Suc.IH [of k' u] Suc.prems(2) by blast
    then show ?thesis using False u k by (intro exI [of _ "Suc j"] exI [of _ s']) simp
  qed (intro exI [of _ 0], simp)
qed (intro exI [of _ 0], simp)

lemma wait_reaches:
  assumes "handle_n k c s = Done t" "cond t"
  shows "\<exists>j s'. j \<le> k \<and> handle_n j c s = Done s' \<and> cond s' \<and> wait_for cond c s = Done s'"
proof -
  have "k \<le> wait_steps c s" using handle_n_work [OF assms(1)] work_wait_steps [of c s] by simp
  then obtain j s' where "j \<le> k" "handle_n j c s = Done s'" "wait_for cond c s = Done s'"
    using pump_reaches [of k c s t cond "wait_steps c s"] assms unfolding wait_for_def by auto
  then show ?thesis using pump_cond unfolding wait_for_def by blast
qed

lemma pump_enough:
  "work (inbox c s) \<le> n \<Longrightarrow> pump (n + m) cond c s = pump n cond c s"
proof (induction n arbitrary: s)
  case 0
  then have "inbox c s = []"
    by (cases "inbox c s") (auto simp: work_def split: resp_item.splits)
  then have "handle_next c s = Waits" by (simp add: handle_next_def inbox_def)
  then show ?case by (cases m) simp_all
next
  case (Suc n)
  then show ?case by (cases "handle_next c s") (use handle_next_work [of c s] in fastforce)+
qed

section \<open>Broken contexts\<close>

definition ends_context :: "resp_item \<Rightarrow> bool" where
  "ends_context it = (case it of Rd_Msg (C2H_Event ev) dma \<Rightarrow> is_fatal ev | Rd_Fail \<Rightarrow> True | _ \<Rightarrow> False)"

lemma handle_fatal_breaks: "handle_fatal c ev s = Done s' \<Longrightarrow> ctx_broken (p_ctxs s' c)"
  by (auto simp: handle_fatal_def then_complete_def set_critical_def ctx_broken_def upd_chan_def
      split: if_splits elim!: obind_DoneE)

lemma killed_begin_breaks: "killed_begin c u s = Done (w, s') \<Longrightarrow> ctx_broken (p_ctxs s' c)"
  by (auto simp: killed_begin_def set_killed_def ctx_broken_def Let_def elim!: obind_DoneE)

lemma ends_context_breaks:
  assumes "inbox c s = it # rest" "ends_context it" "handle_next c s = Done t"
  shows "ctx_broken (p_ctxs t c)"
proof (cases it)
  case (Rd_Msg m dma)
  then obtain ev where "m = C2H_Event ev" "is_fatal ev"
    using assms(2) by (auto simp: ends_context_def split: c2h_msg.splits)
  then show ?thesis
    using assms(1,3) Rd_Msg
    by (auto simp: handle_next_def inbox_def Let_def handle_event_def dest: handle_fatal_breaks
        split: if_splits elim!: obind_DoneE)
next
  case Rd_Fail
  then show ?thesis
    using assms(1,3)
    by (auto simp: handle_next_def inbox_def Let_def then_complete_def killed_end_def exit_normal_def upd_chan_def
        upd_db_def ctx_broken_def [of "_\<lparr>cx_this := _\<rparr>"]
        dest!: killed_begin_breaks split: if_splits elim!: obind_DoneE) (simp_all add: ctx_broken_def)
qed (use assms(2) in \<open>simp add: ends_context_def\<close>)

section \<open>Properties\<close>

lemma pump_outcome:
  "work (inbox c s) \<le> n \<Longrightarrow>
     (\<exists>t k. pump n cond c s = Done t \<and> cond t \<and> handle_n k c s = Done t)
     \<or> (\<exists>u k. handle_n k c s = Done u \<and> \<not> cond u \<and> handle_next c u = pump n cond c s \<and> (\<nexists>t. pump n cond c s = Done t))"
proof (induction n arbitrary: s)
  case 0
  then have "inbox c s = []"
    by (cases "inbox c s") (auto simp: work_def split: resp_item.splits)
  then have "handle_next c s = Waits" by (simp add: handle_next_def inbox_def)
  moreover have "handle_n 0 c s = Done s" by simp
  ultimately show ?case by (cases "cond s") (fastforce simp del: handle_n.simps)+
next
  case (Suc n)
  have zero: "handle_n 0 c s = Done s" by simp
  show ?case
  proof (cases "cond s")
    case True
    then show ?thesis using zero by (auto simp del: handle_n.simps)
  next
    case False
    show ?thesis
    proof (cases "handle_next c s")
      case (Done u)
      then have "work (inbox c u) \<le> n" using Suc.prems handle_next_work [of c s u] by simp
      moreover have "handle_n (Suc k) c s = handle_n k c u" for k using Done by simp
      ultimately show ?thesis using Suc.IH [of u] False Done by (simp del: handle_n.simps) metis
    qed (use zero False in \<open>fastforce simp del: handle_n.simps\<close>)+
  qed
qed



lemma dma_store_keeps [simp]:
  "cx_critical_error (p_ctxs (dma_store c bs s) c) = cx_critical_error (p_ctxs s c)"
  "ch_running (cx_chan (p_ctxs (dma_store c bs s) c)) = ch_running (cx_chan (p_ctxs s c))"
  by (simp_all add: dma_store_def set_resp_ring_def upd_chan_def split: option.splits)

lemma context_fatal_handled:
  assumes "inbox c s = Rd_Msg (C2H_Event ev) bs # rest" "ch_running (cx_chan (p_ctxs s c))"
    and "is_fatal ev" "\<not> is_card_fatal_event (unat (event_code ev))"
    and "\<not> is_card_fatal_drv_event (unat (event_code ev))" "cx_critical_error (p_ctxs s c) = None"
  shows "\<exists>t. handle_next c s = Done t \<and> cx_critical_error (p_ctxs t c) = Some ev"
  using assms
  by (simp add: handle_next_def inbox_def handle_event_def handle_fatal_def Let_def then_complete_def
      set_critical_def upd_chan_def [of _ "\<lambda>ch. ch\<lparr>ch_inbox := _ ch\<rparr>"] upd_chan_def)

lemma sample_dies:
  fixes ans dead
  defines "s \<equiv> sample_proc ans [Rd_Msg (C2H_SyncDone 3 1) [], Rd_Msg (C2H_Event dead) []]"
  obtains u where "handle_n 1 1 s = Done u" "inbox 1 u = [Rd_Msg (C2H_Event dead) []]"
    "ch_running (cx_chan (p_ctxs u 1))" "cx_critical_error (p_ctxs u 1) = None"
proof (rule that)
  let ?s1 = "upd_chan 1 (\<lambda>ch. ch\<lparr>ch_inbox := [Rd_Msg (C2H_Event dead) []]\<rparr>) s"
  let ?u = "upd_ctx 1 (\<lambda>x. x\<lparr>cx_last_completed := sync_set 1 (cx_last_completed x)\<rparr>) (dma_store 1 [] ?s1)"
  show "handle_n 1 1 s = Done ?u" unfolding s_def by (simp add: handle_next_def)
  have "inbox 1 ?s1 = [Rd_Msg (C2H_Event dead) []]" by (simp add: inbox_def upd_chan_def)
  then show "inbox 1 ?u = [Rd_Msg (C2H_Event dead) []]" by simp
  show "ch_running (cx_chan (p_ctxs ?u 1))" "cx_critical_error (p_ctxs ?u 1) = None"
    by (simp_all add: upd_chan_def s_def)
qed


end
