(* ===== verification/Dev_Objects.thy ===== *)
theory Dev_Objects
  imports Command_List
begin

text \<open>
  Creating, scheduling and destroying the objects of a context on the card: \<open>nnpiDevRes.cpp\<close>,
  \<open>nnpiCopyCommand.h/.cpp\<close>, \<open>nnpiDevNet.h/.cpp\<close> and \<open>nnpiInfReq.cpp\<close>. Local variables that the
  sources leave uninitialised are the arguments named \<open>junk\<close>; the driver's answer to
  \<open>mapHostResource\<close> is an argument. Assertions are not modelled.
\<close>

section \<open>Device resources\<close>

definition devres_create ::
    "addr \<Rightarrow> u64 \<Rightarrow> u32 \<Rightarrow> u64 \<Rightarrow> u32 \<Rightarrow> u64 \<times> u8 \<Rightarrow> proc \<Rightarrow> (NNPError \<times> addr option \<times> proc) outcome" where
  "devres_create c byteSize depth align usageFlags junk s =
     (if byteSize = 0 \<or> depth = 0 \<or> depth > 255 then Done (NNP_INVALID_ARGUMENT, None, s)
      else if align mod 4096 \<noteq> 0 \<or> drop_bit 28 align \<noteq> 0 then Done (NNP_NOT_SUPPORTED, None, s)
      else if has_flag usageFlags NNP_RESOURECE_USAGE_P2P_DST
              \<and> has_flag usageFlags NNP_RESOURECE_USAGE_P2P_SRC
      then Done (NNP_INVALID_ARGUMENT, None, s)
      else if has_flag usageFlags NNP_RESOURCE_USAGE_NETWORK
              \<and> has_flag usageFlags (or NNP_RESOURCE_USAGE_NN_INPUT NNP_RESOURCE_USAGE_NN_OUTPUT)
      then Done (NNP_INVALID_ARGUMENT, None, s)
      else if ctx_broken (p_ctxs s c) then Done (NNP_CONTEXT_BROKEN, None, s)
      else obind (createDevRes c byteSize depth align usageFlags s) (\<lambda>(e, i, p2p, s1).
        if e \<noteq> NNP_NO_ERROR then Done (e, None, s1)
        else case new_addr s1 of
               (a, s2) \<Rightarrow>
                 let (host_addr, buf) = (case p2p of Some hb \<Rightarrow> hb | None \<Rightarrow> junk)
                 in Done (NNP_NO_ERROR, Some a,
                      set_devres a (devres_new c i byteSize depth align usageFlags host_addr buf) s2)))"

definition devres_destroy :: "addr \<Rightarrow> proc \<Rightarrow> NNPError \<times> proc" where
  "devres_destroy a s = destroyDevRes (dr_ctx (o_devres s a)) (dr_id (o_devres s a)) s"

definition markDirty :: "addr \<Rightarrow> proc \<Rightarrow> NNPError \<times> proc" where
  "markDirty a s =
     (let d = o_devres s a
      in if \<not> has_flag (dr_flags d) NNP_RESOURECE_USAGE_P2P_DST then (NNP_INVALID_ARGUMENT, s)
         else markDevResDirty (dr_ctx d) (dr_id d) s)"

definition dev_num_of :: "addr \<Rightarrow> proc \<Rightarrow> u32" where
  "dev_num_of d s = dev_number (cx_device (p_ctxs s (dr_ctx (o_devres s d))))"

definition d2d_pair :: "addr \<Rightarrow> addr \<Rightarrow> 5 word \<times> u8 \<Rightarrow> proc \<Rightarrow> (NNPError \<times> proc) outcome" where
  "d2d_pair a peer junk s =
     (let d = o_devres s a; c = dr_ctx d
      in if peer \<noteq> null \<and> dr_peer d \<noteq> null then Done (NNP_DEVICE_BUSY, s)
         else
           let (peer_dev, peer_buf) = (if peer \<noteq> null
                 then (ucast (dev_num_of peer s), dr_buf_id (o_devres s peer)) else junk);
               (tr, s1) = getP2PtransactionID c s
           in case ctx_send c (H2C_ConnectPeers (chan_of c s1) tr (dr_buf_id d)
                     (has_flag (dr_flags d) NNP_RESOURECE_USAGE_P2P_SRC) peer_dev peer_buf
                     (peer = null)) s1 of
                (ok, s2) \<Rightarrow>
                  if \<not> ok then Done (NNP_IO_ERROR, s2)
                  else obind
                    (if peer \<noteq> null then
                       obind (wait_create_command c (obj_id_of INF_OBJ_TYPE_P2P tr) s2) (\<lambda>(ev, s3).
                         Done (if ctx_broken (p_ctxs s3 c) then NNP_CONTEXT_BROKEN
                               else event_valToNNPError (unat (event_val ev)), s3))
                     else Done (NNP_NO_ERROR, s2))
                    (\<lambda>(e, s3). Done (e, if e = NNP_NO_ERROR
                        then set_devres a (o_devres s3 a\<lparr>dr_peer := peer\<rparr>) s3 else s3)))"

section \<open>Copy commands\<close>

definition copy_create ::
    "addr \<Rightarrow> addr \<Rightarrow> addr \<Rightarrow> bool \<Rightarrow> u8 \<times> u16 \<Rightarrow> nat \<Rightarrow> proc \<Rightarrow> (NNPError \<times> addr option \<times> proc) outcome" where
  "copy_create c dev host is_c2h map_result errno s =
     (let d = o_devres s dev; h = o_hostres s host;
          dir = (if is_c2h then NNP_RESOURCE_USAGE_NN_OUTPUT else NNP_RESOURCE_USAGE_NN_INPUT)
      in if dr_size d \<noteq> m_byte_size h \<or> has_flag (dr_flags d) NNP_RESOURCE_USAGE_NETWORK
            \<or> \<not> has_flag (dr_flags d) dir \<or> \<not> has_flag (m_usage_flags h) dir
         then Done (NNP_INCOMPATIBLE_RESOURCES, None, s)
         else if fst map_result \<noteq> 0 then Done (errnoToNNPError errno (fst map_result), None, s)
         else obind (createCopy c (dr_id d) (snd map_result) is_c2h False s) (\<lambda>(e, i, s1).
           if e \<noteq> NNP_NO_ERROR then Done (e, None, s1)
           else case new_addr s1 of
                  (a, s2) \<Rightarrow>
                    let s3 = set_copy a (copy_new c i dev host (m_usage_flags h) (snd map_result) is_c2h) s2;
                        s4 = upd_db c (insertCopy i a) s3
                    in Done (NNP_NO_ERROR, Some a,
                         snd (send_user_handle c INF_OBJ_TYPE_COPY (snd map_result) 1
                                (m_user_hdl (o_hostres s4 host)) s4))))"

definition copy_create_subres :: "addr \<Rightarrow> proc \<Rightarrow> (NNPError \<times> addr option \<times> proc) outcome" where
  "copy_create_subres dev s =
     (let d = o_devres s dev; c = dr_ctx d
      in obind (createCopy c (dr_id d) 0 False True s) (\<lambda>(e, i, s1).
           if e \<noteq> NNP_NO_ERROR then Done (e, None, s1)
           else case new_addr s1 of
                  (a, s2) \<Rightarrow> Done (NNP_NO_ERROR, Some a,
                    upd_db c (insertCopy i a) (set_copy a (copy_new_subres c i dev) s2))))"

text \<open>
  \<open>update_peers\<close>: four requests, two to the context of each resource, then the pairing. A
  request on context \<open>c\<close> ends with the first error.
\<close>

definition p2p_request :: "addr \<Rightarrow> (u16 \<Rightarrow> h2c_msg) \<Rightarrow> proc \<Rightarrow> (NNPError \<times> u16 \<times> proc) outcome" where
  "p2p_request c msg s =
     (case getP2PtransactionID c s of
        (tr, s1) \<Rightarrow>
          obind (send_create_command c (msg tr) (obj_id_of INF_OBJ_TYPE_P2P tr) s1) (\<lambda>(r, s2).
            case r of
              None \<Rightarrow> Done (NNP_IO_ERROR, 0, s2)
            | Some ev \<Rightarrow>
                Done (if ctx_broken (p_ctxs s2 c) then NNP_CONTEXT_BROKEN
                      else event_valToNNPError (unat (event_val ev)), obj_id_2 ev, s2)))"

definition cr_fifo_addr :: "addr \<Rightarrow> u16 \<Rightarrow> proc \<Rightarrow> u64" where
  "cr_fifo_addr c i s = dev_bar2 (cx_device (p_ctxs s c)) + push_bit 12 (ucast i)"

definition db_addr :: "addr \<Rightarrow> proc \<Rightarrow> 57 word" where
  "db_addr c s = ucast (dev_bar0 (cx_device (p_ctxs s c)) + 0x37)"

definition unless_error :: "(NNPError \<times> 'b \<times> proc) outcome \<Rightarrow> ('b \<Rightarrow> proc \<Rightarrow> (NNPError \<times> proc) outcome) \<Rightarrow>
    (NNPError \<times> proc) outcome" where
  "unless_error r f = obind r (\<lambda>(e, x, s). if e \<noteq> NNP_NO_ERROR then Done (e, s) else f x s)"

definition update_peers :: "addr \<Rightarrow> addr \<Rightarrow> 5 word \<times> u8 \<Rightarrow> proc \<Rightarrow> (NNPError \<times> proc) outcome" where
  "update_peers dst src junk s =
     (let sc = dr_ctx (o_devres s src); dc = dr_ctx (o_devres s dst);
          sdev = ucast (dev_num_of src s); ddev = ucast (dev_num_of dst s)
      in unless_error (p2p_request sc (\<lambda>tr. H2C_GetCrFIFO (chan_of sc s) tr ddev False) s) (\<lambda>rel s1.
         unless_error (p2p_request dc (\<lambda>tr. H2C_GetCrFIFO (chan_of dc s1) tr sdev True) s1) (\<lambda>fw s2.
         unless_error (p2p_request sc (\<lambda>tr. H2C_UpdatePeerDev (chan_of sc s2) tr ddev False
                         (db_addr dc s2) (ucast (drop_bit 12 (cr_fifo_addr dc fw s2)))) s2) (\<lambda>_ s3.
         unless_error (p2p_request dc (\<lambda>tr. H2C_UpdatePeerDev (chan_of dc s3) tr sdev True
                         (db_addr sc s3) (ucast (drop_bit 12 (cr_fifo_addr sc rel s3)))) s3) (\<lambda>_ s4.
           obind (d2d_pair src dst junk s4) (\<lambda>(e, s5).
             if e \<noteq> NNP_NO_ERROR then Done (e, s5)
             else obind (d2d_pair dst src junk s5) (\<lambda>(e1, s6).
                    if e1 \<noteq> NNP_NO_ERROR
                    then obind (d2d_pair src null junk s6) (\<lambda>(_, s7). Done (e1, s7))
                    else Done (NNP_NO_ERROR, s6))))))))"

definition unpair_d2d_devreses :: "addr \<Rightarrow> 5 word \<times> u8 \<Rightarrow> proc \<Rightarrow> proc outcome" where
  "unpair_d2d_devreses a junk s =
     (let cp = o_copies s a
      in if \<not> cp_is_d2d cp then Done s
         else obind (d2d_pair (cp_src_devres cp) null junk s) (\<lambda>(_, s1).
                obind (d2d_pair (cp_devres cp) null junk s1) (\<lambda>(_, s2). Done s2)))"

text \<open>The result of \<open>update_peers\<close> is only logged.\<close>

definition create_d2d ::
    "addr \<Rightarrow> addr \<Rightarrow> addr \<Rightarrow> 5 word \<times> u8 \<Rightarrow> proc \<Rightarrow> (NNPError \<times> addr option \<times> proc) outcome" where
  "create_d2d c dst src junk s =
     (let dd = o_devres s dst; sd = o_devres s src
      in if dr_size sd \<noteq> dr_size dd
            \<or> \<not> has_flag (dr_flags dd) NNP_RESOURECE_USAGE_P2P_DST
            \<or> \<not> has_flag (dr_flags sd) NNP_RESOURECE_USAGE_P2P_SRC
            \<or> dev_num_of src s \<noteq> dev_number (cx_device (p_ctxs s c))
            \<or> dev_num_of src s = dev_num_of dst s
         then Done (NNP_INCOMPATIBLE_RESOURCES, None, s)
         else obind (update_peers dst src junk s) (\<lambda>(_, s1).
           obind (createDeviceToDeviceCopy c (dr_id sd) (dr_host_addr dd) (dr_id dd)
                    (ch_id (cx_chan (p_ctxs s1 (dr_ctx dd)))) (dev_num_of dst s1) s1) (\<lambda>(e, i, s2).
             if e \<noteq> NNP_NO_ERROR then Done (e, None, s2)
             else case new_addr s2 of
                    (a, s3) \<Rightarrow> Done (NNP_NO_ERROR, Some a,
                      upd_db c (insertCopy i a) (set_copy a (copy_new_d2d c i dst src) s3)))))"

definition copy_destroy :: "addr \<Rightarrow> proc \<Rightarrow> NNPError \<times> proc" where
  "copy_destroy a s = destroyCopy (cp_ctx (o_copies s a)) (cp_id (o_copies s a)) s"

text \<open>Scheduling a whole copy, and a part of a resource through a given host resource.\<close>

definition copy_schedule :: "addr \<Rightarrow> u64 \<Rightarrow> u8 \<Rightarrow> proc \<Rightarrow> (NNPError \<times> proc) outcome" where
  "copy_schedule a sz0 priority s =
     (let c = cp_ctx (o_copies s a)
      in obind (wait_can_schedule c s) (\<lambda>(can, s1).
           if \<not> can then Done (NNP_CONTEXT_BROKEN, s1)
           else
             let cp = o_copies s1 a; sz = (if sz0 = 0 then max_size a s1 else sz0);
                 peer_size = (if cp_is_d2d cp then dr_size (o_devres s1 (cp_src_devres cp))
                              else m_byte_size (o_hostres s1 (cp_hostres cp)))
             in if sz > peer_size \<or> sz > dr_size (o_devres s1 (cp_devres cp))
                then Done (NNP_INVALID_ARGUMENT, s1)
                else if \<not> cp_is_d2d cp \<and> broken (o_hostres s1 (cp_hostres cp))
                then Done (NNP_HOSTRES_BROKEN, s1)
                else obind (pre_schedule a s1) (\<lambda>(r, s2).
                  if \<not> r then Done (NNP_DEVICE_BUSY, s2)
                  else case scheduleCopy c (cp_id cp) sz priority s2 of
                         (e, s3) \<Rightarrow>
                           if \<not> cp_is_d2d cp \<and> e \<noteq> NNP_NO_ERROR
                           then obind (post_schedule None a s3) (\<lambda>(_, s4). Done (e, s4))
                           else Done (e, s3))))"

definition copy_schedule_subres ::
    "addr \<Rightarrow> addr \<Rightarrow> u16 \<Rightarrow> u64 \<Rightarrow> u64 \<Rightarrow> proc \<Rightarrow> (NNPError \<times> proc) outcome" where
  "copy_schedule_subres a hr map_id devres_offset sz s =
     (let c = cp_ctx (o_copies s a)
      in if \<not> cp_is_subres (o_copies s a) then Done (NNP_INVALID_ARGUMENT, s)
         else obind (wait_can_schedule c s) (\<lambda>(can, s1).
           if \<not> can then Done (NNP_CONTEXT_BROKEN, s1)
           else if hr = null \<or> sz > m_byte_size (o_hostres s1 hr)
                   \<or> devres_offset + sz > dr_size (o_devres s1 (cp_devres (o_copies s1 a)))
           then Done (NNP_INVALID_ARGUMENT, s1)
           else obind (pre_schedule_on hr a s1) (\<lambda>(r, s2).
             if \<not> r then Done (NNP_DEVICE_BUSY, s2)
             else
               let cp = o_copies s2 a;
                   s3 = set_copy a (cp\<lparr>cp_hostres := hr, cp_hostres_map_id := map_id\<rparr>) s2
               in case scheduleCopySubres c (cp_id cp) map_id devres_offset sz s3 of
                    (e, s4) \<Rightarrow>
                      if e \<noteq> NNP_NO_ERROR
                      then obind (post_schedule None a s4) (\<lambda>(_, s5). Done (e, s5))
                      else Done (e, s4))))"

end
