(* ===== verification/Fail_Stop.thy ===== *)
theory Fail_Stop
  imports Waiting Dev_Objects
begin

text \<open>
  A broken context refuses work: after a critical error every operation that creates or schedules
  something returns at once, with an error, and no command goes to the card.
\<close>

definition refuses :: "addr \<Rightarrow> proc \<Rightarrow> ('r \<Rightarrow> NNPError) \<Rightarrow> ('r \<Rightarrow> proc) \<Rightarrow> 'r outcome \<Rightarrow> bool" where
  "refuses c s err st r \<longleftrightarrow>
     (\<exists>x. r = Done x \<and> err x \<noteq> NNP_NO_ERROR \<and> commands (p_ctxs (st x) c) = commands (p_ctxs s c))"

lemma refuses_Done [simp]:
  "refuses c s err st (Done x) \<longleftrightarrow> err x \<noteq> NNP_NO_ERROR \<and> commands (p_ctxs (st x) c) = commands (p_ctxs s c)"
  by (simp add: refuses_def)

lemma commands_simps [simp]:
  "commands (x\<lparr>cx_devnet_ida := i\<rparr>) = commands x" "commands (x\<lparr>cx_finalize_in_progress := n\<rparr>) = commands x"
  by (simp_all add: commands_def)

lemma no_schedule: "ctx_broken (p_ctxs s c) \<Longrightarrow> wait_can_schedule c s = Done (False, s)"
  by (simp add: wait_can_schedule_def wait_for_now)

text \<open>The refusals, each in the state in which it happens.\<close>

lemma refuse_devres:
  "ctx_broken (p_ctxs s c) \<Longrightarrow> refuses c s fst (snd \<circ> snd) (devres_create c sz depth align flags junk s)"
  by (simp add: devres_create_def)

lemma refuse_pages:
  "ctx_broken (p_ctxs s c) \<Longrightarrow> \<exists>e. send_create_or_add c pid cr ids conf s = Done (e, s) \<and> e \<noteq> NNP_NO_ERROR"
  by (simp add: send_create_or_add_def Let_def)

lemma refuse_devnet:
  assumes "ctx_broken (p_ctxs s c)"
  shows "refuses c s fst (snd \<circ> snd) (devnet_create c ds conf s)"
proof -
  obtain e pid s1 where a: "allocDevNetID c s = (e, pid, s1)" by (metis prod_cases3)
  then have k: "ctx_broken (p_ctxs s1 c)" "commands (p_ctxs s1 c) = commands (p_ctxs s c)"
    using assms by (auto simp: allocDevNetID_def ctx_broken_def split: option.splits prod.splits)
  obtain e1 where "send_create_or_add c pid True (dr_ids ds s1) conf s1 = Done (e1, s1)" "e1 \<noteq> NNP_NO_ERROR"
    using refuse_pages [OF k(1)] by blast
  then show ?thesis using a k(2) by (simp add: devnet_create_def)
qed

lemma refuse_resources:
  assumes "ctx_broken (p_ctxs s c)" "dn_ctx (o_devnets s a) = c"
  shows "refuses c s fst snd (add_resources a ds conf s)"
proof -
  obtain e1 where "send_create_or_add c (dn_id (o_devnets s a)) False (dr_ids ds s) conf s = Done (e1, s)" "e1 \<noteq> NNP_NO_ERROR"
    using refuse_pages [OF assms(1)] by blast
  then show ?thesis using assms(2) by (simp add: add_resources_def Let_def)
qed

lemma refuse_infreq:
  "ctx_broken (p_ctxs s c) \<Longrightarrow> dn_ctx (o_devnets s a) = c \<Longrightarrow>
     refuses c s fst (snd \<circ> snd) (infreq_create a ins outs conf sz s)"
  by (auto simp: infreq_create_def Let_def)

lemma refuse_copy:
  assumes "ctx_broken (p_ctxs s c)" "cp_ctx (o_copies s a) = c"
  shows "refuses c s fst snd (copy_schedule a sz pr s)" "refuses c s fst snd (copy_schedule_subres a hr mid off sz s)"
  using assms by (simp_all add: copy_schedule_def copy_schedule_subres_def no_schedule Let_def)

lemma refuse_request:
  "ctx_broken (p_ctxs s c) \<Longrightarrow> dn_ctx (o_devnets s (rq_devnet (o_infreqs s a))) = c \<Longrightarrow>
     refuses c s fst snd (infreq_schedule a sp s)"
  by (simp add: infreq_schedule_def no_schedule Let_def)

lemma set_locked_simps [simp]:
  "p_ctxs (set_locked b a s) = p_ctxs s" "lst_ctx (p_cmdlists (set_locked b a s) d) = lst_ctx (p_cmdlists s d)"
  by (simp_all add: set_locked_def upd_list_def)

lemma refuse_list:
  assumes "ctx_broken (p_ctxs s c)" "lst_ctx (p_cmdlists s a) = c"
  shows "refuses c s fst snd (finalize env batch a s)" "refuses c s fst snd (schedule_list a s)"
proof -
  have send: "\<exists>e. send_to_card b env a t = Done (e, t) \<and> e \<noteq> NNP_NO_ERROR"
    if "ctx_broken (p_ctxs t c)" "lst_ctx (p_cmdlists t a) = c" for b t
    using that by (simp add: send_to_card_def Let_def)
  define u where "u = (if batch then optimize_batch_copies a (set_locked True a s) else set_locked True a s)"
  have u: "p_ctxs u = p_ctxs s" "lst_ctx (p_cmdlists u a) = c"
    using assms(2) by (simp_all add: u_def optimize_batch_copies_def upd_list_def)
  define t where "t = cmdlist_finalized_add c 1 u"
  have t: "ctx_broken (p_ctxs t c)" "lst_ctx (p_cmdlists t a) = c" "commands (p_ctxs t c) = commands (p_ctxs s c)"
    using assms(1) u by (simp_all add: t_def cmdlist_finalized_add_def ctx_broken_def)
  obtain e where e: "send_to_card False env a t = Done (e, t)" "e \<noteq> NNP_NO_ERROR" using send [OF t(1,2)] by blast
  have "finalize env batch a s = Done (e, set_locked False a (cmdlist_finalized_add c (-1) t))"
    using e assms(2) by (simp add: finalize_def with_list_lock_def Let_def u_def [symmetric] t_def [symmetric])
  then show "refuses c s fst snd (finalize env batch a s)"
    using e(2) t(3) by (simp add: cmdlist_finalized_add_def)
  show "refuses c s fst snd (schedule_list a s)"
    using assms by (simp add: schedule_list_def with_list_lock_def Let_def no_schedule)
qed

text \<open>A copy is created by sending first; the answer is then the critical error.\<close>

lemma fatal_no_success: "is_fatal ev \<Longrightarrow> event_code ev \<noteq> NNP_IPC_CREATE_COPY_SUCCESS \<and> event_code ev \<noteq> NNP_IPC_CREATE_COPY_FAILED"
  by (auto simp: is_fatal_def is_card_fatal_event_def is_context_fatal_event_def)

lemma refuse_create_copy:
  assumes "cx_critical_error (p_ctxs s c) = Some ev" "is_fatal ev"
  shows "\<exists>e i s'. createCopy c d m up sub s = Done (e, i, s') \<and> e \<noteq> NNP_NO_ERROR"
proof (cases "ida_alloc (cx_copy_ida (p_ctxs s c))")
  case (Pair r ida)
  show ?thesis
  proof (cases r)
    case None
    then show ?thesis using Pair by (simp add: createCopy_def create_copy_op_def)
  next
    case (Some i)
    let ?k = "\<lparr>key_type = INF_OBJ_TYPE_COPY, key_id = sint i, key_id2 = -1\<rparr>"
    let ?m = "H2C_CopyOp (chan_of c s) d (ucast i) False up False (ucast m) sub 0 0 0"
    let ?s1 = "upd_ctx c (\<lambda>x. x\<lparr>cx_copy_ida := ida\<rparr>) s"
    obtain ok s2 where snd: "ctx_send c ?m ?s1 = (ok, s2)" by fastforce
    then have crit: "cx_critical_error (p_ctxs s2 c) = Some ev"
      using assms(1) by (auto simp: ctx_send_def upd_chan_def split: prod.splits)
    then have "wait_create_command c ?k s2 = Done (ev, s2)"
      by (simp add: wait_create_command_def wait_for_now reply_ready_def ctx_broken_def Let_def)
    then show ?thesis
      using Pair Some snd fatal_no_success [OF assms(2)]
      by (cases ok) (simp_all add: createCopy_def create_copy_op_def send_create_command_def Let_def reply_result_def)
  qed
qed

lemma handle_n_quiet: "handle_n k c s = Done t \<Longrightarrow> quiet c s t"
proof (induction k arbitrary: s)
  case (Suc k)
  then obtain u where u: "handle_next c s = Done u" "handle_n k c u = Done t" by (auto elim: obind_DoneE)
  then have "quiet c s u" using handle_next_quiet [of c s] by (simp add: stays_quiet_def)
  then show ?case using quiet_trans Suc.IH [OF u(2)] by blast
qed simp

lemma refuses_from: "refuses c t err st r \<Longrightarrow> quiet c s t \<Longrightarrow> refuses c s err st r"
  by (auto simp: refuses_def quiet_def ctx_quiet_def)

text \<open>C8: a broken context refuses work. Once a critical error is set, whatever the response thread does
  afterwards, creating and scheduling anything on the context, and finalizing or scheduling a command list,
  return without waiting, with an error and without a command to the card. Creating a copy, which does
  not ask first, sends its command but returns with an error as well.\<close>

theorem broken_refuses:
  assumes "handle_n k c s = Done t" "ctx_broken (p_ctxs s c)"
  shows "refuses c s fst (snd \<circ> snd) (devres_create c sz depth align flags junk t)
    \<and> refuses c s fst (snd \<circ> snd) (devnet_create c ds conf t)
    \<and> (dn_ctx (o_devnets t a) = c \<longrightarrow> refuses c s fst snd (add_resources a ds conf t)
         \<and> refuses c s fst (snd \<circ> snd) (infreq_create a ins outs cdata csz t))
    \<and> (cp_ctx (o_copies t a) = c \<longrightarrow> refuses c s fst snd (copy_schedule a sz pr t)
         \<and> refuses c s fst snd (copy_schedule_subres a hr mid off sz t))
    \<and> (dn_ctx (o_devnets t (rq_devnet (o_infreqs t a))) = c \<longrightarrow> refuses c s fst snd (infreq_schedule a sp t))
    \<and> (lst_ctx (p_cmdlists t a) = c \<longrightarrow> refuses c s fst snd (finalize env batch a t)
         \<and> refuses c s fst snd (schedule_list a t))
    \<and> (\<forall>ev. cx_critical_error (p_ctxs t c) = Some ev \<and> is_fatal ev \<longrightarrow>
         (\<exists>e i t'. createCopy c d m up sub t = Done (e, i, t') \<and> e \<noteq> NNP_NO_ERROR))"
proof -
  have q: "quiet c s t" by (rule handle_n_quiet [OF assms(1)])
  then have b: "ctx_broken (p_ctxs t c)" using assms(2) by (simp add: quiet_def ctx_quiet_def)
  show ?thesis
    using refuses_from [OF refuse_devres [OF b] q] refuses_from [OF refuse_devnet [OF b] q]
      refuses_from [OF refuse_resources [OF b] q] refuses_from [OF refuse_infreq [OF b] q]
      refuses_from [OF refuse_copy(1) [OF b] q] refuses_from [OF refuse_copy(2) [OF b] q]
      refuses_from [OF refuse_request [OF b] q] refuses_from [OF refuse_list(1) [OF b] q]
      refuses_from [OF refuse_list(2) [OF b] q] refuse_create_copy [of t c]
    by simp
qed

text \<open>A context at address 1 whose runtime has died.\<close>

definition dead_proc :: proc where
  "dead_proc = upd_ctx 1 (\<lambda>x. x\<lparr>cx_critical_error := Some (zero_report\<lparr>event_code := NNP_IPC_ERROR_RUNTIME_DIED\<rparr>)\<rparr>)
     (sample_proc (\<lambda>_. 16) [])"

theorem broken_refuses_witness:
  "refuses 1 dead_proc fst (snd \<circ> snd) (devres_create 1 64 1 0 1 (0, 0) dead_proc)
   \<and> refuses 1 dead_proc fst snd (schedule_list 7 dead_proc)"
proof -
  have "handle_n 0 1 dead_proc = Done dead_proc" "ctx_broken (p_ctxs dead_proc 1)" "lst_ctx (p_cmdlists dead_proc 7) = 1"
    by (simp_all add: dead_proc_def ctx_broken_def sample_proc_def cmdlist_new_def)
  then show ?thesis
    using broken_refuses [of 0 1 dead_proc dead_proc 64 1 0 1 "(0, 0)" _ _ 7] by simp
qed

end
