(* ===== verification/Api.thy ===== *)
theory Api
  imports Dev_Objects Networks Channel
begin

text \<open>
  The C functions of \<open>nnpdrvInference.h\<close> (\<open>nnpiInference.cpp\<close>): handles are looked up in the
  tables, the operation of the object runs, and a created object gets its handle. The tables
  are part of the state with the process. Pointers to outputs are not null unless an argument
  \<open>out_null\<close> says so; what the driver answers is an argument, as in the components.
\<close>

section \<open>State\<close>

record api =
  a_proc :: proc
  a_contexts :: handle_map
  a_hostres :: handle_map
  a_devres :: handle_map
  a_copy :: handle_map
  a_networks :: handle_map
  a_infreqs :: handle_map
  a_cmdlists :: handle_map
  a_active :: active_contexts
  a_atexit_installed :: bool

definition on_proc :: "(NNPError \<times> proc) outcome \<Rightarrow> api \<Rightarrow> (NNPError \<times> api) outcome" where
  "on_proc r st = obind r (\<lambda>(e, s). Done (e, st\<lparr>a_proc := s\<rparr>))"

text \<open>An operation on the object of a handle, \<open>err\<close> if there is none.\<close>

definition on_obj ::
    "addr \<Rightarrow> NNPError \<Rightarrow> (addr \<Rightarrow> proc \<Rightarrow> (NNPError \<times> proc) outcome) \<Rightarrow> api \<Rightarrow>
     (NNPError \<times> api) outcome" where
  "on_obj a err f st = (if a = null then Done (err, st) else on_proc (f a (a_proc st)) st)"

text \<open>A destroy operation removes the handle when it succeeds.\<close>

definition destroy_obj ::
    "addr \<Rightarrow> NNPError \<Rightarrow> (addr \<Rightarrow> proc \<Rightarrow> (NNPError \<times> proc) outcome) \<Rightarrow> (api \<Rightarrow> api) \<Rightarrow> api \<Rightarrow>
     (NNPError \<times> api) outcome" where
  "destroy_obj a err f remove st =
     obind (on_obj a err f st) (\<lambda>(e, st1).
       Done (e, if a \<noteq> null \<and> e = NNP_NO_ERROR then remove st1 else st1))"

text \<open>A new object gets a handle, which it stores and reports to the card's tracing.\<close>

definition publish ::
    "(handle_map \<Rightarrow> api \<Rightarrow> api) \<Rightarrow> handle_map \<Rightarrow> (u64 \<Rightarrow> proc \<Rightarrow> proc) \<Rightarrow>
     (NNPError \<times> addr option \<times> proc) outcome \<Rightarrow> api \<Rightarrow> (NNPError \<times> u64 option \<times> api) outcome" where
  "publish put m store r st =
     obind r (\<lambda>(e, a, s).
       case a of
         None \<Rightarrow> Done (e, None, st\<lparr>a_proc := s\<rparr>)
       | Some a \<Rightarrow>
           (case makeHandle a m of
              None \<Rightarrow> Loops
            | Some (h, m') \<Rightarrow> Done (NNP_NO_ERROR, Some h, put m' (st\<lparr>a_proc := store h s\<rparr>))))"

section \<open>Contexts\<close>

text \<open>
  \<open>chan_err\<close> is the result of creating the channel; the new context \<open>x\<close> has the channel, and
  \<open>ring_errs\<close> are the results of creating its ring buffers.
\<close>

definition context_new :: "nat \<Rightarrow> nat \<Rightarrow> inf_context \<Rightarrow> nat list \<Rightarrow> u8 \<Rightarrow> proc \<Rightarrow>
    (NNPError \<times> addr option \<times> proc) outcome" where
  "context_new errno chan_err x ring_errs flags s =
     (if chan_err \<noteq> 0 then Done (errnoToNNPError errno (of_nat chan_err), None, s)
      else case new_addr s of
             (c, s1) \<Rightarrow>
               obind (context_create c ring_errs flags (upd_ctx c (\<lambda>_. x) s1)) (\<lambda>(e, s2).
                 Done (e, if e = NNP_NO_ERROR then Some c else None, s2)))"

definition nnpdrvCreateInferContextWithFlags ::
    "bool \<Rightarrow> nat \<Rightarrow> nat \<Rightarrow> inf_context \<Rightarrow> nat list \<Rightarrow> u8 \<Rightarrow> api \<Rightarrow>
     (NNPError \<times> u64 option \<times> api) outcome" where
  "nnpdrvCreateInferContextWithFlags out_null errno chan_err x ring_errs flags st =
     (if out_null then Done (NNP_INVALID_ARGUMENT, None, st)
      else
        let c = o_next (a_proc st)
        in obind (publish (\<lambda>m st. st\<lparr>a_contexts := m\<rparr>) (a_contexts st)
                    (\<lambda>h s. snd (send_user_handle c INF_OBJ_TYPE_CONTEXT 0 0 h
                                  (upd_ctx c (\<lambda>x. x\<lparr>cx_user_hdl := h\<rparr>) s)))
                    (context_new errno chan_err x ring_errs flags (a_proc st))
                    (st\<lparr>a_active := (if chan_err = 0 then active_add c (a_active st) else a_active st)\<rparr>))
             (\<lambda>(e, h, st1). Done (e, h, if e = NNP_NO_ERROR then st1\<lparr>a_atexit_installed := True\<rparr> else st1)))"

definition nnpdrvCreateInferContext ::
    "bool \<Rightarrow> nat \<Rightarrow> nat \<Rightarrow> inf_context \<Rightarrow> nat list \<Rightarrow> api \<Rightarrow> (NNPError \<times> u64 option \<times> api) outcome" where
  "nnpdrvCreateInferContext out_null errno chan_err x ring_errs st =
     nnpdrvCreateInferContextWithFlags out_null errno chan_err x ring_errs 0 st"

definition nnpdrvDestroyInferContext :: "u64 \<Rightarrow> api \<Rightarrow> (NNPError \<times> api) outcome" where
  "nnpdrvDestroyInferContext ctx st =
     destroy_obj (find_hdl ctx (a_contexts st)) NNP_NO_SUCH_CONTEXT context_destroy
       (\<lambda>st. st\<lparr>a_contexts := snd (remove_hdl ctx (a_contexts st))\<rparr>) st"

definition nnpdrvRecoverInferContext :: "u64 \<Rightarrow> api \<Rightarrow> (NNPError \<times> api) outcome" where
  "nnpdrvRecoverInferContext ctx st =
     on_obj (find_hdl ctx (a_contexts st)) NNP_NO_SUCH_CONTEXT recover st"

text \<open>Device number and context id.\<close>

definition nnpdrvQueryInferContextInfo :: "bool \<Rightarrow> u64 \<Rightarrow> api \<Rightarrow> NNPError \<times> (u32 \<times> u16) option" where
  "nnpdrvQueryInferContextInfo out_null ctx st =
     (let c = find_hdl ctx (a_contexts st); x = p_ctxs (a_proc st) c
      in if c = null then (NNP_NO_SUCH_CONTEXT, None)
         else if out_null then (NNP_INVALID_ARGUMENT, None)
         else (NNP_NO_ERROR, Some (dev_number (cx_device x), ch_id (cx_chan x))))"

definition nnpdrvInferContextTraceUserData :: "u64 \<Rightarrow> u8 list \<Rightarrow> u64 \<Rightarrow> api \<Rightarrow> (NNPError \<times> api) outcome" where
  "nnpdrvInferContextTraceUserData ctx key user_data st =
     (if key = [] then Done (NNP_INVALID_ARGUMENT, st)
      else on_obj (find_hdl ctx (a_contexts st)) NNP_NO_SUCH_CONTEXT
             (\<lambda>c s. Done (trace_user_data c key user_data s)) st)"

section \<open>Host resources\<close>

text \<open>\<open>rc\<close>, \<open>kmd\<close> and \<open>mapped\<close> are what \<open>nnpiHostRes::create\<close> or \<open>createFromBuf\<close> returns: an error, or the
  handle of the driver and, from \<open>create\<close>, the address of the mapping.\<close>

definition hostres_rc :: "nat \<Rightarrow> NNPError" where
  "hostres_rc rc =
     (if rc = ENODEV then NNP_NO_SUCH_DEVICE
      else if rc = ENOMEM then NNP_OUT_OF_MEMORY
      else if rc = EINVAL then NNP_INVALID_ARGUMENT
      else NNP_IO_ERROR)"

definition publish_hostres :: "u64 \<Rightarrow> u32 \<Rightarrow> nat \<Rightarrow> int \<Rightarrow> u64 \<Rightarrow> bool \<Rightarrow> api \<Rightarrow> (NNPError \<times> u64 option \<times> api) outcome" where
  "publish_hostres byteSize usageFlags rc kmd adr alloced st =
     (if rc \<noteq> 0 then Done (hostres_rc rc, None, st)
      else case new_addr (a_proc st) of
             (a, s) \<Rightarrow>
               publish (\<lambda>m st. st\<lparr>a_hostres := m\<rparr>) (a_hostres st)
                 (\<lambda>h s. set_hostres a ((o_hostres s a)\<lparr>m_user_hdl := h\<rparr>) s)
                 (Done (NNP_NO_ERROR, Some a, set_hostres a (hostres_new byteSize usageFlags kmd adr alloced) s)) st)"

definition nnpdrvCreateHostResource ::
    "bool \<Rightarrow> u64 \<Rightarrow> u32 \<Rightarrow> nat \<Rightarrow> int \<Rightarrow> u64 \<Rightarrow> api \<Rightarrow> (NNPError \<times> u64 option \<times> api) outcome" where
  "nnpdrvCreateHostResource out_null byteSize usageFlags rc kmd mapped st =
     (if out_null then Done (NNP_INVALID_ARGUMENT, None, st)
      else if has_flag usageFlags NNP_RESOURCE_USAGE_NETWORK then Done (NNP_NOT_SUPPORTED, None, st)
      else publish_hostres byteSize usageFlags rc kmd mapped True st)"

text \<open>There is no import of dma-bufs yet.\<close>

definition nnpdrvCreateDmaBufHostResource :: "int \<Rightarrow> u32 \<Rightarrow> api \<Rightarrow> NNPError \<times> u64 option \<times> api" where
  "nnpdrvCreateDmaBufHostResource dmaBuf usageFlags st = (NNP_NOT_SUPPORTED, None, st)"

definition nnpdrvCreateHostResourceFromBuf ::
    "u64 \<Rightarrow> bool \<Rightarrow> u64 \<Rightarrow> u32 \<Rightarrow> nat \<Rightarrow> int \<Rightarrow> api \<Rightarrow> (NNPError \<times> u64 option \<times> api) outcome" where
  "nnpdrvCreateHostResourceFromBuf buf out_null byteSize usageFlags rc kmd st =
     (if out_null \<or> buf = null then Done (NNP_INVALID_ARGUMENT, None, st)
      else if has_flag usageFlags NNP_RESOURCE_USAGE_NETWORK then Done (NNP_NOT_SUPPORTED, None, st)
      else publish_hostres byteSize usageFlags rc kmd buf False st)"

definition nnpdrvDestroyHostResource :: "u64 \<Rightarrow> api \<Rightarrow> NNPError \<times> api" where
  "nnpdrvDestroyHostResource hostRes st =
     (case remove_hdl hostRes (a_hostres st) of
        (r, m) \<Rightarrow> (if r then NNP_NO_ERROR else NNP_NO_SUCH_RESOURCE, st\<lparr>a_hostres := m\<rparr>))"

definition nnpdrvGetHostResourceCPUAddress :: "u64 \<Rightarrow> api \<Rightarrow> NNPError \<times> u64 option" where
  "nnpdrvGetHostResourceCPUAddress hostRes st =
     (let a = find_hdl hostRes (a_hostres st)
      in if a = null then (NNP_NO_SUCH_RESOURCE, None)
         else (NNP_NO_ERROR, Some (m_cpu_addr (o_hostres (a_proc st) a))))"

definition nnpdrvGetHostResourceDmaBufFD :: "u64 \<Rightarrow> api \<Rightarrow> NNPError \<times> int option" where
  "nnpdrvGetHostResourceDmaBufFD hostRes st =
     (let a = find_hdl hostRes (a_hostres st)
      in if a = null then (NNP_NO_SUCH_RESOURCE, None)
         else (NNP_NO_ERROR, Some (m_dmaBuf_fd (o_hostres (a_proc st) a))))"

definition lock_for_write :: "u32 \<Rightarrow> bool" where
  "lock_for_write flags \<longleftrightarrow>
     and flags (or NNP_RESOURCE_USAGE_NN_INPUT NNP_RESOURCE_USAGE_NN_OUTPUT)
       \<noteq> NNP_RESOURCE_USAGE_NN_OUTPUT"

definition nnpdrvLockHostResource ::
    "u64 \<Rightarrow> u32 \<Rightarrow> ioctl_result list \<Rightarrow> api \<Rightarrow> (NNPError \<times> api) outcome" where
  "nnpdrvLockHostResource hostRes timeoutUs rs st =
     on_obj (find_hdl hostRes (a_hostres st)) NNP_NO_SUCH_RESOURCE
       (\<lambda>a s. case lock_cpu_access timeoutUs (lock_for_write (m_usage_flags (o_hostres s a))) rs
                     (o_hostres s a) of
                None \<Rightarrow> Waits | Some (e, h) \<Rightarrow> Done (e, set_hostres a h s)) st"

definition nnpdrvUnlockHostResource :: "u64 \<Rightarrow> ioctl_result \<Rightarrow> api \<Rightarrow> (NNPError \<times> api) outcome" where
  "nnpdrvUnlockHostResource hostRes r st =
     on_obj (find_hdl hostRes (a_hostres st)) NNP_NO_SUCH_RESOURCE
       (\<lambda>a s. case unlock_cpu_access r (o_hostres s a) of (e, h) \<Rightarrow> Done (e, set_hostres a h s)) st"

section \<open>Device resources\<close>

definition nnpdrvCreateDeviceResourceFIFO ::
    "bool \<Rightarrow> u64 \<Rightarrow> u64 \<Rightarrow> u32 \<Rightarrow> u64 \<Rightarrow> u32 \<Rightarrow> u64 \<times> u8 \<Rightarrow> api \<Rightarrow>
     (NNPError \<times> u64 option \<times> api) outcome" where
  "nnpdrvCreateDeviceResourceFIFO out_null ctx elemByteSize depth align usageFlags junk st =
     (let c = find_hdl ctx (a_contexts st)
      in if out_null then Done (NNP_INVALID_ARGUMENT, None, st)
         else if has_flag usageFlags NNP_RESOURECE_USAGE_LOCKLESS
         then Done (NNP_INVALID_ARGUMENT, None, st)
         else if c = null then Done (NNP_NO_SUCH_CONTEXT, None, st)
         else obind (devres_create c elemByteSize depth align usageFlags junk (a_proc st)) (\<lambda>(e, a, s).
           publish (\<lambda>m st. st\<lparr>a_devres := m\<rparr>) (a_devres st)
             (\<lambda>h s. let s1 = set_devres (the a) ((o_devres s (the a))\<lparr>dr_user_hdl := h\<rparr>) s
                    in snd (send_user_handle (dr_ctx (o_devres s1 (the a))) INF_OBJ_TYPE_DEVRES
                              (dr_id (o_devres s1 (the a))) 0 h s1))
             (Done (e, a, s)) st))"

definition nnpdrvCreateDeviceResource ::
    "bool \<Rightarrow> u64 \<Rightarrow> u64 \<Rightarrow> u64 \<Rightarrow> u32 \<Rightarrow> u64 \<times> u8 \<Rightarrow> api \<Rightarrow> (NNPError \<times> u64 option \<times> api) outcome" where
  "nnpdrvCreateDeviceResource out_null ctx byteSize align usageFlags junk st =
     nnpdrvCreateDeviceResourceFIFO out_null ctx byteSize 1 align usageFlags junk st"

definition nnpdrvDestroyDeviceResource :: "u64 \<Rightarrow> api \<Rightarrow> (NNPError \<times> api) outcome" where
  "nnpdrvDestroyDeviceResource devRes st =
     destroy_obj (find_hdl devRes (a_devres st)) NNP_NO_SUCH_RESOURCE
       (\<lambda>a s. Done (devres_destroy a s))
       (\<lambda>st. st\<lparr>a_devres := snd (remove_hdl devRes (a_devres st))\<rparr>) st"

definition nnpdrvMarkDeviceResourceDirty :: "u64 \<Rightarrow> api \<Rightarrow> (NNPError \<times> api) outcome" where
  "nnpdrvMarkDeviceResourceDirty devRes st =
     on_obj (find_hdl devRes (a_devres st)) NNP_NO_SUCH_RESOURCE (\<lambda>a s. Done (markDirty a s)) st"

section \<open>Copies\<close>

text \<open>The handle of a copy, stored in it and reported.\<close>

definition publish_copy ::
    "(NNPError \<times> addr option \<times> proc) outcome \<Rightarrow> api \<Rightarrow> (NNPError \<times> u64 option \<times> api) outcome" where
  "publish_copy r st =
     obind r (\<lambda>(e, a, s).
       publish (\<lambda>m st. st\<lparr>a_copy := m\<rparr>) (a_copy st)
         (\<lambda>h s. let s1 = set_copy (the a) ((o_copies s (the a))\<lparr>cp_user_hdl := h\<rparr>) s
                in snd (send_user_handle (cp_ctx (o_copies s1 (the a))) INF_OBJ_TYPE_COPY
                          (cp_id (o_copies s1 (the a))) 0 h s1))
         (Done (e, a, s)) st)"

definition createCopyCommand ::
    "bool \<Rightarrow> u64 \<Rightarrow> u64 \<Rightarrow> u64 \<Rightarrow> bool \<Rightarrow> u8 \<times> u16 \<Rightarrow> nat \<Rightarrow> api \<Rightarrow>
     (NNPError \<times> u64 option \<times> api) outcome" where
  "createCopyCommand out_null ctx hostRes devRes is_c2h map_result errno st =
     (let c = find_hdl ctx (a_contexts st); hr = find_hdl hostRes (a_hostres st);
          dr = find_hdl devRes (a_devres st)
      in if out_null then Done (NNP_INVALID_ARGUMENT, None, st)
         else if c = null then Done (NNP_NO_SUCH_CONTEXT, None, st)
         else if hr = null then Done (NNP_NO_SUCH_RESOURCE, None, st)
         else if dr = null then Done (NNP_NO_SUCH_RESOURCE, None, st)
         else if dr_ctx (o_devres (a_proc st) dr) \<noteq> c then Done (NNP_NO_SUCH_RESOURCE, None, st)
         else publish_copy (copy_create c dr hr is_c2h map_result errno (a_proc st)) st)"

definition createDeviceToDeviceCopyCommand ::
    "bool \<Rightarrow> u64 \<Rightarrow> u64 \<Rightarrow> u64 \<Rightarrow> 5 word \<times> u8 \<Rightarrow> api \<Rightarrow> (NNPError \<times> u64 option \<times> api) outcome" where
  "createDeviceToDeviceCopyCommand out_null ctx dstDevRes srcDevRes junk st =
     (let c = find_hdl ctx (a_contexts st); src = find_hdl srcDevRes (a_devres st);
          dst = find_hdl dstDevRes (a_devres st)
      in if out_null then Done (NNP_INVALID_ARGUMENT, None, st)
         else if c = null then Done (NNP_NO_SUCH_CONTEXT, None, st)
         else if src = null \<or> dst = null then Done (NNP_NO_SUCH_RESOURCE, None, st)
         else publish_copy (create_d2d c dst src junk (a_proc st)) st)"

definition nnpdrvDestroyCopyHandle :: "u64 \<Rightarrow> api \<Rightarrow> (NNPError \<times> api) outcome" where
  "nnpdrvDestroyCopyHandle copyHandle st =
     destroy_obj (find_hdl copyHandle (a_copy st)) NNP_NO_SUCH_COPY_HANDLE
       (\<lambda>a s. Done (copy_destroy a s))
       (\<lambda>st. st\<lparr>a_copy := snd (remove_hdl copyHandle (a_copy st))\<rparr>) st"

definition nnpdrvScheduleCopy :: "u64 \<Rightarrow> u64 \<Rightarrow> u8 \<Rightarrow> api \<Rightarrow> (NNPError \<times> api) outcome" where
  "nnpdrvScheduleCopy copyHandle byteSize priority st =
     on_obj (find_hdl copyHandle (a_copy st)) NNP_NO_SUCH_COPY_HANDLE
       (\<lambda>a. copy_schedule a byteSize priority) st"

definition nnpdrvGetCopyContext :: "bool \<Rightarrow> u64 \<Rightarrow> api \<Rightarrow> NNPError \<times> u64 option" where
  "nnpdrvGetCopyContext out_null copyHandle st =
     (let a = find_hdl copyHandle (a_copy st); s = a_proc st
      in if out_null then (NNP_INVALID_ARGUMENT, None)
         else if a = null then (NNP_NO_SUCH_COPY_HANDLE, None)
         else (NNP_NO_ERROR, Some (cx_user_hdl (p_ctxs s (cp_ctx (o_copies s a))))))"

end
