(* ===== verification/Api_Networks.thy ===== *)
theory Api_Networks
  imports Api
begin

text \<open>
  C functions of \<open>nnpiInference.cpp\<close> on networks and infer requests, markers and
  critical errors. Arrays of handles are lists;
  \<open>n\<close> is the number of messages a wait with a timeout lasts.
\<close>

section \<open>Networks\<close>

fun get_devres_array :: "u64 list \<Rightarrow> api \<Rightarrow> NNPError \<times> addr list" where
  "get_devres_array [] st = (NNP_NO_ERROR, [])"
| "get_devres_array (h # hs) st =
     (let d = find_hdl h (a_devres st)
      in if d = null then (NNP_NO_SUCH_RESOURCE, [])
         else if \<not> has_flag (dr_flags (o_devres (a_proc st) d)) NNP_RESOURCE_USAGE_NETWORK
         then (NNP_INCOMPATIBLE_RESOURCES, [])
         else case get_devres_array hs st of (e, ds) \<Rightarrow> (e, d # ds))"

definition nnpdrvCreateDeviceNetworkWithResources ::
    "bool \<Rightarrow> u64 \<Rightarrow> u64 list \<Rightarrow> u8 list \<Rightarrow> api \<Rightarrow> (NNPError \<times> u64 option \<times> api) outcome" where
  "nnpdrvCreateDeviceNetworkWithResources out_null ctx devResArray netConfigData st =
     (let c = find_hdl ctx (a_contexts st)
      in if out_null then Done (NNP_INVALID_ARGUMENT, None, st)
         else if c = null then Done (NNP_NO_SUCH_CONTEXT, None, st)
         else case get_devres_array devResArray st of
                (e, ds) \<Rightarrow>
                  if e \<noteq> NNP_NO_ERROR then Done (e, None, st)
                  else obind (devnet_create c ds netConfigData (a_proc st)) (\<lambda>(e1, a, s).
                    publish (\<lambda>m st. st\<lparr>a_networks := m\<rparr>) (a_networks st)
                      (\<lambda>h s. let s1 = set_devnet (the a) ((o_devnets s (the a))\<lparr>dn_user_hdl := h\<rparr>) s
                             in snd (send_user_handle (dn_ctx (o_devnets s1 (the a)))
                                       INF_OBJ_TYPE_DEVNET (dn_id (o_devnets s1 (the a))) 0 h s1))
                      (Done (e1, a, s)) st))"

definition nnpdrvDeviceNetworkAddResources ::
    "u64 \<Rightarrow> u64 list \<Rightarrow> u8 list \<Rightarrow> api \<Rightarrow> (NNPError \<times> api) outcome" where
  "nnpdrvDeviceNetworkAddResources devNet devResArray configData st =
     on_obj (find_hdl devNet (a_networks st)) NNP_NO_SUCH_NETWORK
       (\<lambda>a s. case get_devres_array devResArray st of
                (e, ds) \<Rightarrow> if e \<noteq> NNP_NO_ERROR then Done (e, s) else add_resources a ds configData s) st"

definition nnpdrvRuntimeControl :: NNPError where
  "nnpdrvRuntimeControl = NNP_IO_ERROR"

definition nnpdrvUpdateDeviceNetwork :: NNPError where
  "nnpdrvUpdateDeviceNetwork = NNP_NO_ERROR"

definition nnpdrvDestroyDeviceNetwork :: "u64 \<Rightarrow> api \<Rightarrow> (NNPError \<times> api) outcome" where
  "nnpdrvDestroyDeviceNetwork devNet st =
     destroy_obj (find_hdl devNet (a_networks st)) NNP_NO_SUCH_NETWORK
       (\<lambda>a s. Done (devnet_destroy a s))
       (\<lambda>st. st\<lparr>a_networks := snd (remove_hdl devNet (a_networks st))\<rparr>) st"

text \<open>\<open>NNPNetPropertiesType\<close>.\<close>

abbreviation (input) NNP_SERIAL_INF_EXEC :: u32 where "NNP_SERIAL_INF_EXEC \<equiv> 0"
abbreviation (input) NNP_NETWORK_RESERVATION :: u32 where "NNP_NETWORK_RESERVATION \<equiv> 1"

definition nnpdrvDeviceSetNetworkProperty ::
    "u64 \<Rightarrow> u32 \<Rightarrow> u32 \<Rightarrow> u32 \<Rightarrow> api \<Rightarrow> (NNPError \<times> api) outcome" where
  "nnpdrvDeviceSetNetworkProperty devNet property property_val timeoutUs st =
     on_obj (find_hdl devNet (a_networks st)) NNP_NO_SUCH_NETWORK
       (\<lambda>a. setProperty a property property_val timeoutUs) st"

definition nnpdrvDeviceNetworkReserveExecResources ::
    "u64 \<Rightarrow> u32 \<Rightarrow> api \<Rightarrow> (NNPError \<times> api) outcome" where
  "nnpdrvDeviceNetworkReserveExecResources devNet timeoutUs st =
     on_obj (find_hdl devNet (a_networks st)) NNP_NO_SUCH_NETWORK
       (\<lambda>a. setProperty a NNP_NETWORK_RESERVATION 1 timeoutUs) st"

definition nnpdrvDeviceNetworkReleaseExecResources :: "u64 \<Rightarrow> api \<Rightarrow> (NNPError \<times> api) outcome" where
  "nnpdrvDeviceNetworkReleaseExecResources devNet st =
     on_obj (find_hdl devNet (a_networks st)) NNP_NO_SUCH_NETWORK
       (\<lambda>a. setProperty a NNP_NETWORK_RESERVATION 0 0) st"

section \<open>Infer requests\<close>

text \<open>A handle array as resources; \<open>None\<close> if one of the handles is not known.\<close>

definition lookup_devres :: "u64 list \<Rightarrow> api \<Rightarrow> addr list option" where
  "lookup_devres hs st =
     (let ds = map (\<lambda>h. find_hdl h (a_devres st)) hs in if null \<in> set ds then None else Some ds)"

text \<open>
  A null array is \<open>None\<close>; then its length has to be 0. \<open>configDataSize\<close> is an argument of its
  own, as in the code.
\<close>

definition nnpdrvCreateInferRequest ::
    "bool \<Rightarrow> u64 \<Rightarrow> u8 list option \<Rightarrow> u32 \<Rightarrow> u64 list \<Rightarrow> u64 list \<Rightarrow> api \<Rightarrow>
     (NNPError \<times> u64 option \<times> api) outcome" where
  "nnpdrvCreateInferRequest out_null devNet configData configDataSize ins outs st =
     (let net = find_hdl devNet (a_networks st)
      in if configDataSize > 0 \<and> configData = None \<or> out_null then Done (NNP_INVALID_ARGUMENT, None, st)
         else if net = null then Done (NNP_NO_SUCH_NETWORK, None, st)
         else case lookup_devres ins st of
                None \<Rightarrow> Done (NNP_NO_SUCH_RESOURCE, None, st)
              | Some ids \<Rightarrow>
                  (case lookup_devres outs st of
                     None \<Rightarrow> Done (NNP_NO_SUCH_RESOURCE, None, st)
                   | Some ods \<Rightarrow>
                       obind (infreq_create net ids ods configData configDataSize (a_proc st))
                         (\<lambda>(e, a, s).
                           publish (\<lambda>m st. st\<lparr>a_infreqs := m\<rparr>) (a_infreqs st)
                             (\<lambda>h s. let s1 = set_infreq (the a)
                                               ((o_infreqs s (the a))\<lparr>rq_user_hdl := h\<rparr>) s
                                    in snd (send_user_handle (dn_ctx (o_devnets s1 net))
                                          INF_OBJ_TYPE_INFREQ (dn_id (o_devnets s1 net))
                                          (rq_id (o_infreqs s1 (the a))) h s1))
                             (Done (e, a, s)) st)))"

text \<open>The result of the request's own destroy is not looked at.\<close>

definition nnpdrvDestroyInferRequest :: "u64 \<Rightarrow> api \<Rightarrow> (NNPError \<times> api) outcome" where
  "nnpdrvDestroyInferRequest inferReq st =
     destroy_obj (find_hdl inferReq (a_infreqs st)) NNP_NO_SUCH_INFREQ_HANDLE
       (\<lambda>a s. Done (NNP_NO_ERROR, snd (infreq_destroy a s)))
       (\<lambda>st. st\<lparr>a_infreqs := snd (remove_hdl inferReq (a_infreqs st))\<rparr>) st"

definition nnpdrvScheduleInferReq ::
    "u64 \<Rightarrow> inf_sched_params option \<Rightarrow> api \<Rightarrow> (NNPError \<times> api) outcome" where
  "nnpdrvScheduleInferReq infReq schedParams st =
     on_obj (find_hdl infReq (a_infreqs st)) NNP_NO_SUCH_INFREQ_HANDLE
       (\<lambda>a. infreq_schedule a schedParams) st"

definition nnpdrvGetInferReqContext :: "bool \<Rightarrow> u64 \<Rightarrow> api \<Rightarrow> NNPError \<times> u64 option" where
  "nnpdrvGetInferReqContext out_null infReq st =
     (let a = find_hdl infReq (a_infreqs st); s = a_proc st
      in if out_null then (NNP_INVALID_ARGUMENT, None)
         else if a = null then (NNP_NO_SUCH_INFREQ_HANDLE, None)
         else (NNP_NO_ERROR,
               Some (cx_user_hdl (p_ctxs s (dn_ctx (o_devnets s (rq_devnet (o_infreqs s a))))))))"

section \<open>Markers and errors\<close>

text \<open>On the object of a handle, an operation with an output parameter.\<close>

definition on_obj_out ::
    "addr \<Rightarrow> NNPError \<Rightarrow> 'b \<Rightarrow> (addr \<Rightarrow> proc \<Rightarrow> (NNPError \<times> 'b \<times> proc) outcome) \<Rightarrow> api \<Rightarrow>
     (NNPError \<times> 'b \<times> api) outcome" where
  "on_obj_out a err x0 f st =
     (if a = null then Done (err, x0, st)
      else obind (f a (a_proc st)) (\<lambda>(e, x, s). Done (e, x, st\<lparr>a_proc := s\<rparr>)))"

definition nnpdrvGetMarker :: "u64 \<Rightarrow> api \<Rightarrow> (NNPError \<times> u32 option \<times> api) outcome" where
  "nnpdrvGetMarker ctx st =
     on_obj_out (find_hdl ctx (a_contexts st)) NNP_NO_SUCH_CONTEXT None
       (\<lambda>c s. if ctx_broken (p_ctxs s c) \<and> \<not> ctx_aborted (p_ctxs s c)
              then Done (NNP_CONTEXT_BROKEN, None, s) else Done (createMarker c s)) st"

definition nnpdrvWaitForMarker :: "u64 \<Rightarrow> u32 \<Rightarrow> u32 \<Rightarrow> nat \<Rightarrow> api \<Rightarrow> (NNPError \<times> api) outcome" where
  "nnpdrvWaitForMarker ctx marker timeoutUs n st =
     on_obj (find_hdl ctx (a_contexts st)) NNP_NO_SUCH_CONTEXT
       (\<lambda>c. waitMarker c marker timeoutUs n) st"

definition nnpdrvFinish :: "u64 \<Rightarrow> api \<Rightarrow> (NNPError \<times> api) outcome" where
  "nnpdrvFinish ctx st =
     obind (nnpdrvGetMarker ctx st) (\<lambda>(e, marker, st1).
       if e \<noteq> NNP_NO_ERROR then Done (e, st1)
       else nnpdrvWaitForMarker ctx (the marker) UINT32_MAX 0 st1)"

definition nnpdrvWaitForCriticalError ::
    "u64 \<Rightarrow> u32 \<Rightarrow> nat \<Rightarrow> critical_info option \<Rightarrow> api \<Rightarrow>
     (NNPError \<times> critical_info option \<times> api) outcome" where
  "nnpdrvWaitForCriticalError ctx timeoutUs n out st =
     on_obj_out (find_hdl ctx (a_contexts st)) NNP_NO_SUCH_CONTEXT out
       (\<lambda>c. waitCriticalError c timeoutUs n out) st"

definition nnpdrvGetError ::
    "u64 \<Rightarrow> nat \<Rightarrow> critical_info option \<Rightarrow> api \<Rightarrow> (NNPError \<times> critical_info option \<times> api) outcome" where
  "nnpdrvGetError ctx n out st = nnpdrvWaitForCriticalError ctx 0 n out st"

definition nnpdrvGetCriticalErrorMessage ::
    "u64 \<Rightarrow> u32 option \<Rightarrow> api \<Rightarrow> NNPError \<times> u32 option \<times> u8 list option" where
  "nnpdrvGetCriticalErrorMessage ctx buf_size st =
     (let c = find_hdl ctx (a_contexts st)
      in if c = null then (NNP_NO_SUCH_CONTEXT, None, None)
         else getErrorMessage 0 buf_size (cx_errorList (p_ctxs (a_proc st) c)))"

end
