(* ===== verification/Device_Layouts.thy ===== *)
theory Device_Layouts
  imports Ipc_Layouts
begin

text \<open>
  The rest of \<open>ipc_protocol.h\<close>: version numbers, DMA addresses, and the structures that the kernel driver, the card
  and its BIOS exchange in memory. A structure inside another one is its fields.
\<close>

section \<open>Versions\<close>

definition NNP_VERSION_MAJOR :: "u32 \<Rightarrow> u32" where
  "NNP_VERSION_MAJOR ver = and (drop_bit 10 ver) 0x1f"

definition NNP_VERSION_MINOR :: "u32 \<Rightarrow> u32" where
  "NNP_VERSION_MINOR ver = and (drop_bit 5 ver) 0x1f"

definition NNP_VERSION_DOT :: "u32 \<Rightarrow> u32" where
  "NNP_VERSION_DOT ver = and ver 0x1f"

definition NNP_MAKE_VERSION :: "u32 \<Rightarrow> u32 \<Rightarrow> u32 \<Rightarrow> u32" where
  "NNP_MAKE_VERSION major minor dot =
     or (or (push_bit 10 (and major 0x1f)) (push_bit 5 (and minor 0x1f))) (and dot 0x1f)"

definition NNP_IPC_PROTOCOL_VERSION :: u32 where
  "NNP_IPC_PROTOCOL_VERSION = NNP_MAKE_VERSION 4 0 0"

lemma mask_1f: "(0x1f :: u32) = mask 5"
  by (simp add: mask_eq_exp_minus_1)

lemma version_parts:
  "NNP_VERSION_MAJOR (NNP_MAKE_VERSION a b c) = and a 0x1f" "NNP_VERSION_MINOR (NNP_MAKE_VERSION a b c) = and b 0x1f"
  "NNP_VERSION_DOT (NNP_MAKE_VERSION a b c) = and c 0x1f"
  unfolding NNP_VERSION_MAJOR_def NNP_VERSION_MINOR_def NNP_VERSION_DOT_def NNP_MAKE_VERSION_def mask_1f
  by (rule bit_word_eqI; auto simp: bit_simps)+

section \<open>DMA addresses\<close>

abbreviation (input) NNP_DMA_ADDR_ALIGN_BITS :: nat where "NNP_DMA_ADDR_ALIGN_BITS \<equiv> 12"

definition NNP_IPC_DMA_PFN_MASK :: u64 where
  "NNP_IPC_DMA_PFN_MASK = push_bit NNP_IPC_DMA_PFN_BITS 1 - 1"

definition NNP_IPC_DMA_ADDR_ALIGN_MASK :: u64 where
  "NNP_IPC_DMA_ADDR_ALIGN_MASK = push_bit NNP_DMA_ADDR_ALIGN_BITS 1 - 1"

definition NNP_IPC_DMA_ADDR_TO_PFN :: "u64 \<Rightarrow> u64" where
  "NNP_IPC_DMA_ADDR_TO_PFN dma_adr = and (drop_bit NNP_DMA_ADDR_ALIGN_BITS dma_adr) NNP_IPC_DMA_PFN_MASK"

definition NNP_IPC_DMA_PFN_TO_ADDR :: "u64 \<Rightarrow> u64" where
  "NNP_IPC_DMA_PFN_TO_ADDR dma_pfn = push_bit NNP_DMA_ADDR_ALIGN_BITS dma_pfn"

lemma dma_masks: "NNP_IPC_DMA_PFN_MASK = mask 45" "NNP_IPC_DMA_ADDR_ALIGN_MASK = mask 12"
  by (simp_all add: NNP_IPC_DMA_PFN_MASK_def NNP_IPC_DMA_ADDR_ALIGN_MASK_def mask_eq_exp_minus_1)

text \<open>A page address of 57 bits survives the translation; otherwise its other bits are lost.\<close>

lemma dma_pfn_addr: "NNP_IPC_DMA_PFN_TO_ADDR (NNP_IPC_DMA_ADDR_TO_PFN a) = and a (push_bit 12 (mask 45))"
  by (rule bit_word_eqI)
    (auto simp: NNP_IPC_DMA_PFN_TO_ADDR_def NNP_IPC_DMA_ADDR_TO_PFN_def dma_masks bit_simps)

section \<open>Structures\<close>

definition dma_chain_header :: layout where
  "dma_chain_header = [(''dma_next'', 64), (''total_nents'', 32), (''start_offset'', 32), (''size'', 64)]"

abbreviation (input) DMA_CHAIN_ENTRY_NPAGES_BITS :: nat where
  "DMA_CHAIN_ENTRY_NPAGES_BITS \<equiv> 64 - NNP_IPC_DMA_PFN_BITS"

definition NNP_MAX_CHUNK_SIZE :: u64 where
  "NNP_MAX_CHUNK_SIZE = push_bit 12 (push_bit DMA_CHAIN_ENTRY_NPAGES_BITS 1 - 1)"

definition dma_chain_entry :: layout where
  "dma_chain_entry = [(''dma_chunk_pfn'', NNP_IPC_DMA_PFN_BITS), (''n_pages'', DMA_CHAIN_ENTRY_NPAGES_BITS)]"

definition NENTS_PER_PAGE :: nat where
  "NENTS_PER_PAGE = (4096 - layout_bytes dma_chain_header) div layout_bytes dma_chain_entry"

definition clock_stamp_msg :: layout where
  "clock_stamp_msg = [(''opcode'', 6), (''unused'', 2), (''i_type'', 56), (''i_clock'', 64)]"

definition nnp_c2h_bios_version :: layout where
  "nnp_c2h_bios_version =
    [(''board_id'', 7 * 16), (''board_rev'', 16), (''dot1'', 16), (''board_ext'', 3 * 16), (''dot2'', 16),
     (''version_major'', 4 * 16), (''dot3'', 16), (''build_type'', 16), (''version_minor'', 2 * 16), (''dot4'', 16),
     (''time_stamp'', 10 * 16), (''null_terminator'', 16)]"

definition nnp_c2h_bios_fw_ver_ack_data :: layout where
  "nnp_c2h_bios_fw_ver_ack_data =
    [(''code_minor'', 16), (''code_major'', 16), (''code_build_no'', 16), (''code_hot_fix'', 16),
     (''rcvyminor'', 16), (''rcvymajor'', 16), (''rcvybuildno'', 16), (''rcvy_hot_fix'', 16),
     (''fitc_minor'', 16), (''fitc_major'', 16), (''fitcbuildno'', 16), (''fitc_hot_fix'', 16)]"

definition nnp_c2h_fw_version :: layout where
  "nnp_c2h_fw_version = [(''major'', 16), (''minor'', 16), (''hotfix'', 16), (''build'', 16)]"

definition nnp_c2h_cpu_info :: layout where
  "nnp_c2h_cpu_info =
    [(''cpu_family'', 32), (''cpu_stepping'', 8), (''cpu_sku'', 8), (''cpu_did'', 16), (''cpu_core_count'', 16),
     (''cpu_thread_count'', 16)]"

definition nnp_c2h_ice_info :: layout where
  "nnp_c2h_ice_info = [(''ice_count'', 16), (''ice_available_mask'', 32)]"

definition nnp_c2h_system_info :: layout where
  "nnp_c2h_system_info =
    [(''version'', 8), (''board_id'', 16), (''fab_id'', 8), (''bom_id'', 8), (''platform_type'', 8),
     (''platform_flavor'', 8)] @ nnp_c2h_cpu_info @ nnp_c2h_ice_info @ nnp_c2h_bios_version
     @ nnp_c2h_bios_fw_ver_ack_data @ nnp_c2h_fw_version"

definition NNP_BIOS_VERSION_LEN :: nat where
  "NNP_BIOS_VERSION_LEN = layout_bytes nnp_c2h_bios_version div 2"

abbreviation (input) NNP_BOARD_NAME_LEN :: nat where "NNP_BOARD_NAME_LEN \<equiv> 72"
abbreviation (input) NNP_IMAGE_VERSION_LEN :: nat where "NNP_IMAGE_VERSION_LEN \<equiv> 128"
abbreviation (input) NNP_PRD_SERIAL_LEN :: nat where "NNP_PRD_SERIAL_LEN \<equiv> 16"
abbreviation (input) NNP_PART_NUM_LEN :: nat where "NNP_PART_NUM_LEN \<equiv> 12"

definition nnp_sys_info :: layout where
  "nnp_sys_info =
    [(''ice_mask'', 32), (''bios_version'', 8 * NNP_BIOS_VERSION_LEN), (''board_name'', 8 * NNP_BOARD_NAME_LEN),
     (''image_version'', 8 * NNP_IMAGE_VERSION_LEN), (''prd_serial'', 8 * NNP_PRD_SERIAL_LEN),
     (''brd_part_no'', 8 * NNP_PART_NUM_LEN), (''fpga_rev'', 16), (''total_unprotected_memory'', 64),
     (''total_ecc_memory'', 64), (''stepping'', 8)]"

text \<open>
  A page holds a header and \<open>NENTS_PER_PAGE\<close> entries and has no room for another one; an entry can
  describe a chunk of the maximal size; the system information fits in the page that is set up for it.
\<close>

lemma structure_sizes:
  "CHECK_MESSAGE_SIZE clock_stamp_msg 2"
  "layout_bytes dma_chain_header + NENTS_PER_PAGE * layout_bytes dma_chain_entry \<le> 4096"
  "4096 < layout_bytes dma_chain_header + (NENTS_PER_PAGE + 1) * layout_bytes dma_chain_entry"
  "unat NNP_MAX_CHUNK_SIZE div 4096 < 2 ^ DMA_CHAIN_ENTRY_NPAGES_BITS" "NNP_BIOS_VERSION_LEN = 33"
  "layout_bytes nnp_sys_info \<le> 4096"
  by (simp_all add: CHECK_MESSAGE_SIZE_def layout_bytes_def layout_bits_def clock_stamp_msg_def dma_chain_header_def
      dma_chain_entry_def NENTS_PER_PAGE_def NNP_MAX_CHUNK_SIZE_def NNP_BIOS_VERSION_LEN_def nnp_c2h_bios_version_def
      nnp_sys_info_def)

end
