(* ===== verification/Device.thy ===== *)
theory Device
  imports Channel Device_Layouts "HOL-Library.Char_ord"
begin

text \<open>
  The devices (\<open>nnpiDevice.h\<close>, \<open>nnpiDevice.cpp\<close>), the requests to the kernel driver
  (\<open>misc/intel_nnpi.h\<close>), creating host resources (\<open>nnpiHostProc.cpp\<close>) and channels
  (\<open>nnpiChannel.cpp\<close>). The driver is an argument: what it answers to an attempt of a request. The
  file descriptors that are open in the process are part of the state.
\<close>

section \<open>Requests\<close>

record nnpdrv_ioctl_create_hostres =
  chr_user_ptr :: u64
  chr_size :: u64
  chr_usage_flags :: u32
  chr_user_handle :: int

record ioctl_nnpi_create_channel =
  cc_i_host_fd :: int
  cc_i_min_id :: u32
  cc_i_max_id :: u32
  cc_i_get_device_events :: bool
  cc_i_protocol_version :: u32
  cc_o_fd :: int
  cc_o_errno :: u32
  cc_o_channel_id :: u16

record ioctl_nnpi_create_channel_data_ringbuf =
  crb_i_hostres_handle :: int
  crb_i_channel_id :: u32
  crb_i_id :: u32
  crb_i_h2c :: bool
  crb_o_errno :: u32

record ioctl_nnpi_destroy_channel_data_ringbuf =
  drb_i_channel_id :: u32
  drb_i_id :: u32
  drb_i_h2c :: bool
  drb_o_errno :: u32

record ioctl_nnpi_channel_map_hostres =
  map_i_hostres_handle :: int
  map_i_channel_id :: u32
  map_o_map_id :: u32
  map_o_sync_needed :: bool
  map_o_errno :: u32

record ioctl_nnpi_channel_unmap_hostres =
  um_i_channel_id :: u32
  um_i_map_id :: u32
  um_o_errno :: u32

text \<open>What \<open>ioctl\<close> returns at the n-th attempt: its result, \<open>errno\<close>, and the request with the outputs.\<close>

type_synonym 'r driver = "nat \<Rightarrow> 'r \<Rightarrow> int \<times> nat \<times> 'r"

text \<open>The loop that repeats a request, set up anew each time, while it is interrupted.\<close>

partial_function (option) ioctl_loop :: "'r driver \<Rightarrow> 'r \<Rightarrow> nat \<Rightarrow> (int \<times> nat \<times> 'r) option" where
  "ioctl_loop drv req n =
     (if fst (drv n req) < 0 \<and> fst (snd (drv n req)) = EINTR then ioctl_loop drv req (Suc n)
      else Some (drv n req))"

text \<open>The error of a finished request: \<open>errno\<close>, or the one the driver left in the request.\<close>

definition ioctl_rc :: "('r \<Rightarrow> u32) \<Rightarrow> int \<times> nat \<times> 'r \<Rightarrow> nat" where
  "ioctl_rc o_errno a = (if fst a \<noteq> 0 then fst (snd a) else unat (o_errno (snd (snd a))))"

definition ioctl_outcome :: "'r driver \<Rightarrow> 'r \<Rightarrow> (int \<times> nat \<times> 'r) outcome" where
  "ioctl_outcome drv req = (case ioctl_loop drv req 0 of None \<Rightarrow> Loops | Some a \<Rightarrow> Done a)"

section \<open>A device\<close>

record nnpi_device =
  dv_num :: u32
  dv_fd :: int
  dv_chan_fds :: "(int \<times> bool) list"
  dv_bar0 :: u64
  dv_bar2 :: u64

definition nnpi_device_new :: "u32 \<Rightarrow> int \<Rightarrow> nnpi_device" where
  "nnpi_device_new dev_num fd = \<lparr>dv_num = dev_num, dv_fd = fd, dv_chan_fds = [], dv_bar0 = 0, dv_bar2 = 0\<rparr>"

definition NNP_IPC_CHAN_PROTOCOL_VERSION :: u32 where
  "NNP_IPC_CHAN_PROTOCOL_VERSION = NNP_MAKE_VERSION 1 6 0"

definition create_channel_req :: "int \<Rightarrow> bool \<Rightarrow> bool \<Rightarrow> ioctl_nnpi_create_channel" where
  "create_channel_req host_fd is_context get_device_events =
     \<lparr>cc_i_host_fd = host_fd, cc_i_min_id = (if is_context then 0 else 256),
      cc_i_max_id = (if is_context then 255 else push_bit 10 1 - 1),
      cc_i_get_device_events = get_device_events,
      cc_i_protocol_version = NNP_IPC_CHAN_PROTOCOL_VERSION, cc_o_fd = 0, cc_o_errno = 0,
      cc_o_channel_id = 0\<rparr>"

text \<open>On success the id, the descriptor and whether the process is privileged.\<close>

definition createChannel ::
    "ioctl_nnpi_create_channel driver \<Rightarrow> nat \<Rightarrow> bool \<Rightarrow> int \<Rightarrow> bool \<Rightarrow> bool \<Rightarrow> nnpi_device \<Rightarrow>
     (nat \<times> (u16 \<times> int \<times> bool) option \<times> nnpi_device) outcome" where
  "createChannel drv uid out_null host_fd is_context get_device_events d =
     (if out_null then Done (EINVAL, None, d)
      else if host_fd < 0 \<or> dv_fd d < 0 then Done (ENODEV, None, d)
      else obind (ioctl_outcome drv (create_channel_req host_fd is_context get_device_events)) (\<lambda>a.
        if fst a \<noteq> 0 \<or> ioctl_rc cc_o_errno a \<noteq> 0 then Done (ioctl_rc cc_o_errno a, None, d)
        else
          let r = snd (snd a); fd = cc_o_fd r
          in Done (0, Some (cc_o_channel_id r, fd, uid = 0),
                d\<lparr>dv_chan_fds := (if map_of (dv_chan_fds d) fd = None
                   then omap_update fd is_context (dv_chan_fds d) else dv_chan_fds d)\<rparr>)))"

definition createChannelRingBuffer ::
    "ioctl_nnpi_create_channel_data_ringbuf driver \<Rightarrow> u16 \<Rightarrow> u8 \<Rightarrow> bool \<Rightarrow> hostres option \<Rightarrow> nnpi_device \<Rightarrow>
     nat outcome" where
  "createChannelRingBuffer drv channel_id rb_id is_h2c hr d =
     (case hr of
        None \<Rightarrow> Done EINVAL
      | Some h \<Rightarrow>
          if dv_fd d < 0 then Done ENODEV
          else obind (ioctl_outcome drv \<lparr>crb_i_hostres_handle = m_kmd_handle h, crb_i_channel_id = ucast channel_id,
                        crb_i_id = ucast rb_id, crb_i_h2c = is_h2c, crb_o_errno = 0\<rparr>)
                 (\<lambda>a. Done (ioctl_rc crb_o_errno a)))"

definition destroyChannelRingBuffer ::
    "ioctl_nnpi_destroy_channel_data_ringbuf driver \<Rightarrow> u16 \<Rightarrow> u8 \<Rightarrow> bool \<Rightarrow> nnpi_device \<Rightarrow> nat outcome" where
  "destroyChannelRingBuffer drv channel_id rb_id is_h2c d =
     (if dv_fd d < 0 then Done ENODEV
      else obind (ioctl_outcome drv \<lparr>drb_i_channel_id = ucast channel_id, drb_i_id = ucast rb_id,
                    drb_i_h2c = is_h2c, drb_o_errno = 0\<rparr>)
             (\<lambda>a. Done (ioctl_rc drb_o_errno a)))"

text \<open>The map id on success, and the resource, which may now need the driver's synchronization.\<close>

definition mapHostResource ::
    "ioctl_nnpi_channel_map_hostres driver \<Rightarrow> u16 \<Rightarrow> hostres \<Rightarrow> nnpi_device \<Rightarrow>
     (nat \<times> u16 option \<times> hostres) outcome" where
  "mapHostResource drv channel_id h d =
     (if dv_fd d < 0 then Done (ENODEV, None, h)
      else obind (ioctl_outcome drv \<lparr>map_i_hostres_handle = m_kmd_handle h, map_i_channel_id = ucast channel_id,
                    map_o_map_id = 0, map_o_sync_needed = False, map_o_errno = 0\<rparr>)
             (\<lambda>a. if fst a \<noteq> 0 \<or> ioctl_rc map_o_errno a \<noteq> 0 then Done (ioctl_rc map_o_errno a, None, h)
                  else Done (0, Some (ucast (map_o_map_id (snd (snd a)))),
                         if map_o_sync_needed (snd (snd a)) then enableCPUsync h else h)))"

definition unmapHostResource ::
    "ioctl_nnpi_channel_unmap_hostres driver \<Rightarrow> u16 \<Rightarrow> u16 \<Rightarrow> nnpi_device \<Rightarrow> nat outcome" where
  "unmapHostResource drv channel_id map_id d =
     (if dv_fd d < 0 then Done ENODEV
      else obind (ioctl_outcome drv \<lparr>um_i_channel_id = ucast channel_id, um_i_map_id = ucast map_id,
                    um_o_errno = 0\<rparr>)
             (\<lambda>a. Done (ioctl_rc um_o_errno a)))"

section \<open>The devices of the process\<close>

text \<open>
  \<open>s_devices\<close> has a weak pointer per device number: a reference, live while the object exists. References
  are handed out in order. \<open>ds_open\<close> are the descriptors that are open in the process.
\<close>

record devices =
  ds_vec :: "nat option list"
  ds_dev :: "nat \<Rightarrow> nnpi_device option"
  ds_next :: nat
  ds_open :: "int set"

definition weak_lock :: "devices \<Rightarrow> nat option \<Rightarrow> nat option" where
  "weak_lock ds w = (case w of None \<Rightarrow> None | Some a \<Rightarrow> if ds_dev ds a = None then None else Some a)"

text \<open>
  The names in \<open>/dev\<close> that stand for devices. A number too large for an \<open>int\<close> is undefined
  behaviour of \<open>sscanf\<close>.
\<close>

definition is_digit :: "char \<Rightarrow> bool" where
  "is_digit c \<longleftrightarrow> 48 \<le> (of_char c :: nat) \<and> (of_char c :: nat) \<le> 57"

definition dec_val :: "string \<Rightarrow> int" where
  "dec_val = foldl (\<lambda>n c. 10 * n + (of_char c - 48)) 0"

definition dev_name_num :: "string \<Rightarrow> int option" where
  "dev_name_num d_name =
     (if take 4 d_name = ''nnpi'' \<and> 4 < length d_name \<and> is_digit (d_name ! 4)
      then Some (dec_val (takeWhile is_digit (drop 4 d_name))) else None)"

definition findMaxDeviceNumber :: "string list option \<Rightarrow> int outcome" where
  "findMaxDeviceNumber subdirs =
     (let ns = List.map_filter dev_name_num (case subdirs of None \<Rightarrow> [] | Some names \<Rightarrow> names)
      in if \<exists>n \<in> set ns. n \<ge> 2 ^ 31 then Undefined else Done (foldl max (-1) ns))"

text \<open>
  \<open>getBARAddr\<close>: in a build for the hardware, the addresses read from sysfs, \<open>None\<close> if they cannot be
  read; in another build nothing happens, which is \<open>Some (0, 0)\<close>.
\<close>

definition getBARAddr :: "(u64 \<times> u64) option \<Rightarrow> nnpi_device \<Rightarrow> nnpi_device option" where
  "getBARAddr bars d = map_option (\<lambda>(b0, b2). d\<lparr>dv_bar0 := b0, dv_bar2 := b2\<rparr>) bars"

text \<open>\<open>get\<close>: \<open>fd\<close> is what \<open>open\<close> of the device file returns, if it comes to that.\<close>

definition device_get :: "int \<Rightarrow> int \<Rightarrow> (u64 \<times> u64) option \<Rightarrow> u32 \<Rightarrow> devices \<Rightarrow> nat option \<times> devices" where
  "device_get max_dev fd bars dev_num ds =
     (if dev_num + 1 = 0 then (None, ds)
      else if length (ds_vec ds) \<le> unat dev_num \<and> (max_dev < 0 \<or> max_dev < int (unat dev_num)) then (None, ds)
      else
        let n = unat dev_num;
            vec = ds_vec ds @ replicate (n + 1 - length (ds_vec ds)) None;
            ds1 = ds\<lparr>ds_vec := vec\<rparr>
        in case weak_lock ds1 (vec ! n) of
             Some a \<Rightarrow> (Some a, ds1)
           | None \<Rightarrow>
               if fd < 0 then (None, ds1)
               else (case getBARAddr bars (nnpi_device_new dev_num fd) of
                       None \<Rightarrow> (None, ds1)
                     | Some d \<Rightarrow>
                         let a = ds_next ds
                         in (Some a, ds1\<lparr>ds_vec := vec[n := Some a], ds_dev := (ds_dev ds)(a \<mapsto> d),
                               ds_next := a + 1, ds_open := insert fd (ds_open ds)\<rparr>)))"

definition update_device :: "nat \<Rightarrow> nnpi_device \<Rightarrow> devices \<Rightarrow> devices" where
  "update_device a d ds = ds\<lparr>ds_dev := (ds_dev ds)(a \<mapsto> d)\<rparr>"

definition close_fds :: "int set \<Rightarrow> devices \<Rightarrow> devices" where
  "close_fds fds ds = ds\<lparr>ds_open := ds_open ds - fds\<rparr>"

text \<open>The channels' descriptors: one closed with its channel, or all (of contexts).\<close>

definition closeChannel :: "int \<Rightarrow> nat \<Rightarrow> nnpi_device \<Rightarrow> devices \<Rightarrow> devices" where
  "closeChannel fd a d ds =
     update_device a (d\<lparr>dv_chan_fds := omap_erase fd (dv_chan_fds d)\<rparr>) (close_fds {fd} ds)"

definition closed_chan_fds :: "bool \<Rightarrow> nnpi_device \<Rightarrow> (int \<times> bool) list" where
  "closed_chan_fds only_contexts d = filter (\<lambda>(fd, is_context). \<not> only_contexts \<or> is_context) (dv_chan_fds d)"

definition close_all_chan_fds :: "bool \<Rightarrow> nat \<Rightarrow> nnpi_device \<Rightarrow> devices \<Rightarrow> devices" where
  "close_all_chan_fds only_contexts a d ds =
     update_device a (d\<lparr>dv_chan_fds := filter (\<lambda>(fd, is_context). only_contexts \<and> \<not> is_context) (dv_chan_fds d)\<rparr>)
       (close_fds (fst ` set (closed_chan_fds only_contexts d)) ds)"

text \<open>The last owner of a device drops it: \<open>~nnpiDevice\<close>.\<close>

definition device_delete :: "nat \<Rightarrow> nnpi_device \<Rightarrow> devices \<Rightarrow> devices" where
  "device_delete a d ds =
     (let ds1 = close_all_chan_fds False a d (if dv_fd d \<ge> 0 then close_fds {dv_fd d} ds else ds)
      in ds1\<lparr>ds_dev := (ds_dev ds1)(a := None)\<rparr>)"

definition close_device :: "nat option \<Rightarrow> devices \<Rightarrow> devices" where
  "close_device w ds =
     (case weak_lock ds w of
        None \<Rightarrow> ds
      | Some a \<Rightarrow>
          (case ds_dev ds a of
             Some d \<Rightarrow> (if dv_fd d \<ge> 0 then update_device a (d\<lparr>dv_fd := -1\<rparr>) (close_fds {dv_fd d} ds) else ds)
           | None \<Rightarrow> ds))"

definition close_devices :: "devices \<Rightarrow> devices" where
  "close_devices ds = fold close_device (ds_vec ds) ds"

text \<open>
  \<open>clear_devices\<close> erases the element of a device whose channels are all closed: those behind it move
  to the front.
\<close>

fun clear_vec :: "bool \<Rightarrow> nat option list \<Rightarrow> devices \<Rightarrow> nat option list \<times> devices" where
  "clear_vec only_contexts [] ds = ([], ds)"
| "clear_vec only_contexts (w # ws) ds =
     (case weak_lock ds w of
        None \<Rightarrow> (case clear_vec only_contexts ws ds of (vec, ds') \<Rightarrow> (w # vec, ds'))
      | Some a \<Rightarrow>
          let ds1 = close_all_chan_fds only_contexts a (the (ds_dev ds a)) ds
          in case clear_vec only_contexts ws ds1 of
               (vec, ds') \<Rightarrow>
                 (if dv_chan_fds (the (ds_dev ds1 a)) = [] then vec else w # vec, ds'))"

definition clear_devices :: "bool \<Rightarrow> devices \<Rightarrow> devices" where
  "clear_devices only_contexts ds =
     (case clear_vec only_contexts (ds_vec ds) ds of (vec, ds') \<Rightarrow> ds'\<lparr>ds_vec := vec\<rparr>)"

section \<open>Host resources and channels\<close>

text \<open>
  \<open>nnpiHostProc::get\<close>: the object for the host device, opened if there is none; \<open>opened\<close> is what \<open>open\<close>
  returns, and the object is its descriptor.
\<close>

definition hostproc_get :: "int \<Rightarrow> int option \<Rightarrow> int option" where
  "hostproc_get opened live = (case live of Some fd \<Rightarrow> Some fd | None \<Rightarrow> if opened \<noteq> -1 then Some opened else None)"

text \<open>
  The two functions that create a host resource. Their test \<open>proc->get() == nullptr\<close> calls the static
  \<open>get\<close> again instead of asking the pointer: \<open>o1\<close> and \<open>o2\<close> are the results of the two. \<open>mapped\<close> is the
  address from \<open>mmap\<close>, if it succeeds.
\<close>

definition hostres_create ::
    "int \<Rightarrow> int \<Rightarrow> int option \<Rightarrow> u64 option \<Rightarrow> (nnpdrv_ioctl_create_hostres \<Rightarrow> int \<times> nat \<times> nnpdrv_ioctl_create_hostres) \<Rightarrow>
     u64 \<Rightarrow> u32 \<Rightarrow> (nat \<times> hostres option) outcome" where
  "hostres_create o1 o2 live mapped drv byte_size usage_flags =
     (let p = hostproc_get o1 live
      in if hostproc_get o2 p = None then Done (ENODEV, None)
         else if byte_size = 0 then Done (EINVAL, None)
         else case mapped of
           None \<Rightarrow> Done (ENOMEM, None)
         | Some adr \<Rightarrow>
             if p = None then Undefined
             else
               let a = drv \<lparr>chr_user_ptr = adr, chr_size = byte_size, chr_usage_flags = usage_flags, chr_user_handle = 0\<rparr>
               in if fst a < 0 then Done (if fst (snd a) \<noteq> 0 then fst (snd a) else EFAULT, None)
                  else Done (0, Some (hostres_new byte_size usage_flags (chr_user_handle (snd (snd a))) adr True)))"

definition hostres_createFromBuf ::
    "int \<Rightarrow> int \<Rightarrow> int option \<Rightarrow> u64 \<Rightarrow> (nnpdrv_ioctl_create_hostres \<Rightarrow> int \<times> nat \<times> nnpdrv_ioctl_create_hostres) \<Rightarrow>
     u64 \<Rightarrow> u32 \<Rightarrow> (nat \<times> hostres option) outcome" where
  "hostres_createFromBuf o1 o2 live buf drv byte_size usage_flags =
     (let p = hostproc_get o1 live
      in if hostproc_get o2 p = None then Done (ENODEV, None)
         else if p = None then Undefined
         else
           let a = drv \<lparr>chr_user_ptr = buf, chr_size = byte_size, chr_usage_flags = usage_flags, chr_user_handle = 0\<rparr>
           in if fst a < 0 then Done (fst (snd a), None)
              else Done (0, Some (hostres_new byte_size usage_flags (chr_user_handle (snd (snd a))) buf False)))"

text \<open>
  \<open>nnpiChannel::create\<close> on device \<open>dev\<close>, for a channel at address \<open>c\<close>: the channel and its descriptor, or an
  error. A channel of a context is put among the active ones. \<open>answers\<close> and \<open>inbox\<close> are the driver's side of
  the channel; if its thread cannot be started it is destroyed again.
\<close>

definition channel_create ::
    "addr \<Rightarrow> int option \<Rightarrow> nat option \<Rightarrow> ioctl_nnpi_create_channel driver \<Rightarrow> nat \<Rightarrow> bool \<Rightarrow> bool \<Rightarrow> int \<Rightarrow>
     (nat \<Rightarrow> int) \<Rightarrow> resp_item list \<Rightarrow> active_contexts \<Rightarrow> devices \<Rightarrow>
     (nat \<times> (channel \<times> int) option \<times> active_contexts \<times> devices) outcome" where
  "channel_create c host dev drv uid is_context get_device_events thread_err answers inbox act ds =
     (case (host, Option.bind dev (ds_dev ds)) of
        (Some host_fd, Some d) \<Rightarrow>
          obind (createChannel drv uid False host_fd is_context get_device_events d) (\<lambda>(rc, r, d1).
            if rc \<noteq> 0 then Done (rc, None, act, ds)
            else case r of
              None \<Rightarrow> Undefined
            | Some (i, fd, privileged) \<Rightarrow>
                let ds1 = (update_device (the dev) d1 ds)\<lparr>ds_open := insert fd (ds_open ds)\<rparr>;
                    act1 = (if is_context then active_add c act else act)
                in if thread_err \<noteq> 0
                   then Done (ENOMEM, None, if is_context then active_remove c act1 else act1,
                              closeChannel fd (the dev) d1 ds1)
                   else Done (0, Some (channel_new i answers inbox, fd), act1, ds1))
      | _ \<Rightarrow> Done (ENODEV, None, act, ds))"

text \<open>
  \<open>~nnpiChannel\<close>: both pairs of ring buffers, the descriptor, the entry among the active channels. \<open>errs\<close> are the
  errors of the requests that destroy ring buffers, which are ignored.
\<close>

definition channel_delete ::
    "addr \<Rightarrow> int \<Rightarrow> nat \<Rightarrow> bool \<Rightarrow> (nat \<Rightarrow> nat \<times> nat) \<Rightarrow> active_contexts \<Rightarrow> devices \<Rightarrow> proc \<Rightarrow>
     active_contexts \<times> devices \<times> proc" where
  "channel_delete c fd a is_context errs act ds s =
     (let s1 = fold (\<lambda>i s. snd (destroyResponseRingBuffer c i (snd (errs i))
                        (snd (destroyCommandRingBuffer c i (fst (errs i)) s)))) [0..<MAX_CHANNEL_RINGBUFS] s;
          ds1 = (case ds_dev ds a of None \<Rightarrow> ds | Some d \<Rightarrow> closeChannel fd a d ds)
      in (if is_context then active_remove c act else act, ds1, s1))"

end
