(* ===== verification/Stream_Load.thy ===== *)
theory Stream_Load
  imports Api_Networks Device "HOL-Library.While_Combinator"
begin

text \<open>
  Loading data into a device resource (\<open>nnpiInference.cpp\<close>): a stream is read block by block into two
  host resources in turn, and each block is copied to its place in the device resource while the next one
  is read. What the kernel driver and the C library answer is an argument, by block (0 or 1) or by turn of the
  loop. A block has the content of its host resource; the copy that is scheduled for a block
  carries its content at that time, since it has the block's lock until it is done. \<open>ld_carried\<close>
  lists what the copies carry (the mapping of the block, the offset in the device resource, the bytes); it
  decides nothing.
\<close>

section \<open>Blocks\<close>

definition calcOptimalBlockSize :: "u64 \<Rightarrow> u32" where
  "calcOptimalBlockSize sz =
     while (\<lambda>opt_size. ucast opt_size < sz \<and> opt_size < 0x10000) (\<lambda>opt_size. push_bit 1 opt_size)
       NNP_PAGE_SIZE"

record load_env =
  le_dev :: nnpi_device
  le_host :: "int option"
  le_opens :: "nat \<Rightarrow> int \<times> int"
  le_mmap :: "nat \<Rightarrow> u64 option"
  le_hostres :: "nat \<Rightarrow> nnpdrv_ioctl_create_hostres \<Rightarrow> int \<times> nat \<times> nnpdrv_ioctl_create_hostres"
  le_map :: "nat \<Rightarrow> ioctl_nnpi_channel_map_hostres driver"
  le_unmap :: "nat \<Rightarrow> ioctl_nnpi_channel_unmap_hostres driver"
  le_errno :: nat
  le_begin :: "nat \<Rightarrow> ioctl_result list"
  le_end :: "nat \<Rightarrow> ioctl_result"
  le_wait_begin :: "nat \<Rightarrow> ioctl_result list"
  le_wait_end :: "nat \<Rightarrow> ioctl_result"

record load_block =
  bl_hostres :: addr
  bl_mapped :: bool
  bl_map_id :: u16
  bl_copy :: addr
  bl_data :: "u8 list"

definition no_block :: load_block where
  "no_block = \<lparr>bl_hostres = null, bl_mapped = False, bl_map_id = 0, bl_copy = null, bl_data = []\<rparr>"

text \<open>
  A block on its first use: the result, whether the loop is left, and the block. The \<open>switch\<close> on the result
  of \<open>create\<close> falls through to its last case.
\<close>

definition open_block ::
    "load_env \<Rightarrow> addr \<Rightarrow> addr \<Rightarrow> u32 \<Rightarrow> nat \<Rightarrow> load_block \<Rightarrow> proc \<Rightarrow>
     (NNPError \<times> bool \<times> load_block \<times> proc) outcome" where
  "open_block env dr c block_size i b s =
     (if bl_hostres b \<noteq> null then Done (NNP_NO_ERROR, False, b, s)
      else obind (hostres_create (fst (le_opens env i)) (snd (le_opens env i)) (le_host env) (le_mmap env i)
                    (le_hostres env i) (ucast block_size) NNP_RESOURCE_USAGE_NN_INPUT) (\<lambda>(rc, h).
        if rc \<noteq> 0 then Done (NNP_IO_ERROR, True, b, s)
        else case new_addr s of
          (a, s1) \<Rightarrow>
            let b1 = b\<lparr>bl_hostres := a, bl_data := replicate (unat block_size) 0\<rparr>
            in obind (mapHostResource (le_map env i) (ch_id (cx_chan (p_ctxs s1 c))) (the h) (le_dev env)) (\<lambda>(rc, mid, h1).
                 if rc \<noteq> 0 then Done (errnoToNNPError (le_errno env) (of_nat rc), True, b1, set_hostres a h1 s1)
                 else case mid of
                   None \<Rightarrow> Undefined
                 | Some m \<Rightarrow>
                     let b2 = b1\<lparr>bl_mapped := True, bl_map_id := m\<rparr>
                     in obind (copy_create_subres dr (set_hostres a h1 s1)) (\<lambda>(e, cp, s2).
                          Done (e, e \<noteq> NNP_NO_ERROR,
                                b2\<lparr>bl_copy := (case cp of Some x \<Rightarrow> x | None \<Rightarrow> null)\<rparr>, s2)))))"

text \<open>\<open>lock_cpu_access\<close> for writing, without a timeout: the copy of the block is waited for.\<close>

definition lock_host_write :: "addr \<Rightarrow> ioctl_result list \<Rightarrow> addr \<Rightarrow> proc \<Rightarrow> (NNPError \<times> proc) outcome" where
  "lock_host_write c rs hr s =
     (if lock_cpu_check (o_hostres s hr) \<noteq> NNP_NO_ERROR then Done (lock_cpu_check (o_hostres s hr), s)
      else obind (wait_for (\<lambda>s. lock_cpu_cond True (o_hostres s hr)) c s) (\<lambda>s1.
        case lock_cpu_section True rs (o_hostres s1 hr) of
          None \<Rightarrow> Loops
        | Some (e, h) \<Rightarrow> Done (e, set_hostres hr h s1)))"

definition unlock_host :: "ioctl_result \<Rightarrow> addr \<Rightarrow> proc \<Rightarrow> NNPError \<times> proc" where
  "unlock_host r hr s = (case unlock_cpu_access r (o_hostres s hr) of (e, h) \<Rightarrow> (e, set_hostres hr h s))"

section \<open>The loop\<close>

record 'c load =
  ld_blocks :: "load_block list"
  ld_idx :: nat
  ld_offset :: u64
  ld_stream :: 'c
  ld_carried :: "(u16 \<times> u64 \<times> u8 list) list"

text \<open>
  A stream: the result of reading up to some number of bytes, the bytes that were stored, the stream
  afterwards.
\<close>

type_synonym 'c stream_read = "'c \<Rightarrow> nat \<Rightarrow> int \<times> u8 list \<times> 'c"

text \<open>One turn, the \<open>k\<close>-th: the result, whether there is a next one.\<close>

definition load_turn ::
    "load_env \<Rightarrow> addr \<Rightarrow> addr \<Rightarrow> u32 \<Rightarrow> 'c stream_read \<Rightarrow> nat \<Rightarrow> 'c load \<Rightarrow> proc \<Rightarrow>
     (NNPError \<times> bool \<times> 'c load \<times> proc) outcome" where
  "load_turn env dr c block_size read_cb k ld s =
     obind (open_block env dr c block_size (ld_idx ld) (ld_blocks ld ! ld_idx ld) s) (\<lambda>(e, leave, b, s1).
       let ld1 = ld\<lparr>ld_blocks := (ld_blocks ld)[ld_idx ld := b]\<rparr>
       in if leave then Done (e, False, ld1, s1)
          else obind (lock_host_write c (le_begin env k) (bl_hostres b) s1) (\<lambda>(e, s2).
            if e \<noteq> NNP_NO_ERROR then Done (e, False, ld1, s2)
            else case read_cb (ld_stream ld) (unat block_size) of
              (n, bs, st) \<Rightarrow>
                if length bs > unat block_size then Undefined
                else
                  let b1 = b\<lparr>bl_data := bs @ drop (length bs) (bl_data b)\<rparr>;
                      ld2 = ld1\<lparr>ld_blocks := (ld_blocks ld)[ld_idx ld := b1], ld_stream := st\<rparr>
                  in case unlock_host (le_end env k) (bl_hostres b) s2 of
                    (e, s3) \<Rightarrow>
                      if n < 0 then Done (NNP_IO_ERROR, False, ld2, s3)
                      else if e \<noteq> NNP_NO_ERROR then Done (e, False, ld2, s3)
                      else if n > 0 then
                        obind (copy_schedule_subres (bl_copy b) (bl_hostres b) (bl_map_id b) (ld_offset ld)
                                 (of_int n) s3) (\<lambda>(e, s4).
                          if e \<noteq> NNP_NO_ERROR then Done (e, False, ld2, s4)
                          else Done (NNP_NO_ERROR, n = uint block_size, ld2\<lparr>
                                 ld_carried := ld_carried ld @ [(bl_map_id b, ld_offset ld, take (nat n) (bl_data b1))],
                                 ld_offset := ld_offset ld + of_int n, ld_idx := (ld_idx ld + 1) mod 2\<rparr>, s4))
                      else Done (NNP_NO_ERROR, n = uint block_size, ld2, s3)))"

partial_function (option) load_loop ::
    "(nat \<Rightarrow> 'c load \<Rightarrow> proc \<Rightarrow> (NNPError \<times> bool \<times> 'c load \<times> proc) outcome) \<Rightarrow> nat \<Rightarrow> 'c load \<Rightarrow> proc \<Rightarrow>
     (NNPError \<times> 'c load \<times> proc) outcome option" where
  "load_loop turn k ld s =
     (case turn k ld s of
        Waits \<Rightarrow> Some Waits
      | Loops \<Rightarrow> Some Loops
      | Undefined \<Rightarrow> Some Undefined
      | Done (e, again, ld', s') \<Rightarrow>
          if again then load_loop turn (Suc k) ld' s' else Some (Done (e, ld', s')))"

text \<open>The end: the copies under way are waited for, and the blocks are given back.\<close>

fun wait_blocks :: "load_env \<Rightarrow> addr \<Rightarrow> nat \<Rightarrow> load_block list \<Rightarrow> proc \<Rightarrow> proc outcome" where
  "wait_blocks env c i [] s = Done s"
| "wait_blocks env c i (b # bs) s =
     (if bl_hostres b = null then wait_blocks env c (Suc i) bs s
      else obind (lock_host_write c (le_wait_begin env i) (bl_hostres b) s) (\<lambda>(e, s1).
             wait_blocks env c (Suc i) bs (snd (unlock_host (le_wait_end env i) (bl_hostres b) s1))))"

fun release_blocks :: "load_env \<Rightarrow> addr \<Rightarrow> nat \<Rightarrow> load_block list \<Rightarrow> proc \<Rightarrow> proc outcome" where
  "release_blocks env c i [] s = Done s"
| "release_blocks env c i (b # bs) s =
     obind (if bl_hostres b \<noteq> null \<and> bl_mapped b
            then obind (unmapHostResource (le_unmap env i) (ch_id (cx_chan (p_ctxs s c))) (bl_map_id b) (le_dev env))
                   (\<lambda>_. Done s)
            else Done s) (\<lambda>s1.
       release_blocks env c (Suc i) bs
         (if bl_copy b \<noteq> null then snd (copy_destroy (bl_copy b) s1) else s1))"

definition load_stream ::
    "load_env \<Rightarrow> addr \<Rightarrow> u64 \<Rightarrow> 'c stream_read \<Rightarrow> 'c \<Rightarrow> proc \<Rightarrow> (NNPError \<times> 'c load \<times> proc) outcome" where
  "load_stream env dr offset read_cb st s =
     (let d = o_devres s dr; c = dr_ctx d; block_size = calcOptimalBlockSize (dr_size d - offset);
          ld = \<lparr>ld_blocks = [no_block, no_block], ld_idx = 0, ld_offset = offset, ld_stream = st, ld_carried = []\<rparr>
      in obind (of_loop (load_loop (load_turn env dr c block_size read_cb) 0 ld s)) (\<lambda>(e, ld1, s1).
         obind (if e = NNP_NO_ERROR then wait_blocks env c 0 (ld_blocks ld1) s1 else Done s1) (\<lambda>s2.
         obind (release_blocks env c 0 (ld_blocks ld1) s2) (\<lambda>s3.
           Done (e, ld1, s3)))))"

section \<open>The C functions\<close>

definition nnpdrvDeviceResourceSubLoadFromStream ::
    "load_env \<Rightarrow> u64 \<Rightarrow> u64 \<Rightarrow> 'c stream_read \<Rightarrow> 'c \<Rightarrow> api \<Rightarrow> (NNPError \<times> api) outcome" where
  "nnpdrvDeviceResourceSubLoadFromStream env devRes offset read_cb stream_ctx st =
     on_obj (find_hdl devRes (a_devres st)) NNP_NO_SUCH_RESOURCE
       (\<lambda>dr s. obind (load_stream env dr offset read_cb stream_ctx s) (\<lambda>(e, ld, s1). Done (e, s1))) st"

record buf_stream =
  buffer :: "u8 list"
  bufferSize :: u64
  buf_pos :: u64

definition buf_stream_read_cb :: "buf_stream option stream_read" where
  "buf_stream_read_cb stream_ctx sz =
     (case stream_ctx of
        None \<Rightarrow> (-1, [], None)
      | Some stream \<Rightarrow>
          if buf_pos stream \<ge> bufferSize stream then (0, [], Some stream)
          else
            let n = min (bufferSize stream - buf_pos stream) (of_nat sz)
            in if n > 0 then
                 (uint n, take (unat n) (drop (unat (buf_pos stream)) (buffer stream)),
                  Some (stream\<lparr>buf_pos := buf_pos stream + n\<rparr>))
               else (uint n, [], Some stream))"

definition nnpdrvDeviceResourceSubLoad ::
    "load_env \<Rightarrow> u64 \<Rightarrow> u64 \<Rightarrow> u8 list option \<Rightarrow> u64 \<Rightarrow> api \<Rightarrow> (NNPError \<times> api) outcome" where
  "nnpdrvDeviceResourceSubLoad env devRes offset data dataSize st =
     (case data of
        None \<Rightarrow> Done (NNP_INVALID_ARGUMENT, st)
      | Some bs \<Rightarrow>
          if dataSize = 0 then Done (NNP_NO_ERROR, st)
          else nnpdrvDeviceResourceSubLoadFromStream env devRes offset buf_stream_read_cb
                 (Some \<lparr>buffer = bs, bufferSize = dataSize, buf_pos = 0\<rparr>) st)"

text \<open>
  A file: what \<open>stat\<close> (an error or the size) and \<open>fopen\<close> (an error) answer, and the k-th \<open>fread\<close>: the
  bytes, and whether the end of the file has been seen.
\<close>

record file_env =
  fe_stat :: "nat + u64"
  fe_fopen :: "nat option"
  fe_fread :: "nat \<Rightarrow> nat \<Rightarrow> u8 list \<times> bool"
  fe_load :: load_env
  fe_junk :: "u64 \<times> u8"

definition file_stream_read_cb :: "(nat \<Rightarrow> nat \<Rightarrow> u8 list \<times> bool) \<Rightarrow> nat stream_read" where
  "file_stream_read_cb fread k sz =
     (case fread k sz of
        (bs, at_eof) \<Rightarrow> if bs = [] \<and> \<not> at_eof then (-1, [], Suc k) else (int (length bs), bs, Suc k))"

definition nnpdrvCreateDeviceResourceFromFile ::
    "u64 \<Rightarrow> file_env option \<Rightarrow> u64 \<Rightarrow> u32 \<Rightarrow> api \<Rightarrow> (NNPError \<times> u64 option \<times> api) outcome" where
  "nnpdrvCreateDeviceResourceFromFile ctx file align usageFlags st =
     (case file of
        None \<Rightarrow> Done (NNP_INVALID_ARGUMENT, None, st)
      | Some f \<Rightarrow>
          if has_flag usageFlags NNP_RESOURCE_USAGE_NETWORK \<and> usageFlags \<noteq> NNP_RESOURCE_USAGE_NETWORK
          then Done (NNP_INVALID_ARGUMENT, None, st)
          else case fe_stat f of
            Inl errno \<Rightarrow> Done (errnoToNNPError errno (of_nat errno), None, st)
          | Inr fileSize \<Rightarrow>
              (case fe_fopen f of
                 Some errno \<Rightarrow> Done (errnoToNNPError errno (of_nat errno), None, st)
               | None \<Rightarrow>
                   obind (nnpdrvCreateDeviceResource False ctx fileSize align usageFlags (fe_junk f) st) (\<lambda>(e, h, st1).
                     if e \<noteq> NNP_NO_ERROR then Done (e, h, st1)
                     else obind (nnpdrvDeviceResourceSubLoadFromStream (fe_load f) (the h) 0
                                   (file_stream_read_cb (fe_fread f)) 0 st1) (\<lambda>(e1, st2).
                            Done (e1, h, st2)))))"

text \<open>The second file of a network whose name ends in \<open>.xml\<close>.\<close>

definition data_fileName :: "string \<Rightarrow> string option" where
  "data_fileName n =
     (if length n \<ge> 4 \<and> drop (length n - 4) n = ''.xml'' then Some (take (length n - 4) n @ ''.data.xml'') else None)"

fun destroy_all :: "u64 list \<Rightarrow> api \<Rightarrow> api outcome" where
  "destroy_all [] st = Done st"
| "destroy_all (h # hs) st = obind (nnpdrvDestroyDeviceResource h st) (\<lambda>(_, st1). destroy_all hs st1)"

definition nnpdrvCreateDeviceNetwork ::
    "bool \<Rightarrow> u64 \<Rightarrow> (string \<Rightarrow> file_env) \<Rightarrow> bool \<Rightarrow> string option \<Rightarrow> u8 list option \<Rightarrow> u32 \<Rightarrow> api \<Rightarrow>
     (NNPError \<times> u64 option \<times> api) outcome" where
  "nnpdrvCreateDeviceNetwork out_null ctx files malloc_ok netBlobFilename netConfigData netConfigDataSize st =
     (if out_null \<or> netBlobFilename = None then Done (NNP_INVALID_ARGUMENT, None, st)
      else if netConfigDataSize > 0 \<and> netConfigData = None then Done (NNP_INVALID_ARGUMENT, None, st)
      else
        let name = the netBlobFilename;
            conf = (case netConfigData of None \<Rightarrow> [] | Some bs \<Rightarrow> take (unat netConfigDataSize) bs)
        in obind (nnpdrvCreateDeviceResourceFromFile ctx (Some (files name)) 0 NNP_RESOURCE_USAGE_NETWORK st)
             (\<lambda>(e, h, st1).
               if e \<noteq> NNP_NO_ERROR then Done (e, None, st1)
               else if data_fileName name \<noteq> None \<and> \<not> malloc_ok
               then obind (destroy_all [the h] st1) (\<lambda>st2. Done (NNP_OUT_OF_MEMORY, None, st2))
               else obind (case data_fileName name of
                             None \<Rightarrow> Done ([the h], st1)
                           | Some name2 \<Rightarrow>
                               obind (nnpdrvCreateDeviceResourceFromFile ctx (Some (files name2)) 0
                                        NNP_RESOURCE_USAGE_NETWORK st1) (\<lambda>(e2, h2, st2).
                                 Done (if e2 = NNP_NO_ERROR then [the h, the h2] else [the h], st2)))
                 (\<lambda>(hs, st2).
                   obind (nnpdrvCreateDeviceNetworkWithResources False ctx hs conf st2) (\<lambda>(e3, net, st3).
                     obind (destroy_all hs st3) (\<lambda>st4. Done (e3, net, st4))))))"

text \<open>The number of devices.\<close>

definition nnpdrvGetDeviceCount :: "bool \<Rightarrow> string list option \<Rightarrow> (NNPError \<times> u32 option) outcome" where
  "nnpdrvGetDeviceCount out_null subdirs =
     (if out_null then Done (NNP_INVALID_ARGUMENT, None)
      else obind (findMaxDeviceNumber subdirs) (\<lambda>max_dev.
        if max_dev < 0 then Done (NNP_NO_SUCH_DEVICE, None)
        else Done (NNP_NO_ERROR, Some (of_int (max_dev + 1)))))"

end
