(* ===== verification/Device_Table.thy ===== *)
theory Device_Table
  imports Device Frame
begin

text \<open>
  The table of devices keeps one object per device number, and the file descriptors of a process are
  accounted for: a device closes its own and no others, and none is lost.
\<close>

section \<open>Requests that are repeated\<close>

text \<open>An answer that is an interruption.\<close>

definition interrupted :: "int \<times> nat \<times> 'r \<Rightarrow> bool" where
  "interrupted a \<longleftrightarrow> fst a < 0 \<and> fst (snd a) = EINTR"

lemma ioctl_loop_skip:
  "(\<And>j. m \<le> j \<Longrightarrow> j < m + k \<Longrightarrow> fst (drv j req) < 0 \<and> fst (snd (drv j req)) = EINTR) \<Longrightarrow>
     ioctl_loop drv req m = ioctl_loop drv req (m + k)"
proof (induction k arbitrary: m)
  case (Suc k)
  have "ioctl_loop drv req m = ioctl_loop drv req (Suc m)"
    using Suc.prems [of m] by (subst ioctl_loop.simps) simp
  also have "\<dots> = ioctl_loop drv req (Suc m + k)" by (rule Suc.IH) (use Suc.prems in simp)
  finally show ?case by simp
qed simp

lemma ioctl_loop_result:
  assumes "ioctl_loop drv req m = Some a"
  shows "\<exists>n. a = drv n req \<and> \<not> (fst (drv n req) < 0 \<and> fst (snd (drv n req)) = EINTR)"
  using assms
proof (rule ioctl_loop.raw_induct [where P = "\<lambda>drv req m a. \<exists>n. a = drv n req
    \<and> \<not> (fst (drv n req) < 0 \<and> fst (snd (drv n req)) = EINTR)", rotated])
  fix lp :: "'a driver \<Rightarrow> 'a \<Rightarrow> nat \<Rightarrow> (int \<times> nat \<times> 'a) option" and drv req m a
  assume "\<And>drv req m y. lp drv req m = Some y \<Longrightarrow>
      \<exists>n. y = drv n req \<and> \<not> (fst (drv n req) < 0 \<and> fst (snd (drv n req)) = EINTR)"
    and "(if fst (drv m req) < 0 \<and> fst (snd (drv m req)) = EINTR then lp drv req (Suc m) else Some (drv m req)) = Some a"
  then show "\<exists>n. a = drv n req \<and> \<not> (fst (drv n req) < 0 \<and> fst (snd (drv n req)) = EINTR)"
    by (auto split: if_splits)
qed

lemma ioctl_outcome_Done:
  "ioctl_outcome drv req = Done a \<Longrightarrow> \<exists>n. a = drv n req"
  using ioctl_loop_result unfolding ioctl_outcome_def by (fastforce split: option.splits)

lemma ioctl_outcome_cases: "ioctl_outcome drv req = Loops \<or> (\<exists>a. ioctl_outcome drv req = Done a)"
  by (simp add: ioctl_outcome_def split: option.split)

section \<open>What a device owns\<close>

definition dev_fds :: "nnpi_device \<Rightarrow> int set" where
  "dev_fds d = (if dv_fd d \<ge> 0 then {dv_fd d} else {}) \<union> fst ` set (dv_chan_fds d)"

definition dev_ok :: "nnpi_device \<Rightarrow> bool" where
  "dev_ok d \<longleftrightarrow> omap_ok (dv_chan_fds d) \<and> (dv_fd d \<ge> 0 \<longrightarrow> dv_fd d \<notin> fst ` set (dv_chan_fds d))"

definition owned_fds :: "devices \<Rightarrow> int set" where
  "owned_fds ds = (\<Union>(a, d) \<in> {(a, d). ds_dev ds a = Some d}. dev_fds d)"

lemma owned_fds_iff: "fd \<in> owned_fds ds \<longleftrightarrow> (\<exists>a d. ds_dev ds a = Some d \<and> fd \<in> dev_fds d)"
  by (auto simp: owned_fds_def)

text \<open>\<open>F\<close>: the descriptors of the process that are not a device's.\<close>

definition fds_ok :: "int set \<Rightarrow> devices \<Rightarrow> bool" where
  "fds_ok F ds \<longleftrightarrow> ds_open ds = F \<union> owned_fds ds \<and> F \<inter> owned_fds ds = {}
     \<and> (\<forall>a d. ds_dev ds a = Some d \<longrightarrow> dev_ok d)
     \<and> (\<forall>a b d e. ds_dev ds a = Some d \<and> ds_dev ds b = Some e \<and> a \<noteq> b \<longrightarrow> dev_fds d \<inter> dev_fds e = {})"

definition table_ok :: "devices \<Rightarrow> bool" where
  "table_ok ds \<longleftrightarrow>
     (\<forall>a d. ds_dev ds a = Some d \<longrightarrow> a < ds_next ds \<and> unat (dv_num d) < length (ds_vec ds)
        \<and> ds_vec ds ! unat (dv_num d) = Some a)
     \<and> (\<forall>i a d. i < length (ds_vec ds) \<and> ds_vec ds ! i = Some a \<and> ds_dev ds a = Some d \<longrightarrow> unat (dv_num d) = i)
     \<and> (\<forall>a. Some a \<in> set (ds_vec ds) \<longrightarrow> a < ds_next ds)"

lemma fds_okD:
  assumes "fds_ok F ds" "ds_dev ds a = Some d"
  shows "dev_ok d" "dev_fds d \<subseteq> ds_open ds" "dev_fds d \<inter> F = {}"
    "\<And>b e. ds_dev ds b = Some e \<Longrightarrow> a \<noteq> b \<Longrightarrow> dev_fds d \<inter> dev_fds e = {}"
  using assms owned_fds_iff unfolding fds_ok_def by blast+

text \<open>A device gives up \<open>C\<close>, gets \<open>N\<close>.\<close>

lemma fds_ok_update:
  assumes "fds_ok F ds" "ds_dev ds a = Some d" "dev_ok d'"
    and "dev_fds d' = dev_fds d - C \<union> N" "C \<subseteq> dev_fds d" "N \<inter> ds_open ds = {}"
  shows "fds_ok F ((update_device a d' ds)\<lparr>ds_open := ds_open ds - C \<union> N\<rparr>)"
proof -
  let ?t = "(update_device a d' ds)\<lparr>ds_open := ds_open ds - C \<union> N\<rparr>"
  note ok = assms(1) [unfolded fds_ok_def] and da = fds_okD [OF assms(1,2)]
  have dev: "ds_dev ?t b = (if b = a then Some d' else ds_dev ds b)" for b by (simp add: update_device_def)
  have rest: "dev_fds e \<inter> dev_fds d' = {}" "dev_fds e \<inter> C = {}" if "ds_dev ds b = Some e" "b \<noteq> a" for b e
    using da(4) [OF that(1)] that assms(4-6) fds_okD(2) [OF assms(1) that(1)] by blast+
  have own: "fd \<in> owned_fds ?t \<longleftrightarrow> fd \<in> owned_fds ds - C \<or> fd \<in> N" for fd
  proof
    assume "fd \<in> owned_fds ?t"
    then show "fd \<in> owned_fds ds - C \<or> fd \<in> N"
      using rest assms(2,4) unfolding owned_fds_iff dev by (fastforce split: if_splits simp: owned_fds_iff)
  next
    assume "fd \<in> owned_fds ds - C \<or> fd \<in> N"
    then show "fd \<in> owned_fds ?t"
    proof
      assume "fd \<in> owned_fds ds - C"
      then obtain b e where "ds_dev ds b = Some e" "fd \<in> dev_fds e" "fd \<notin> C" by (auto simp: owned_fds_iff)
      then show ?thesis using assms(2,4) unfolding owned_fds_iff dev by (cases "b = a") auto
    next
      assume "fd \<in> N"
      then have "ds_dev ?t a = Some d' \<and> fd \<in> dev_fds d'" using assms(4) dev by simp
      then show ?thesis unfolding owned_fds_iff by blast
    qed
  qed
  have "ds_open ?t = F \<union> owned_fds ?t" using ok own da(3) assms(5) by auto
  moreover have "F \<inter> owned_fds ?t = {}" using ok own assms(6) by auto
  moreover have "dev_fds x \<inter> dev_fds y = {}" if "ds_dev ?t b = Some x" "ds_dev ?t b' = Some y" "b \<noteq> b'" for b b' x y
  proof -
    consider "b = a" | "b' = a" | "b \<noteq> a" "b' \<noteq> a" by blast
    then show ?thesis using that rest ok unfolding dev by cases (auto split: if_splits)
  qed
  moreover have "dev_ok x" if "ds_dev ?t b = Some x" for b x using that ok assms(3) dev by (auto split: if_splits)
  ultimately show ?thesis unfolding fds_ok_def by blast
qed

lemma table_ok_update:
  "table_ok ds \<Longrightarrow> ds_dev ds a = Some d \<Longrightarrow> dv_num d' = dv_num d \<Longrightarrow> ds_dev t = (ds_dev ds)(a \<mapsto> d') \<Longrightarrow>
     ds_vec t = ds_vec ds \<Longrightarrow> ds_next t = ds_next ds \<Longrightarrow> table_ok t"
  unfolding table_ok_def by (auto split: if_splits)

definition devices_ok :: "int set \<Rightarrow> devices \<Rightarrow> bool" where
  "devices_ok F ds \<longleftrightarrow> fds_ok F ds \<and> table_ok ds"

lemma devices_ok_update:
  assumes "devices_ok F ds" "ds_dev ds a = Some d" "dev_ok d'" "dv_num d' = dv_num d"
    and "dev_fds d' = dev_fds d - C \<union> N" "C \<subseteq> dev_fds d" "N \<inter> ds_open ds = {}"
    and "t = (update_device a d' ds)\<lparr>ds_open := ds_open ds - C \<union> N\<rparr>"
  shows "devices_ok F t"
proof -
  have "fds_ok F ds" "table_ok ds" using assms(1) by (simp_all add: devices_ok_def)
  then have "fds_ok F t" unfolding assms(8) by (intro fds_ok_update [OF _ assms(2,3,5-7)])
  moreover have "table_ok t"
    by (rule table_ok_update [OF \<open>table_ok ds\<close> assms(2,4)]) (simp_all add: assms(8) update_device_def)
  ultimately show ?thesis by (simp add: devices_ok_def)
qed

section \<open>The operations\<close>

lemma devices_okD:
  assumes "devices_ok F ds" "ds_dev ds a = Some d"
  shows "dev_ok d" "dev_fds d \<subseteq> ds_open ds"
  using assms fds_okD [of F ds a d] by (simp_all add: devices_ok_def)

lemma keys_filter: "fst ` set (filter P m) = fst ` set m - fst ` set (filter (\<lambda>x. \<not> P x) m)" if "distinct (map fst m)"
  using that by (induction m) (auto simp: rev_image_eqI)

lemma omap_ok_filter: "omap_ok m \<Longrightarrow> omap_ok (filter P m)"
  by (induction m) auto

lemma close_all_ok:
  assumes "devices_ok F ds" "ds_dev ds a = Some d"
  shows "devices_ok F (close_all_chan_fds only a d ds)"
proof (rule devices_ok_update [OF assms(1,2), where C = "fst ` set (closed_chan_fds only d)" and N = "{}"])
  note ok = devices_okD(1) [OF assms, unfolded dev_ok_def]
  let ?keep = "filter (\<lambda>(fd, ic). only \<and> \<not> ic) (dv_chan_fds d)"
  have "closed_chan_fds only d = filter (\<lambda>x. \<not> (case x of (fd, ic) \<Rightarrow> only \<and> \<not> ic)) (dv_chan_fds d)"
    by (auto simp: closed_chan_fds_def intro: filter_cong)
  then have keys: "fst ` set ?keep = fst ` set (dv_chan_fds d) - fst ` set (closed_chan_fds only d)"
    using keys_filter omap_ok_distinct ok by metis
  then show "dev_fds (d\<lparr>dv_chan_fds := ?keep\<rparr>) = dev_fds d - fst ` set (closed_chan_fds only d) \<union> {}"
    using ok by (auto simp: dev_fds_def closed_chan_fds_def)
  show "dev_ok (d\<lparr>dv_chan_fds := ?keep\<rparr>)"
    using ok omap_ok_filter by (auto simp: dev_ok_def)
  show "close_all_chan_fds only a d ds = (update_device a (d\<lparr>dv_chan_fds := ?keep\<rparr>) ds)
      \<lparr>ds_open := ds_open ds - fst ` set (closed_chan_fds only d) \<union> {}\<rparr>"
    by (simp add: close_all_chan_fds_def update_device_def close_fds_def)
qed (auto simp: closed_chan_fds_def dev_fds_def)

lemma close_channel_ok:
  assumes "devices_ok F ds" "ds_dev ds a = Some d" "map_of (dv_chan_fds d) fd \<noteq> None"
  shows "devices_ok F (closeChannel fd a d ds)"
proof (rule devices_ok_update [OF assms(1,2), where C = "{fd}" and N = "{}"])
  note ok = devices_okD(1) [OF assms(1,2), unfolded dev_ok_def]
  have key: "fd \<in> fst ` set (dv_chan_fds d)" using assms(3) by (simp add: map_of_eq_None_iff)
  then show "{fd} \<subseteq> dev_fds d" by (simp add: dev_fds_def)
  show "dev_ok (d\<lparr>dv_chan_fds := omap_erase fd (dv_chan_fds d)\<rparr>)"
    "dev_fds (d\<lparr>dv_chan_fds := omap_erase fd (dv_chan_fds d)\<rparr>) = dev_fds d - {fd} \<union> {}"
    using ok key by (auto simp: dev_ok_def dev_fds_def keys_omap_erase)
qed (simp_all add: closeChannel_def update_device_def close_fds_def)

lemma close_device_ok: "devices_ok F ds \<Longrightarrow> devices_ok F (close_device w ds)"
proof (cases "weak_lock ds w")
  case (Some a)
  assume ok: "devices_ok F ds"
  obtain d where d: "ds_dev ds a = Some d" using Some by (auto simp: weak_lock_def split: option.splits if_splits)
  note dok = devices_okD(1) [OF ok d]
  show ?thesis
  proof (cases "dv_fd d \<ge> 0")
    case True
    have "devices_ok F (update_device a (d\<lparr>dv_fd := -1\<rparr>) (close_fds {dv_fd d} ds))"
      by (rule devices_ok_update [OF ok d, where d' = "d\<lparr>dv_fd := -1\<rparr>" and C = "{dv_fd d}" and N = "{}"])
        (use dok True in \<open>auto simp: dev_fds_def dev_ok_def update_device_def close_fds_def\<close>)
    then show ?thesis using Some d True by (simp add: close_device_def)
  qed (use ok Some d in \<open>simp add: close_device_def\<close>)
qed (simp add: close_device_def)

lemma fds_ok_remove:
  assumes "fds_ok F ds" "ds_dev ds a = Some d" "ds_dev t = (ds_dev ds)(a := None)" "ds_open t = ds_open ds - dev_fds d"
  shows "fds_ok F t"
proof -
  note ok = assms(1) [unfolded fds_ok_def] and da = fds_okD [OF assms(1,2)]
  have own: "owned_fds t = owned_fds ds - dev_fds d"
  proof (intro set_eqI iffI)
    fix x assume "x \<in> owned_fds t"
    then obtain b e where "ds_dev ds b = Some e" "a \<noteq> b" "x \<in> dev_fds e"
      by (auto simp: owned_fds_iff assms(3) split: if_splits)
    then show "x \<in> owned_fds ds - dev_fds d" using da(4) owned_fds_iff by blast
  next
    fix x assume "x \<in> owned_fds ds - dev_fds d"
    then obtain b e where b: "ds_dev ds b = Some e" "x \<in> dev_fds e" "x \<notin> dev_fds d" by (auto simp: owned_fds_iff)
    then have "b \<noteq> a" using assms(2) by auto
    then have "ds_dev t b = Some e" using b(1) assms(3) by simp
    then show "x \<in> owned_fds t" using b(2) owned_fds_iff by blast
  qed
  have "ds_open t = F \<union> owned_fds t" "F \<inter> owned_fds t = {}" using ok da(3) own assms(4) by auto
  moreover have "dev_ok x" if "ds_dev t b = Some x" for b x using that ok assms(3) by (auto split: if_splits)
  moreover have "dev_fds x \<inter> dev_fds y = {}" if "ds_dev t b = Some x" "ds_dev t b' = Some y" "b \<noteq> b'" for b b' x y
    using that ok assms(3) by (auto split: if_splits)
  ultimately show ?thesis unfolding fds_ok_def by blast
qed

lemma delete_ok:
  assumes "devices_ok F ds" "ds_dev ds a = Some d"
  shows "devices_ok F (device_delete a d ds)"
proof -
  let ?t = "device_delete a d ds"
  have all: "closed_chan_fds False d = dv_chan_fds d" by (simp add: closed_chan_fds_def case_prod_beta)
  have t: "ds_dev ?t = (ds_dev ds)(a := None)" "ds_open ?t = ds_open ds - dev_fds d" "ds_vec ?t = ds_vec ds" "ds_next ?t = ds_next ds"
    by (auto simp: device_delete_def close_all_chan_fds_def update_device_def close_fds_def dev_fds_def Let_def all)
  have "fds_ok F ?t" by (rule fds_ok_remove [OF _ assms(2) t(1,2)]) (use assms in \<open>simp add: devices_ok_def\<close>)
  moreover have "table_ok ?t" using assms unfolding devices_ok_def table_ok_def t by (auto split: if_splits)
  ultimately show ?thesis by (simp add: devices_ok_def)
qed

lemma fds_ok_add:
  assumes "fds_ok F ds" "ds_dev ds a = None" "ds_dev t = (ds_dev ds)(a \<mapsto> d)" "ds_open t = insert fd (ds_open ds)"
    and "dev_fds d = {fd}" "dev_ok d" "fd \<notin> ds_open ds"
  shows "fds_ok F t"
proof -
  note ok = assms(1) [unfolded fds_ok_def]
  have new: "dev_fds e \<inter> dev_fds d = {}" if "ds_dev ds b = Some e" for b e
    using fds_okD(2) [OF assms(1) that] assms(5,7) by auto
  have own: "owned_fds t = insert fd (owned_fds ds)"
  proof (intro set_eqI iffI)
    fix x assume "x \<in> owned_fds t"
    then show "x \<in> insert fd (owned_fds ds)"
      using assms(5) by (auto simp: owned_fds_iff assms(3) split: if_splits)
  next
    fix x assume x: "x \<in> insert fd (owned_fds ds)"
    have keep: "ds_dev t a = Some d" "\<And>b e. ds_dev ds b = Some e \<Longrightarrow> ds_dev t b = Some e" using assms(2,3) by auto
    show "x \<in> owned_fds t"
    proof (cases "x = fd")
      case True
      then have "x \<in> dev_fds d" using assms(5) by simp
      then show ?thesis using keep(1) unfolding owned_fds_iff by blast
    next
      case False
      then obtain b e where "ds_dev ds b = Some e" "x \<in> dev_fds e" using x owned_fds_iff by blast
      then show ?thesis using keep(2) unfolding owned_fds_iff by blast
    qed
  qed
  have "ds_open t = F \<union> owned_fds t" "F \<inter> owned_fds t = {}" using ok own assms(4,7) by auto
  moreover have "dev_ok x" if "ds_dev t b = Some x" for b x using that ok assms(3,6) by (auto split: if_splits)
  moreover have "dev_fds x \<inter> dev_fds y = {}" if "ds_dev t b = Some x" "ds_dev t b' = Some y" "b \<noteq> b'" for b b' x y
  proof -
    consider "b = a" | "b' = a" | "b \<noteq> a" "b' \<noteq> a" by blast
    then show ?thesis using that new ok assms(3) by cases (auto split: if_splits)
  qed
  ultimately show ?thesis unfolding fds_ok_def by blast
qed

text \<open>The two ways \<open>device_get\<close> gives a device: one that lives, or a new one at the number's place.\<close>

definition grown :: "u32 \<Rightarrow> devices \<Rightarrow> nat option list" where
  "grown n ds = ds_vec ds @ replicate (unat n + 1 - length (ds_vec ds)) None"

lemma device_get_cases:
  assumes "device_get max_dev fd bars n ds = (r, ds')"
  obtains (none) "r = None" "ds' = ds \<or> ds' = ds\<lparr>ds_vec := grown n ds\<rparr>"
    | (live) a where "r = Some a" "ds' = ds\<lparr>ds_vec := grown n ds\<rparr>" "grown n ds ! unat n = Some a" "ds_dev ds a \<noteq> None"
    | (new) d where "r = Some (ds_next ds)" "dv_num d = n" "dv_fd d = fd" "dv_chan_fds d = []" "fd \<ge> 0"
        "weak_lock ds (grown n ds ! unat n) = None"
        "ds' = ds\<lparr>ds_vec := (grown n ds)[unat n := Some (ds_next ds)], ds_dev := (ds_dev ds)(ds_next ds \<mapsto> d),
           ds_next := ds_next ds + 1, ds_open := insert fd (ds_open ds)\<rparr>"
proof (cases "n + 1 = 0 \<or> length (ds_vec ds) \<le> unat n \<and> (max_dev < 0 \<or> max_dev < int (unat n))")
  case True
  then have "device_get max_dev fd bars n ds = (None, ds)" by (auto simp: device_get_def)
  then show ?thesis using assms none by simp
next
  case False
  have w: "weak_lock (ds\<lparr>ds_vec := v\<rparr>) x = weak_lock ds x" for v x by (simp add: weak_lock_def split: option.split)
  have g: "device_get max_dev fd bars n ds = (let ds1 = ds\<lparr>ds_vec := grown n ds\<rparr> in
      case weak_lock ds (grown n ds ! unat n) of Some a \<Rightarrow> (Some a, ds1)
      | None \<Rightarrow> if fd < 0 then (None, ds1)
          else case getBARAddr bars (nnpi_device_new n fd) of None \<Rightarrow> (None, ds1)
             | Some d \<Rightarrow> (Some (ds_next ds), ds1\<lparr>ds_vec := (grown n ds)[unat n := Some (ds_next ds)],
                 ds_dev := (ds_dev ds)(ds_next ds \<mapsto> d), ds_next := ds_next ds + 1, ds_open := insert fd (ds_open ds)\<rparr>))"
  proof -
    have "\<not> n + 1 = 0" "\<not> (length (ds_vec ds) \<le> unat n \<and> (max_dev < 0 \<or> max_dev < int (unat n)))"
      using False by blast+
    then show ?thesis unfolding device_get_def grown_def Let_def w by (simp only: if_False)
  qed
  show ?thesis
  proof (cases "weak_lock ds (grown n ds ! unat n)")
    case (Some a)
    then have a: "grown n ds ! unat n = Some a" "ds_dev ds a \<noteq> None" by (auto simp: weak_lock_def split: option.splits if_splits)
    have "r = Some a" "ds' = ds\<lparr>ds_vec := grown n ds\<rparr>" using assms Some g by (simp_all add: Let_def)
    then show ?thesis using live a by blast
  next
    case None
    show ?thesis
    proof (cases "fd < 0 \<or> bars = None")
      case True
      then have "r = None" "ds' = ds\<lparr>ds_vec := grown n ds\<rparr>"
        using assms None g by (auto simp: Let_def getBARAddr_def split: if_splits)
      then show ?thesis using none by blast
    next
      case False
      then obtain b0 b2 where b: "bars = Some (b0, b2)" by auto
      let ?d = "(nnpi_device_new n fd)\<lparr>dv_bar0 := b0, dv_bar2 := b2\<rparr>"
      show ?thesis
        by (rule new [of ?d]) (use assms None g b False in \<open>simp_all add: Let_def getBARAddr_def nnpi_device_new_def\<close>)
    qed
  qed
qed

lemma grown_nth: "i < length (ds_vec ds) \<Longrightarrow> grown n ds ! i = ds_vec ds ! i"
  "unat n < length (grown n ds)" "length (ds_vec ds) \<le> length (grown n ds)"
  "i < length (grown n ds) \<Longrightarrow> grown n ds ! i = Some a \<Longrightarrow> i < length (ds_vec ds) \<and> ds_vec ds ! i = Some a"
  by (auto simp: grown_def nth_append split: if_splits)

lemma table_okD:
  assumes "table_ok ds" "ds_dev ds a = Some d"
  shows "a < ds_next ds" "unat (dv_num d) < length (ds_vec ds)" "ds_vec ds ! unat (dv_num d) = Some a"
    "\<And>i. i < length (ds_vec ds) \<Longrightarrow> ds_vec ds ! i = Some a \<Longrightarrow> unat (dv_num d) = i"
  using assms unfolding table_ok_def by blast+

lemma grown_set: "Some a \<in> set (grown n ds) \<longleftrightarrow> Some a \<in> set (ds_vec ds)"
  by (auto simp: grown_def)

lemma table_ok_grown: "table_ok ds \<Longrightarrow> table_ok (ds\<lparr>ds_vec := grown n ds\<rparr>)"
proof -
  assume ok: "table_ok ds"
  have "a < ds_next ds \<and> unat (dv_num d) < length (grown n ds) \<and> grown n ds ! unat (dv_num d) = Some a"
    if "ds_dev ds a = Some d" for a d
    using table_okD(1-3) [OF ok that] grown_nth(1,3) less_le_trans by metis
  moreover have "unat (dv_num d) = i" if "i < length (grown n ds)" "grown n ds ! i = Some a" "ds_dev ds a = Some d" for i a d
    using grown_nth(4) [OF that(1,2)] table_okD(4) [OF ok that(3)] by blast
  moreover have "a < ds_next ds" if "Some a \<in> set (grown n ds)" for a
    using that ok unfolding grown_set table_ok_def by blast
  ultimately show ?thesis unfolding table_ok_def by simp
qed

lemma fds_ok_vec [simp]: "fds_ok F (ds\<lparr>ds_vec := v\<rparr>) = fds_ok F ds"
  by (simp add: fds_ok_def owned_fds_def)

lemma get_ok:
  assumes "device_get max_dev fd bars n ds = (r, ds')" "devices_ok F ds" "fd < 0 \<or> fd \<notin> ds_open ds"
  shows "devices_ok F ds'"
  using assms(1)
proof (cases rule: device_get_cases)
  case none
  then show ?thesis using assms(2) table_ok_grown by (auto simp: devices_ok_def)
next
  case live
  then show ?thesis using assms(2) table_ok_grown by (auto simp: devices_ok_def)
next
  case (new d)
  have tbl: "table_ok (ds\<lparr>ds_vec := grown n ds\<rparr>)" and fds: "fds_ok F ds"
    using assms(2) table_ok_grown by (auto simp: devices_ok_def)
  have fresh: "ds_dev ds (ds_next ds) = None"
    using table_okD(1) [OF tbl, of "ds_next ds"] by (cases "ds_dev ds (ds_next ds)") auto
  have "fds_ok F ds'"
    by (rule fds_ok_add [OF fds fresh, where d = d and fd = fd])
      (use new assms(3) in \<open>auto simp: dev_fds_def dev_ok_def\<close>)
  moreover have "table_ok ds'"
  proof -
    have below: "b < ds_next ds" if "Some b \<in> set (grown n ds)" for b
      using that tbl unfolding table_ok_def by simp
    let ?v = "(grown n ds)[unat n := Some (ds_next ds)]"
    have old: "unat (dv_num e) \<noteq> unat n" if "ds_dev ds b = Some e" for b e
      using table_okD(3) [OF tbl, of b e] that new(6) by (auto simp: weak_lock_def)
    have nth: "?v ! i = (if i = unat n then Some (ds_next ds) else grown n ds ! i)" if "i < length (grown n ds)" for i
      using that by simp
    have "a < ds_next ds + 1 \<and> unat (dv_num e) < length ?v \<and> ?v ! unat (dv_num e) = Some a"
      if "((ds_dev ds)(ds_next ds \<mapsto> d)) a = Some e" for a e
    proof (cases "a = ds_next ds")
      case True
      then show ?thesis using that new(2) grown_nth(2) by auto
    next
      case False
      then have e: "ds_dev ds a = Some e" using that by simp
      then show ?thesis using table_okD(1-3) [OF tbl, of a e] old [OF e] by simp
    qed
    moreover have "unat (dv_num e) = i"
      if i: "i < length ?v" "?v ! i = Some a" and a: "((ds_dev ds)(ds_next ds \<mapsto> d)) a = Some e" for i a e
    proof (cases "i = unat n")
      case True
      then have "a = ds_next ds" using i by simp
      then show ?thesis using a new(2) True by simp
    next
      case False
      then have g: "grown n ds ! i = Some a" using i by simp
      have "a \<noteq> ds_next ds"
        using below [of "ds_next ds"] nth_mem [of i "grown n ds"] g i(1) by auto
      then show ?thesis using table_okD(4) [OF tbl, of a e i] a i g by simp
    qed
    moreover have "a < ds_next ds + 1" if "Some a \<in> set ?v" for a
      using that below [of a] set_update_subset_insert [of "grown n ds" "unat n" "Some (ds_next ds)"] by auto
    ultimately show ?thesis unfolding new(7) table_ok_def by simp
  qed
  ultimately show ?thesis by (simp add: devices_ok_def)
qed

lemma omap_update_keys: "fst ` set (omap_update k v m) = insert k (fst ` set m)"
  by simp

text \<open>What a creation does: nothing, or a channel on device \<open>a\<close>, which is destroyed again when the thread cannot be started.\<close>

abbreviation with_channel :: "int \<Rightarrow> bool \<Rightarrow> nat \<Rightarrow> nnpi_device \<Rightarrow> devices \<Rightarrow> devices" where
  "with_channel fd ic a d ds \<equiv>
     (update_device a (d\<lparr>dv_chan_fds := omap_update fd ic (dv_chan_fds d)\<rparr>) ds)\<lparr>ds_open := insert fd (ds_open ds)\<rparr>"

lemma channel_create_cases:
  assumes "channel_create c host dev drv uid ic ev te answers inbox act ds = Done (rc, r, act', ds')" "devices_ok F ds"
    and fresh: "\<forall>n q. fst (drv n q) = 0 \<longrightarrow> cc_o_fd (snd (snd (drv n q))) \<notin> ds_open ds"
  obtains (none) "ds' = ds" "r = None"
  | (new) a d i fd where "dev = Some a" "ds_dev ds a = Some d" "fd \<notin> ds_open ds"
      "te \<noteq> 0 \<Longrightarrow> r = None \<and> ds' = closeChannel fd a (d\<lparr>dv_chan_fds := omap_update fd ic (dv_chan_fds d)\<rparr>) (with_channel fd ic a d ds)"
      "te = 0 \<Longrightarrow> r = Some (channel_new i answers inbox, fd) \<and> ds' = with_channel fd ic a d ds
         \<and> act' = (if ic then active_add c act else act)"
proof (cases "ds' = ds \<and> r = None")
  case False
  obtain host_fd a d rc1 x d1 where h: "host = Some host_fd" "dev = Some a" "ds_dev ds a = Some d"
    and cc: "createChannel drv uid False host_fd ic ev d = Done (rc1, x, d1)"
    and rest: "(if rc1 \<noteq> 0 then Done (rc1, None, act, ds) else case x of None \<Rightarrow> Undefined
       | Some (i, fd, privileged) \<Rightarrow>
           let ds1 = (update_device a d1 ds)\<lparr>ds_open := insert fd (ds_open ds)\<rparr>;
               act1 = (if ic then active_add c act else act)
           in if te \<noteq> 0
              then Done (ENOMEM, None, if ic then active_remove c act1 else act1, closeChannel fd a d1 ds1)
              else Done (0, Some (channel_new i answers inbox, fd), act1, ds1)) = Done (rc, r, act', ds')"
  proof -
    obtain host_fd a d where h: "host = Some host_fd" "dev = Some a" "ds_dev ds a = Some d"
      using assms(1) False unfolding channel_create_def
      by (cases host; cases dev; cases "Option.bind dev (ds_dev ds)") auto
    then obtain y where "createChannel drv uid False host_fd ic ev d = Done y"
      using assms(1) unfolding channel_create_def by (auto elim!: obind_DoneE)
    moreover obtain rc1 x d1 where "y = (rc1, x, d1)" by (cases y)
    ultimately show thesis using assms(1) h unfolding channel_create_def
      by (intro that [of host_fd a d rc1 x d1]) (simp_all only: case_prod_conv option.case bind.bind_lunit obind.simps option.sel)
  qed
  obtain i fd pr where x: "x = Some (i, fd, pr)" and r0: "rc1 = 0" using rest False by (cases x) (auto split: if_splits)
  note dok = devices_okD [OF assms(2) h(3)]
  have fd: "fd \<notin> ds_open ds" and d1: "d1 = d\<lparr>dv_chan_fds := omap_update fd ic (dv_chan_fds d)\<rparr>"
  proof -
    obtain n where n: "fst (drv n (create_channel_req host_fd ic ev)) = 0"
      "fd = cc_o_fd (snd (snd (drv n (create_channel_req host_fd ic ev))))"
      and d1': "d1 = d\<lparr>dv_chan_fds := (if map_of (dv_chan_fds d) fd = None
                   then omap_update fd ic (dv_chan_fds d) else dv_chan_fds d)\<rparr>"
      using cc x unfolding createChannel_def Let_def
      by (auto split: if_splits elim!: obind_DoneE dest!: ioctl_outcome_Done)
    show "fd \<notin> ds_open ds" using fresh n by simp
    then have "fd \<notin> fst ` set (dv_chan_fds d)" using dok(2) by (auto simp: dev_fds_def)
    then show "d1 = d\<lparr>dv_chan_fds := omap_update fd ic (dv_chan_fds d)\<rparr>" using d1' by (simp add: map_of_eq_None_iff)
  qed
  show thesis
    by (rule new [OF h(2,3) fd]) (use rest x r0 d1 in \<open>auto simp: Let_def\<close>)
qed (use none in simp)

lemma channel_ok:
  assumes "channel_create c host dev drv uid ic ev te answers inbox act ds = Done (rc, r, act', ds')" "devices_ok F ds"
    and fresh: "\<And>n q. fst (drv n q) = 0 \<Longrightarrow> cc_o_fd (snd (snd (drv n q))) \<notin> ds_open ds"
  shows "devices_ok F ds'"
proof -
  have "\<forall>n q. fst (drv n q) = 0 \<longrightarrow> cc_o_fd (snd (snd (drv n q))) \<notin> ds_open ds" using fresh by blast
  from assms(1,2) this show ?thesis
  proof (cases rule: channel_create_cases)
    case none
    then show ?thesis using assms(2) by simp
  next
    case (new a d i fd)
    let ?d = "d\<lparr>dv_chan_fds := omap_update fd ic (dv_chan_fds d)\<rparr>"
    note dok = devices_okD [OF assms(2) new(2)]
    have t: "devices_ok F (with_channel fd ic a d ds)"
      by (rule devices_ok_update [OF assms(2) new(2), where d' = ?d and C = "{}" and N = "{fd}"])
        (use dok new(3) in \<open>auto simp: dev_ok_def dev_fds_def\<close>)
    moreover have "devices_ok F (closeChannel fd a ?d (with_channel fd ic a d ds))"
      by (rule close_channel_ok [OF t]) (simp_all add: update_device_def)
    ultimately show ?thesis using new(4,5) by (cases "te = 0") auto
  qed
qed

section \<open>Runs\<close>

text \<open>
  What happens to the devices: looking one up, its last owner dropping it, channels created and closed,
  \<open>close_devices\<close>. The kernel gives out descriptors that are not open; a channel closes the descriptor
  it got.
\<close>

inductive dev_runs :: "devices \<Rightarrow> devices \<Rightarrow> bool" where
  start: "dev_runs ds ds"
| get: "dev_runs ds0 ds \<Longrightarrow> device_get max_dev fd bars n ds = (r, ds') \<Longrightarrow> fd < 0 \<or> fd \<notin> ds_open ds \<Longrightarrow> dev_runs ds0 ds'"
| delete: "dev_runs ds0 ds \<Longrightarrow> ds_dev ds a = Some d \<Longrightarrow> dev_runs ds0 (device_delete a d ds)"
| create: "dev_runs ds0 ds \<Longrightarrow> channel_create c host dev drv uid ic ev te answers inbox act ds = Done (rc, r, act', ds') \<Longrightarrow>
    \<forall>n q. fst (drv n q) = 0 \<longrightarrow> cc_o_fd (snd (snd (drv n q))) \<notin> ds_open ds \<Longrightarrow> dev_runs ds0 ds'"
| close: "dev_runs ds0 ds \<Longrightarrow> ds_dev ds a = Some d \<Longrightarrow> map_of (dv_chan_fds d) fd \<noteq> None \<Longrightarrow>
    dev_runs ds0 (closeChannel fd a d ds)"
| close_all: "dev_runs ds0 ds \<Longrightarrow> ds_dev ds a = Some d \<Longrightarrow> dev_runs ds0 (close_all_chan_fds only a d ds)"
| close_devs: "dev_runs ds0 ds \<Longrightarrow> dev_runs ds0 (close_devices ds)"

lemma close_devices_ok: "devices_ok F ds \<Longrightarrow> devices_ok F (close_devices ds)"
proof -
  have "devices_ok F ds \<Longrightarrow> devices_ok F (fold close_device ws ds)" for ws
    by (induction ws arbitrary: ds) (simp_all add: close_device_ok)
  then show "devices_ok F ds \<Longrightarrow> devices_ok F (close_devices ds)" by (simp add: close_devices_def)
qed

lemma dev_runs_ok: "dev_runs ds0 ds \<Longrightarrow> devices_ok F ds0 \<Longrightarrow> devices_ok F ds"
proof (induction rule: dev_runs.induct)
  case (create ds0 ds c host dev drv uid ic ev te answers inbox act rc r act' ds')
  then show ?case using channel_ok [of c host dev drv uid ic ev te answers inbox act ds rc r act' ds' F] by blast
qed (auto intro: get_ok delete_ok close_channel_ok close_all_ok close_devices_ok)

lemma no_devices_ok:
  assumes "ds_vec ds = []" "ds_dev ds = (\<lambda>_. None)"
  shows "devices_ok (ds_open ds) ds"
  using assms by (simp add: devices_ok_def fds_ok_def table_ok_def owned_fds_def)


text \<open>An application of it: a device is found, gets a channel, and is found again.\<close>

definition no_devices :: devices where
  "no_devices = \<lparr>ds_vec = [], ds_dev = (\<lambda>_. None), ds_next = 0, ds_open = {0, 1, 2}\<rparr>"

definition one_device :: devices where
  "one_device = snd (device_get 1 5 (Some (0, 0)) 1 no_devices)"


text \<open>C36: A request to the driver that is interrupted is repeated until it is not: the loop ends with the first
  answer that is not an interruption, and runs for ever only if there is none.\<close>

theorem ioctl_repeated:
  "ioctl_outcome drv req =
     (if \<exists>n. interrupted (drv n req) = False
      then Done (drv (LEAST n. interrupted (drv n req) = False) req) else Loops)"
proof (cases "\<exists>n. \<not> interrupted (drv n req)")
  case True
  let ?n = "LEAST n. \<not> interrupted (drv n req)"
  have before: "interrupted (drv j req)" if "j < ?n" for j using not_less_Least [OF that] by simp
  have "ioctl_loop drv req 0 = ioctl_loop drv req (0 + ?n)"
  proof (rule ioctl_loop_skip)
    fix j assume "j < 0 + ?n"
    then show "fst (drv j req) < 0 \<and> fst (snd (drv j req)) = EINTR"
      using before [of j] unfolding interrupted_def by linarith
  qed
  moreover have "ioctl_loop drv req ?n = Some (drv ?n req)"
    using LeastI_ex [OF True] unfolding interrupted_def by (subst ioctl_loop.simps) (rule if_not_P)
  ultimately have "ioctl_loop drv req 0 = Some (drv ?n req)" by (simp only: add_0)
  then show ?thesis using True by (simp add: ioctl_outcome_def)
next
  case False
  have "ioctl_loop drv req 0 = None"
    using ioctl_loop_result [of drv req 0] False by (cases "ioctl_loop drv req 0") (auto simp: interrupted_def)
  then show ?thesis using False by (simp add: ioctl_outcome_def)
qed

text \<open>
  What \<open>devices_sound\<close> does not cover: \<open>clear_devices\<close> erases elements of a vector that is indexed by
  device numbers. When device 0 has only channels of contexts and device 1 another one, a lookup of device
  0 gives device 1 afterwards.
\<close>

definition two_devices :: devices where
  "two_devices = \<lparr>ds_vec = [Some 0, Some 1],
     ds_dev = [0 \<mapsto> (nnpi_device_new 0 5)\<lparr>dv_chan_fds := [(6, True)]\<rparr>,
               1 \<mapsto> (nnpi_device_new 1 7)\<lparr>dv_chan_fds := [(8, False)]\<rparr>],
     ds_next = 2, ds_open = {5, 6, 7, 8}\<rparr>"

lemma clear_devices_shifts:
  "table_ok two_devices \<and> fst (device_get 1 9 None 0 (clear_devices True two_devices)) = Some 1"
proof
  note defs = two_devices_def nnpi_device_new_def
  have dev: "ds_dev two_devices a = Some d \<longleftrightarrow>
      a = 0 \<and> d = (nnpi_device_new 0 5)\<lparr>dv_chan_fds := [(6, True)]\<rparr>
      \<or> a = 1 \<and> d = (nnpi_device_new 1 7)\<lparr>dv_chan_fds := [(8, False)]\<rparr>" for a d
    by (auto simp: two_devices_def)
  have vec: "ds_vec two_devices = [Some 0, Some 1]" "ds_next two_devices = 2" by (simp_all add: two_devices_def)
  show "table_ok two_devices"
    unfolding table_ok_def dev vec by (auto simp: nnpi_device_new_def less_Suc_eq)
  show "fst (device_get 1 9 None 0 (clear_devices True two_devices)) = Some 1"
    by (simp add: two_devices_def clear_devices_def weak_lock_def close_all_chan_fds_def closed_chan_fds_def
        update_device_def close_fds_def nnpi_device_new_def device_get_def)
qed

end
