(* ===== verification/Loading.thy ===== *)
theory Loading
  imports Stream_Load Network_Pages Device_Table
begin

text \<open>
  A stream is loaded completely: the copies that are sent cover the device resource from the offset
  on, in order and without gaps, with the bytes of the stream.
\<close>

section \<open>Copies of blocks among the messages\<close>

definition load_cmd :: "h2c_msg \<Rightarrow> (u16 \<times> u64 \<times> nat) option" where
  "load_cmd m = (case m of H2C_SchedCopySubres ch cp mid sz off \<Rightarrow> Some (mid, off, unat sz + 1) | _ \<Rightarrow> None)"

definition sent_loads :: "addr \<Rightarrow> proc \<Rightarrow> (u16 \<times> u64 \<times> nat) list" where
  "sent_loads c s = List.map_filter load_cmd (commands (p_ctxs s c))"

text \<open>
  What every part of the loop does: no copy of a block is sent, the device resources stay, and copies of
  blocks of \<open>dr\<close> in \<open>c\<close> remain such.
\<close>

definition block_copy :: "addr \<Rightarrow> addr \<Rightarrow> addr \<Rightarrow> proc \<Rightarrow> bool" where
  "block_copy c dr a s \<longleftrightarrow> cp_ctx (o_copies s a) = c \<and> cp_devres (o_copies s a) = dr"

definition keeps :: "addr \<Rightarrow> addr \<Rightarrow> proc \<Rightarrow> proc \<Rightarrow> bool" where
  "keeps c dr s s' \<longleftrightarrow> o_devres s' = o_devres s \<and> sent_loads c s' = sent_loads c s
     \<and> (\<forall>a. block_copy c dr a s \<longrightarrow> block_copy c dr a s')"

lemma keeps_refl [simp]: "keeps c dr s s"
  by (simp add: keeps_def)

lemma keeps_trans: "keeps c dr s t \<Longrightarrow> keeps c dr t u \<Longrightarrow> keeps c dr s u"
  by (simp add: keeps_def)

lemma copy_key_eq: "copy_key x = copy_key y \<Longrightarrow> cp_ctx x = cp_ctx y \<and> cp_devres x = cp_devres y"
  by (cases x; cases y) (simp add: copy_key_def)

lemma quiet_block_copy: "quiet c' s s' \<Longrightarrow> block_copy c dr a s' = block_copy c dr a s"
proof -
  assume "quiet c' s s'"
  then have "copy_key (o_copies s' a) = copy_key (o_copies s a)" unfolding quiet_def by (metis comp_apply)
  from copy_key_eq [OF this] show ?thesis by (simp add: block_copy_def)
qed

lemma quiet_keeps: "quiet c s s' \<Longrightarrow> keeps c dr s s'"
  using quiet_block_copy [of c s s' c dr] quiet_fields(1) [of c s s']
  by (simp add: keeps_def sent_loads_def quiet_def ctx_quiet_def)

lemma sends_loads:
  assumes "sends c ms s s'"
  shows "sent_loads c s' = sent_loads c s @ List.map_filter load_cmd (filter (\<lambda>m. \<not> head_update m) ms)"
    "o_devres s' = o_devres s" "block_copy c dr a s' = block_copy c dr a s"
proof -
  show "sent_loads c s' = sent_loads c s @ List.map_filter load_cmd (filter (\<lambda>m. \<not> head_update m) ms)"
    by (simp add: sent_loads_def sends_commands [OF assms] map_filter_def)
  obtain t where t: "quiet c t s'" "o_copies t = o_copies s" "o_devres t = o_devres s"
    using sends_quiet_fields [OF assms] by metis
  show "o_devres s' = o_devres s" using quiet_fields(1) [OF t(1)] t(3) by simp
  show "block_copy c dr a s' = block_copy c dr a s" using quiet_block_copy [OF t(1)] t(2) by (simp add: block_copy_def)
qed

lemma send_keeps: "ctx_send c m s = (ok, s') \<Longrightarrow> load_cmd m = None \<Longrightarrow> keeps c dr s s'"
  using sends_loads [OF ctx_send_sends] unfolding keeps_def by (auto simp: map_filter_def split: if_splits)

lemma keeps_simps [simp]:
  "keeps c dr s (set_hostres a h s)" "keeps c dr s (s\<lparr>o_next := n\<rparr>)" "keeps c dr s (upd_db c f s)"
  "block_copy c dr a (upd_db c f s) = block_copy c dr a s"
  by (simp_all add: keeps_def sent_loads_def block_copy_def set_hostres_def upd_db_def commands_def)

lemma keeps_ctx: "(\<And>x. cx_chan (f x) = cx_chan x) \<Longrightarrow> keeps c dr s (upd_ctx c f s)"
  by (simp add: keeps_def sent_loads_def block_copy_def commands_def)

lemma keeps_set_copy: "cp_ctx cp = c \<and> cp_devres cp = dr \<Longrightarrow> keeps c dr s (set_copy a cp s)"
  by (simp add: keeps_def sent_loads_def block_copy_def set_copy_def)

section \<open>The parts of a turn\<close>

lemma create_copy_keeps:
  assumes "create_copy_op c msg s = Done (e, i, s')" "\<And>pid. load_cmd (msg pid) = None"
  shows "keeps c dr s s'"
proof (cases "ida_alloc (cx_copy_ida (p_ctxs s c))")
  case (Pair r ida)
  show ?thesis
  proof (cases r)
    case None
    then show ?thesis using assms Pair by (simp add: create_copy_op_def)
  next
    case (Some j)
    let ?s1 = "upd_ctx c (\<lambda>x. x\<lparr>cx_copy_ida := ida\<rparr>) s"
    obtain rp s2 where snd: "send_create_command c (msg (ucast j)) \<lparr>key_type = INF_OBJ_TYPE_COPY, key_id = sint j, key_id2 = -1\<rparr> ?s1
        = Done (rp, s2)" and s': "s' = s2 \<or> s' = upd_ctx c (\<lambda>x. x\<lparr>cx_copy_ida := ida_free (ucast (ucast j :: u16)) (cx_copy_ida x)\<rparr>) s2"
      using assms(1) Pair Some unfolding create_copy_op_def Let_def
      by (auto elim!: obind_DoneE split: option.splits if_splits)
    have "keeps c dr ?s1 s2"
      using snd unfolding send_create_command_def
      by (auto split: prod.splits if_splits elim!: obind_DoneE dest!: send_keeps [OF _ assms(2)] wait_create_quiet
          intro: keeps_trans [OF _ quiet_keeps])
    then have "keeps c dr s s2" by (rule keeps_trans [OF keeps_ctx, rotated]) simp
    then show ?thesis using s' by (auto intro: keeps_trans [OF _ keeps_ctx])
  qed
qed

lemma copy_create_subres_keeps:
  assumes "copy_create_subres dr s = Done (e, r, s')" "c = dr_ctx (o_devres s dr)"
  shows "keeps c dr s s'" "e = NNP_NO_ERROR \<Longrightarrow> \<exists>a. r = Some a \<and> block_copy c dr a s'"
proof -
  obtain e1 i s1 where c: "createCopy c (dr_id (o_devres s dr)) 0 False True s = Done (e1, i, s1)"
    and rest: "(if e1 \<noteq> NNP_NO_ERROR then Done (e1, None, s1)
        else case new_addr s1 of (a, s2) \<Rightarrow> Done (NNP_NO_ERROR, Some a,
           upd_db c (insertCopy i a) (set_copy a (copy_new_subres c i dr) s2))) = Done (e, r, s')"
    using assms unfolding copy_create_subres_def Let_def by (auto elim!: obind_DoneE)
  have k: "keeps c dr s s1"
    by (rule create_copy_keeps [OF c [unfolded createCopy_def]]) (simp add: load_cmd_def)
  have new: "keeps c dr s1 (upd_db c f (set_copy a (copy_new_subres c i dr) (s1\<lparr>o_next := n\<rparr>)))" for f a n
    by (intro keeps_trans [OF _ keeps_simps(3)] keeps_trans [OF _ keeps_set_copy] keeps_simps)
      (simp add: copy_new_subres_def)
  show "keeps c dr s s'"
    using rest keeps_trans [OF k new] k by (auto simp: new_addr_def split: if_splits)
  show "\<exists>a. r = Some a \<and> block_copy c dr a s'" if "e = NNP_NO_ERROR"
    using rest that by (auto simp: new_addr_def block_copy_def set_copy_def copy_new_subres_def upd_db_def split: if_splits)
qed

lemma lock_host_write_keeps:
  "lock_host_write c rs hr s = Done (e, s') \<Longrightarrow> keeps c dr s s'"
  unfolding lock_host_write_def
  by (auto split: if_splits option.splits elim!: obind_DoneE dest!: wait_for_Done
      intro: keeps_trans [OF quiet_keeps keeps_simps(1)])

lemma unlock_host_keeps: "unlock_host r hr s = (e, s') \<Longrightarrow> keeps c dr s s'"
  by (auto simp: unlock_host_def split: prod.splits)

lemma open_block_cases:
  assumes "open_block env dr c B i b s = Done (e, leave, b', s')" "bl_hostres b = null"
  obtains (left) "leave" "s' = s \<or> (\<exists>a h n. s' = set_hostres a h (s\<lparr>o_next := n\<rparr>))"
    | (created) a h n cp where "copy_create_subres dr (set_hostres a h (s\<lparr>o_next := n\<rparr>)) = Done (e, cp, s')"
        "leave = (e \<noteq> NNP_NO_ERROR)" "bl_copy b' = (case cp of Some x \<Rightarrow> x | None \<Rightarrow> null)"
proof -
  obtain y where y: "hostres_create (fst (le_opens env i)) (snd (le_opens env i)) (le_host env) (le_mmap env i)
      (le_hostres env i) (ucast B) NNP_RESOURCE_USAGE_NN_INPUT = Done y"
    using assms unfolding open_block_def by (auto elim!: obind_DoneE)
  show thesis
  proof (cases "fst y = 0")
    case False
    then show ?thesis using assms y left by (simp add: open_block_def case_prod_beta)
  next
    case True
    let ?a = "o_next s" and ?s1 = "s\<lparr>o_next := o_next s + 1\<rparr>"
    obtain rc mid h1 where m: "mapHostResource (le_map env i) (ch_id (cx_chan (p_ctxs ?s1 c))) (the (snd y)) (le_dev env)
        = Done (rc, mid, h1)"
      using assms y True unfolding open_block_def new_addr_def by (auto simp: case_prod_beta Let_def elim!: obind_DoneE)
    show ?thesis
    proof (cases "rc = 0")
      case False
      then have "leave" "s' = set_hostres ?a h1 ?s1"
        using assms y True m by (simp_all add: open_block_def case_prod_beta Let_def new_addr_def)
      then show ?thesis using left by blast
    next
      case rc: True
      then show ?thesis using assms y True m
        by (cases mid) (auto simp: open_block_def case_prod_beta Let_def new_addr_def elim!: obind_DoneE intro: created)
    qed
  qed
qed

lemma open_block_keeps:
  assumes "open_block env dr c B i b s = Done (e, leave, b', s')" "c = dr_ctx (o_devres s dr)"
    and "bl_hostres b \<noteq> null \<longrightarrow> block_copy c dr (bl_copy b) s"
  shows "keeps c dr s s' \<and> (\<not> leave \<longrightarrow> e = NNP_NO_ERROR \<and> block_copy c dr (bl_copy b') s')"
proof (cases "bl_hostres b = null")
  case False
  then show ?thesis using assms(1,3) by (auto simp: open_block_def)
next
  case True
  have new: "keeps c dr s (set_hostres a h (s\<lparr>o_next := n\<rparr>))" for a h n
    by (rule keeps_trans [OF keeps_simps(2) keeps_simps(1)])
  from assms(1) True show ?thesis
  proof (cases rule: open_block_cases)
    case left
    then show ?thesis using new by auto
  next
    case (created a h n cp)
    have "c = dr_ctx (o_devres (set_hostres a h (s\<lparr>o_next := n\<rparr>)) dr)" using assms(2) by (simp add: set_hostres_def)
    note k = copy_create_subres_keeps [OF created(1) this]
    show ?thesis using keeps_trans [OF new k(1)] k(2) created(2,3) by auto
  qed
qed

lemma schedule_copy_subres:
  assumes "scheduleCopySubres c i mid off sz s = (NNP_NO_ERROR, s')"
  shows "sends c [H2C_SchedCopySubres (chan_of c s) i mid (ucast (sz - 1)) off] s s'"
    "sz \<noteq> 0" "unat (ucast (sz - 1) :: 16 word) + 1 = unat sz"
proof -
  obtain ok where c: "ctx_send c (H2C_SchedCopySubres (chan_of c s) i mid (ucast (sz - 1)) off) s = (ok, s')"
    and le: "sz - 1 \<le> 0xffff" and ok
    using assms unfolding scheduleCopySubres_def by (auto split: if_splits prod.splits)
  then show "sends c [H2C_SchedCopySubres (chan_of c s) i mid (ucast (sz - 1)) off] s s'"
    using ctx_send_sends [OF c] by simp
  have "\<not> (- 1 :: u64) \<le> 0xffff" by (simp add: word_le_nat_alt unsigned_minus_1_eq_mask mask_eq_exp_minus_1)
  then show nz: "sz \<noteq> 0" using le by auto
  have "unat (sz - 1) \<le> 0xffff" using le by (simp add: word_le_nat_alt)
  then have "unat (ucast (sz - 1) :: 16 word) = unat (sz - 1)" by (intro unat_ucast_id) simp
  then show "unat (ucast (sz - 1) :: 16 word) + 1 = unat sz"
    using nz unat_pred [of sz] by (simp add: word_gt_0 unat_gt_0)
qed

lemma schedule_block:
  assumes "copy_schedule_subres a hr mid off sz s = Done (NNP_NO_ERROR, s')" "block_copy c dr a s"
  shows "o_devres s' = o_devres s" "block_copy c dr x s \<Longrightarrow> block_copy c dr x s'"
    "sent_loads c s' = sent_loads c s @ [(mid, off, unat sz)]"
    "off + sz \<le> dr_size (o_devres s dr)" "sz \<noteq> 0"
proof -
  have ctx: "cp_ctx (o_copies s a) = c" using assms(2) by (simp add: block_copy_def)
  obtain s1 where w: "wait_can_schedule c s = Done (True, s1)"
    and fits: "off + sz \<le> dr_size (o_devres s1 (cp_devres (o_copies s1 a)))"
    and r: "obind (pre_schedule_on hr a s1) (\<lambda>(r, s2).
             if \<not> r then Done (NNP_DEVICE_BUSY, s2)
             else let cp = o_copies s2 a; s3 = set_copy a (cp\<lparr>cp_hostres := hr, cp_hostres_map_id := mid\<rparr>) s2
               in case scheduleCopySubres c (cp_id cp) mid off sz s3 of
                    (e, s4) \<Rightarrow> if e \<noteq> NNP_NO_ERROR
                      then obind (post_schedule None a s4) (\<lambda>(_, s5). Done (e, s5)) else Done (e, s4)) = Done (NNP_NO_ERROR, s')"
    using assms(1) ctx unfolding copy_schedule_subres_def Let_def
    by (auto split: if_splits elim!: obind_DoneE simp: not_less)
  have k1: "keeps c dr s s1" using w unfolding wait_can_schedule_def
    by (auto elim!: obind_DoneE dest!: wait_for_Done intro: quiet_keeps)
  obtain s2 where p: "pre_schedule_on hr a s1 = Done (True, s2)"
    and s': "scheduleCopySubres c (cp_id (o_copies s2 a)) mid off sz
        (set_copy a ((o_copies s2 a)\<lparr>cp_hostres := hr, cp_hostres_map_id := mid\<rparr>) s2) = (NNP_NO_ERROR, s')"
    using r by (auto simp: Let_def split: if_splits prod.splits elim!: obind_DoneE)
  have k2: "keeps c dr s s2"
    by (rule keeps_trans [OF k1 quiet_keeps [OF copies_only_quiet [OF pre_schedule_on_frame [OF p]]]])
  then have "block_copy c dr a s2" using assms(2) by (simp add: keeps_def)
  then have k3: "keeps c dr s (set_copy a ((o_copies s2 a)\<lparr>cp_hostres := hr, cp_hostres_map_id := mid\<rparr>) s2)"
    by (intro keeps_trans [OF k2 keeps_set_copy]) (simp add: block_copy_def)
  note snd = schedule_copy_subres [OF s']
  note l = sends_loads [OF snd(1)]
  show "o_devres s' = o_devres s" "block_copy c dr x s \<Longrightarrow> block_copy c dr x s'"
    using l(2,3) k3 by (simp_all add: keeps_def)
  show "sent_loads c s' = sent_loads c s @ [(mid, off, unat sz)]"
    using l(1) k3 snd(3) by (simp add: keeps_def map_filter_def head_update_def load_cmd_def)
  show "sz \<noteq> 0" by (rule snd(2))
  have "block_copy c dr a s1" "o_devres s1 = o_devres s" using k1 assms(2) by (simp_all add: keeps_def)
  then show "off + sz \<le> dr_size (o_devres s dr)" using fits by (simp add: block_copy_def)
qed

section \<open>A turn that succeeds\<close>

text \<open>Errors of the driver are numbers below 256 (\<open>intel_nnpi.h\<close>, Linux error numbers).\<close>

definition small_errors :: "load_env \<Rightarrow> bool" where
  "small_errors env \<longleftrightarrow> (\<forall>i n q. fst (snd (le_map env i n q)) < 256 \<and> map_o_errno (snd (snd (le_map env i n q))) < 256)"

lemma errno_NO_ERROR: "errnoToNNPError errno k = NNP_NO_ERROR \<Longrightarrow> k = 0"
  by (auto simp: errnoToNNPError_def Let_def unat_eq_zero split: if_splits)

lemma map_rc_small:
  assumes "mapHostResource (le_map env i) ch h d = Done (rc, mid, h')" "small_errors env" "rc \<noteq> 0"
  shows "errnoToNNPError errno (of_nat rc) \<noteq> NNP_NO_ERROR"
proof -
  have "rc < 256"
    using assms unfolding mapHostResource_def small_errors_def ioctl_rc_def ioctl_outcome_def
    by (auto split: if_splits option.splits elim!: obind_DoneE dest!: ioctl_loop_result simp: word_less_nat_alt)
  then have "(of_nat rc :: u8) \<noteq> 0" using assms(3) by (auto simp: word_of_nat_eq_0_iff dest: dvd_imp_le)
  then show ?thesis using errno_NO_ERROR by blast
qed

lemma open_block_success:
  assumes "open_block env dr c B i b s = Done (NNP_NO_ERROR, leave, b', s')" "small_errors env"
  shows "\<not> leave"
proof
  assume leave
  then have "bl_hostres b = null" using assms(1) by (auto simp: open_block_def split: if_splits)
  then show False
    using assms \<open>leave\<close> map_rc_small [OF _ assms(2)] unfolding open_block_def new_addr_def Let_def
    by (auto split: if_splits option.splits elim!: obind_DoneE)
qed

text \<open>What has happened in a turn that succeeded: a block is open, and \<open>n\<close> bytes have been read into it.\<close>

lemma load_turn_cases:
  assumes "load_turn env dr c B read_cb k ld s = Done (NNP_NO_ERROR, again, ld', s')" "small_errors env"
  obtains b s1 s2 n bs st s3 where
    "open_block env dr c B (ld_idx ld) (ld_blocks ld ! ld_idx ld) s = Done (NNP_NO_ERROR, False, b, s1)"
    "lock_host_write c (le_begin env k) (bl_hostres b) s1 = Done (NNP_NO_ERROR, s2)"
    "read_cb (ld_stream ld) (unat B) = (n, bs, st)" "length bs \<le> unat B" "0 \<le> n"
    "unlock_host (le_end env k) (bl_hostres b) s2 = (NNP_NO_ERROR, s3)" "again = (n = uint B)"
    "ld_stream ld' = st"
    "ld_blocks ld' = (ld_blocks ld)[ld_idx ld := b\<lparr>bl_data := bs @ drop (length bs) (bl_data b)\<rparr>]"
    "n = 0 \<Longrightarrow> s' = s3 \<and> ld_carried ld' = ld_carried ld \<and> ld_offset ld' = ld_offset ld \<and> ld_idx ld' = ld_idx ld"
    "n > 0 \<Longrightarrow> copy_schedule_subres (bl_copy b) (bl_hostres b) (bl_map_id b) (ld_offset ld) (of_int n) s3 = Done (NNP_NO_ERROR, s')
       \<and> ld_carried ld' = ld_carried ld @ [(bl_map_id b, ld_offset ld, take (nat n) (bs @ drop (length bs) (bl_data b)))]
       \<and> ld_offset ld' = ld_offset ld + of_int n \<and> ld_idx ld' = (ld_idx ld + 1) mod 2"
proof -
  obtain e leave b s1 where o1: "open_block env dr c B (ld_idx ld) (ld_blocks ld ! ld_idx ld) s = Done (e, leave, b, s1)"
    using assms(1) unfolding load_turn_def by (auto elim!: obind_DoneE)
  have nl: "\<not> leave"
  proof
    assume leave
    then have "e = NNP_NO_ERROR" using assms(1) o1 unfolding load_turn_def by simp
    then show False using open_block_success [OF _ assms(2)] o1 \<open>leave\<close> by blast
  qed
  then have nl': "leave = False" by simp
  have e: "e = NNP_NO_ERROR"
    using o1 nl unfolding open_block_def new_addr_def Let_def by (auto split: if_splits option.splits elim!: obind_DoneE)
  obtain e2 s2 where l: "lock_host_write c (le_begin env k) (bl_hostres b) s1 = Done (e2, s2)"
    using assms(1) o1 nl unfolding load_turn_def by (auto simp: Let_def elim!: obind_DoneE)
  have e2: "e2 = NNP_NO_ERROR" using assms(1) o1 nl l unfolding load_turn_def by (cases "e2 = NNP_NO_ERROR") (auto simp: Let_def)
  obtain n bs st where rd: "read_cb (ld_stream ld) (unat B) = (n, bs, st)" by (cases "read_cb (ld_stream ld) (unat B)")
  obtain e3 s3 where u: "unlock_host (le_end env k) (bl_hostres b) s2 = (e3, s3)" by (cases "unlock_host (le_end env k) (bl_hostres b) s2")
  have ok: "length bs \<le> unat B" "0 \<le> n" "e3 = NNP_NO_ERROR"
    using assms(1) o1 nl l e2 rd u unfolding load_turn_def by (auto simp: Let_def split: if_splits)
  show thesis
    by (rule that [OF o1 [unfolded e nl'] l [unfolded e2] rd ok(1,2) u [unfolded ok(3)]])
      (use assms(1) o1 nl l e e2 rd u ok in \<open>auto simp: load_turn_def Let_def split: if_splits elim!: obind_DoneE\<close>)
qed

text \<open>Chunks that follow one another in the device resource, from an offset to another.\<close>

fun placed :: "u64 \<Rightarrow> (u16 \<times> u64 \<times> u8 list) list \<Rightarrow> u64 \<Rightarrow> bool" where
  "placed o1 [] o2 \<longleftrightarrow> o1 = o2"
| "placed o1 ((mid, off, bs) # xs) o2 \<longleftrightarrow> off = o1 \<and> placed (o1 + of_nat (length bs)) xs o2"

lemma placed_snoc: "placed o1 xs off \<Longrightarrow> placed o1 (xs @ [(mid, off, bs)]) (off + of_nat (length bs))"
  by (induction o1 xs off rule: placed.induct) auto

abbreviation chunk_bytes :: "u16 \<times> u64 \<times> u8 list \<Rightarrow> u8 list" where
  "chunk_bytes x \<equiv> snd (snd x)"

text \<open>The invariant of the loop that does not speak of the stream.\<close>

definition load_inv :: "addr \<Rightarrow> addr \<Rightarrow> u64 \<Rightarrow> u32 \<Rightarrow> proc \<Rightarrow> 'c load \<Rightarrow> proc \<Rightarrow> bool" where
  "load_inv c dr offset B s0 ld s \<longleftrightarrow>
     o_devres s = o_devres s0 \<and> length (ld_blocks ld) = 2 \<and> ld_idx ld < 2
     \<and> (\<forall>b \<in> set (ld_blocks ld). bl_hostres b \<noteq> null \<longrightarrow> block_copy c dr (bl_copy b) s)
     \<and> placed offset (ld_carried ld) (ld_offset ld)
     \<and> (\<forall>x \<in> set (ld_carried ld). chunk_bytes x \<noteq> [] \<and> length (chunk_bytes x) \<le> unat B)
     \<and> sent_loads c s = sent_loads c s0 @ map (\<lambda>(mid, off, bs). (mid, off, length bs)) (ld_carried ld)"

lemma of_int_length: "length bs \<le> unat (B :: u32) \<Longrightarrow> unat (of_int (int (length bs)) :: u64) = length bs"
  using unat_lt [of B] by (simp add: unat_of_nat take_bit_eq_mod)

lemma load_turn_inv:
  assumes "load_turn env dr c B read_cb k ld s = Done (NNP_NO_ERROR, again, ld', s')" "small_errors env"
    and "load_inv c dr offset B s0 ld s" "c = dr_ctx (o_devres s0 dr)"
    and read: "\<forall>n bs st. read_cb (ld_stream ld) (unat B) = (n, bs, st) \<longrightarrow> 0 \<le> n \<longrightarrow> n = int (length bs)"
  shows "load_inv c dr offset B s0 ld' s'
    \<and> (\<exists>bs. read_cb (ld_stream ld) (unat B) = (int (length bs), bs, ld_stream ld') \<and> length bs \<le> unat B
       \<and> again = (length bs = unat B) \<and> concat (map chunk_bytes (ld_carried ld')) = concat (map chunk_bytes (ld_carried ld)) @ bs)
    \<and> (again \<longrightarrow> B \<noteq> 0 \<longrightarrow> ld_offset ld' = ld_offset ld + ucast B \<and> ld_offset ld' \<le> dr_size (o_devres s0 dr))"
  using assms(1,2)
proof (cases rule: load_turn_cases)
  case (1 b s1 s2 n bs st s3)
  note inv = assms(3) [unfolded load_inv_def]
  have n: "n = int (length bs)" using read 1(3,5) by blast
  have ag: "again = (length bs = unat B)"
  proof -
    have "uint B = int (unat B)" by simp
    then show ?thesis using 1(7) n by linarith
  qed
  have chunk: "take (nat n) (bs @ drop (length bs) (bl_data b)) = bs" using n by simp
  have "ld_blocks ld ! ld_idx ld \<in> set (ld_blocks ld)" using inv by simp
  then have ob: "keeps c dr s s1 \<and> (\<not> False \<longrightarrow> NNP_NO_ERROR = NNP_NO_ERROR \<and> block_copy c dr (bl_copy b) s1)"
    using inv assms(4) by (intro open_block_keeps [OF 1(1)]) auto
  have k3: "keeps c dr s1 s3"
    by (rule keeps_trans [OF lock_host_write_keeps [OF 1(2)] unlock_host_keeps [OF 1(6)]])
  have k: "keeps c dr s s3" using ob k3 keeps_trans by blast
  have bc: "block_copy c dr (bl_copy b) s3" using ob k3 by (simp add: keeps_def)
  have blocks: "\<forall>b \<in> set (ld_blocks ld'). bl_hostres b \<noteq> null \<longrightarrow> block_copy c dr (bl_copy b) t"
    if "\<And>a. block_copy c dr a s3 \<Longrightarrow> block_copy c dr a t" for t
  proof (intro ballI impI)
    fix x assume x: "x \<in> set (ld_blocks ld')" "bl_hostres x \<noteq> null"
    then consider "bl_copy x = bl_copy b" | "x \<in> set (ld_blocks ld)"
      using set_update_subset_insert unfolding 1(9) by fastforce
    then have "block_copy c dr (bl_copy x) s3"
    proof cases
      case 2
      then show ?thesis using inv k x(2) unfolding keeps_def by blast
    qed (use bc in simp)
    then show "block_copy c dr (bl_copy x) t" by (rule that)
  qed
  show ?thesis
  proof (cases "n = 0")
    case True
    note z = 1(10) [OF True]
    have "load_inv c dr offset B s0 ld' s'" using z inv k blocks [of s3] 1(9) unfolding load_inv_def keeps_def by simp
    moreover have "again \<longrightarrow> B = 0" using 1(7) True uint_0_iff [of B] by auto
    ultimately show ?thesis using 1(3,4,8) ag z n True by auto
  next
    case False
    note sc = 1(11) [unfolded chunk]
    have pos: "n > 0" using False 1(5) by simp
    note sch = schedule_block [OF conjunct1 [OF sc [OF pos]] bc]
    have len: "unat (of_int n :: u64) = length bs" using of_int_length 1(4) n by simp
    have off: "of_int n = (of_nat (length bs) :: u64)" using n by simp
    have bl: "\<forall>b \<in> set (ld_blocks ld'). bl_hostres b \<noteq> null \<longrightarrow> block_copy c dr (bl_copy b) s'"
      by (rule blocks) (rule sch(2))
    have "placed offset (ld_carried ld') (ld_offset ld')"
      using sc [OF pos] placed_snoc inv unfolding off by simp
    moreover have "sent_loads c s' = sent_loads c s0 @ map (\<lambda>(mid, off, bs). (mid, off, length bs)) (ld_carried ld')"
      using sc [OF pos] sch(3) len k inv unfolding keeps_def by simp
    moreover have "o_devres s' = o_devres s0" using sch(1) k inv unfolding keeps_def by simp
    ultimately have "load_inv c dr offset B s0 ld' s'"
      using inv bl sc [OF pos] 1(4,9) n pos unfolding load_inv_def by auto
    moreover have "ld_offset ld' = ld_offset ld + ucast B \<and> ld_offset ld' \<le> dr_size (o_devres s0 dr)" if "again"
    proof -
      have "n = uint B" using that 1(7) by blast
      then have "of_int n = (ucast B :: u64)" by (simp only: ucast_eq)
      moreover have "o_devres s3 = o_devres s0" using inv k by (simp add: keeps_def)
      ultimately show ?thesis using conjunct2 [OF sc [OF pos]] sch(4) by simp
    qed
    moreover have "read_cb (ld_stream ld) (unat B) = (int (length bs), bs, ld_stream ld')" using 1(3,8) n by simp
    moreover have "concat (map chunk_bytes (ld_carried ld')) = concat (map chunk_bytes (ld_carried ld)) @ bs"
      using sc [OF pos] by simp
    ultimately show ?thesis using ag 1(4) by blast
  qed
qed

lemma load_turn_again:
  assumes "load_turn env dr c B read_cb k ld s = Done (e, True, ld', s')"
  shows "e = NNP_NO_ERROR"
  using assms unfolding load_turn_def Let_def
  by (auto split: if_splits prod.splits elim!: obind_DoneE)

text \<open>Induction over a run of the loop.\<close>

lemma load_loop_run:
  assumes "load_loop turn k ld s = Some (Done (e, ld', s'))"
    and last: "\<And>k ld s ld' s'. turn k ld s = Done (e, False, ld', s') \<Longrightarrow> P k ld s ld' s'"
    and step: "\<And>k ld s e1 ld1 s1 ld' s'. turn k ld s = Done (e1, True, ld1, s1) \<Longrightarrow> P (Suc k) ld1 s1 ld' s' \<Longrightarrow> P k ld s ld' s'"
  shows "P k ld s ld' s'"
proof -
  have "P k ld s ld' s'" if run: "load_loop turn k ld s = Some r" and "r = Done (e, ld', s')" for r
  proof (rule load_loop.raw_induct [where P = "\<lambda>t k ld s r. t = turn \<longrightarrow> r = Done (e, ld', s') \<longrightarrow> P k ld s ld' s'",
        OF _ run, rule_format, OF _ refl that(2)])
    fix lp t k ld s r
    assume IH: "\<And>t k ld s y. lp t k ld s = Some y \<Longrightarrow> t = turn \<Longrightarrow> y = Done (e, ld', s') \<Longrightarrow> P k ld s ld' s'"
      and body: "(case t k ld s of Waits \<Rightarrow> Some Waits | Loops \<Rightarrow> Some Loops | Undefined \<Rightarrow> Some Undefined
         | Done (e, again, ld', s') \<Rightarrow> if again then lp t (Suc k) ld' s' else Some (Done (e, ld', s'))) = Some r"
      and eq: "t = turn" "r = Done (e, ld', s')"
    obtain e1 again ld1 s1 where t: "turn k ld s = Done (e1, again, ld1, s1)"
      using body eq by (cases "turn k ld s") auto
    show "P k ld s ld' s'"
    proof (cases again)
      case True
      then have t': "turn k ld s = Done (e1, True, ld1, s1)" using t by simp
      have "lp turn (Suc k) ld1 s1 = Some (Done (e, ld', s'))" using body eq t True by simp
      then show ?thesis using step [OF t'] IH [OF _ refl refl] by simp
    next
      case False
      then show ?thesis using body eq t last [of k ld s ld1 s1] by simp
    qed
  qed
  then show ?thesis using assms(1) by blast
qed

section \<open>The end of the loop\<close>

lemma send_keeps_any: "ctx_send c' m s = (ok, s') \<Longrightarrow> load_cmd m = None \<Longrightarrow> keeps c dr s s'"
proof (cases "c' = c")
  case False
  assume "ctx_send c' m s = (ok, s')"
  then show ?thesis using False
    by (auto simp: ctx_send_def keeps_def sent_loads_def block_copy_def upd_chan_def split: prod.splits)
qed (simp add: send_keeps)

lemma copy_destroy_keeps: "keeps c dr s (snd (copy_destroy a s))"
  unfolding copy_destroy_def destroyCopy_def
  by (auto split: prod.splits dest!: send_keeps_any [where c = c and dr = dr] simp: load_cmd_def)

lemma wait_blocks_keeps: "wait_blocks env c i bs s = Done s' \<Longrightarrow> keeps c dr s s'"
proof (induction env c i bs s rule: wait_blocks.induct)
  case (2 env c i b bs s)
  show ?case
  proof (cases "bl_hostres b = null")
    case False
    then obtain e s1 where l: "lock_host_write c (le_wait_begin env i) (bl_hostres b) s = Done (e, s1)"
      and r: "wait_blocks env c (Suc i) bs (snd (unlock_host (le_wait_end env i) (bl_hostres b) s1)) = Done s'"
      using "2.prems" by (auto elim!: obind_DoneE)
    have "keeps c dr s1 (snd (unlock_host (le_wait_end env i) (bl_hostres b) s1))"
      by (rule unlock_host_keeps [OF prod.collapse [symmetric]])
    then show ?thesis
      using "2.IH"(2) [OF False l refl r] lock_host_write_keeps [OF l] keeps_trans by blast
  qed (use 2 in simp)
qed simp

lemma release_blocks_keeps: "release_blocks env c i bs s = Done s' \<Longrightarrow> keeps c dr s s'"
proof (induction bs arbitrary: i s)
  case (Cons b bs)
  obtain s1 where "s1 = s" and r: "release_blocks env c (Suc i) bs
      (if bl_copy b \<noteq> null then snd (copy_destroy (bl_copy b) s1) else s1) = Done s'"
    using Cons.prems by (auto split: if_splits elim!: obind_DoneE)
  have "keeps c dr s (if bl_copy b \<noteq> null then snd (copy_destroy (bl_copy b) s) else s)"
    using copy_destroy_keeps by simp
  then show ?case using keeps_trans Cons.IH [OF r] \<open>s1 = s\<close> by blast
qed simp

lemma placed_end: "placed o1 xs o2 \<Longrightarrow> o2 = o1 + of_nat (length (concat (map chunk_bytes xs)))"
  by (induction o1 xs o2 rule: placed.induct) (auto simp: algebra_simps)

section \<open>Streams\<close>

text \<open>
  The contract of a stream that is read in pieces of \<open>room\<close> bytes: it gives its bytes in order, a short
  piece only at the end. \<open>rest\<close> are the bytes that are left.
\<close>

locale byte_stream =
  fixes read_cb :: "'c stream_read"
    and rest :: "'c \<Rightarrow> u8 list"
    and sound :: "'c \<Rightarrow> bool"
    and room :: u32
  assumes read_fail_or: "sound st \<Longrightarrow> read_cb st (unat room) = (n, bs, st') \<Longrightarrow> 0 \<le> n \<Longrightarrow>
      n = int (length bs) \<and> rest st = bs @ rest st' \<and> sound st' \<and> (length bs < unat room \<longrightarrow> rest st' = [])"
begin

lemma loop_complete:
  assumes "load_loop (load_turn env dr c room read_cb) k ld s = Some (Done (NNP_NO_ERROR, ld', s'))" "small_errors env"
    and "load_inv c dr offset room s0 ld s" "c = dr_ctx (o_devres s0 dr)" "sound (ld_stream ld)"
  shows "load_inv c dr offset room s0 ld' s'
    \<and> concat (map chunk_bytes (ld_carried ld')) = concat (map chunk_bytes (ld_carried ld)) @ rest (ld_stream ld)"
proof -
  let ?P = "\<lambda>k ld s ld' s'. load_inv c dr offset room s0 ld s \<longrightarrow> sound (ld_stream ld) \<longrightarrow>
    load_inv c dr offset room s0 ld' s'
    \<and> concat (map chunk_bytes (ld_carried ld')) = concat (map chunk_bytes (ld_carried ld)) @ rest (ld_stream ld)"
  have turn: "load_inv c dr offset room s0 ld' s' \<and> sound (ld_stream ld')
      \<and> concat (map chunk_bytes (ld_carried ld')) @ rest (ld_stream ld') = concat (map chunk_bytes (ld_carried ld)) @ rest (ld_stream ld)
      \<and> (again \<or> rest (ld_stream ld') = [])"
    if t: "load_turn env dr c room read_cb k ld s = Done (NNP_NO_ERROR, again, ld', s')"
      and inv: "load_inv c dr offset room s0 ld s" and sound: "sound (ld_stream ld)" for k ld s again ld' s'
  proof -
    have len: "\<forall>n bs st. read_cb (ld_stream ld) (unat room) = (n, bs, st) \<longrightarrow> 0 \<le> n \<longrightarrow> n = int (length bs)"
      using read_fail_or [OF sound] by blast
    note i = load_turn_inv [OF t assms(2) inv assms(4) len]
    then obtain bs where bs: "read_cb (ld_stream ld) (unat room) = (int (length bs), bs, ld_stream ld')" "length bs \<le> unat room"
      "again = (length bs = unat room)"
      "concat (map chunk_bytes (ld_carried ld')) = concat (map chunk_bytes (ld_carried ld)) @ bs" by blast
    then show ?thesis using i read_fail_or [OF sound bs(1)] by auto
  qed
  have "?P k ld s ld' s'"
  proof (rule load_loop_run [OF assms(1), where P = ?P])
    show "?P k ld s ld' s'" if "load_turn env dr c room read_cb k ld s = Done (NNP_NO_ERROR, False, ld', s')" for k ld s ld' s'
      using turn [OF that] by auto
    show "?P k ld s ld' s'" if "load_turn env dr c room read_cb k ld s = Done (e1, True, ld1, s1)" "?P (Suc k) ld1 s1 ld' s'"
      for k ld s e1 ld1 s1 ld' s'
      using turn [OF that(1) [unfolded load_turn_again [OF that(1)]]] that(2) by auto
  qed
  then show ?thesis using assms(3,5) by blast
qed

lemma stream_complete:
  assumes "load_stream env dr offset read_cb st s = Done (NNP_NO_ERROR, ld, s')" "small_errors env" "sound st"
    and room: "calcOptimalBlockSize (dr_size (o_devres s dr) - offset) = room"
  shows "concat (map chunk_bytes (ld_carried ld)) = rest st \<and> placed offset (ld_carried ld) (offset + of_nat (length (rest st)))
    \<and> (\<forall>x \<in> set (ld_carried ld). chunk_bytes x \<noteq> [] \<and> length (chunk_bytes x) \<le> unat room)
    \<and> sent_loads (dr_ctx (o_devres s dr)) s' = sent_loads (dr_ctx (o_devres s dr)) s
        @ map (\<lambda>(mid, off, bs). (mid, off, length bs)) (ld_carried ld)"
proof -
  let ?c = "dr_ctx (o_devres s dr)"
  let ?ld = "\<lparr>ld_blocks = [no_block, no_block], ld_idx = 0, ld_offset = offset, ld_stream = st, ld_carried = []\<rparr>"
  obtain s1 s2 where l: "load_loop (load_turn env dr ?c room read_cb) 0 ?ld s = Some (Done (NNP_NO_ERROR, ld, s1))"
    and w: "wait_blocks env ?c 0 (ld_blocks ld) s1 = Done s2" and r: "release_blocks env ?c 0 (ld_blocks ld) s2 = Done s'"
    using assms(1) unfolding load_stream_def Let_def room
    by (auto elim!: obind_DoneE simp: of_loop_def split: option.splits)
  have start: "load_inv ?c dr offset room s ?ld s" by (simp add: load_inv_def no_block_def)
  have fin: "load_inv ?c dr offset room s ld s1 \<and> concat (map chunk_bytes (ld_carried ld)) = rest st"
    using loop_complete [OF l assms(2) start refl] assms(3) by simp
  have "keeps ?c dr s1 s'" using keeps_trans [OF wait_blocks_keeps [OF w] release_blocks_keeps [OF r]] .
  then show ?thesis using fin placed_end [of offset "ld_carried ld" "ld_offset ld"] unfolding load_inv_def keeps_def by auto
qed

end

text \<open>The two streams of the library: a buffer, and a file that holds some content.\<close>

definition buf_rest :: "buf_stream option \<Rightarrow> u8 list" where
  "buf_rest s = (case s of None \<Rightarrow> [] | Some b \<Rightarrow> drop (unat (buf_pos b)) (buffer b))"

definition buf_sound :: "buf_stream option \<Rightarrow> bool" where
  "buf_sound s \<longleftrightarrow> (case s of None \<Rightarrow> True | Some b \<Rightarrow> unat (bufferSize b) = length (buffer b) \<and> buf_pos b \<le> bufferSize b)"

definition file_of :: "u8 list \<Rightarrow> nat \<Rightarrow> nat \<Rightarrow> u8 list \<times> bool" where
  "file_of content k sz = (take sz (drop (k * sz) content), length content < Suc k * sz)"

interpretation buf: byte_stream buf_stream_read_cb buf_rest buf_sound room for room
proof (unfold_locales, goal_cases)
  case (1 st n bs st')
  show ?case
  proof (cases st)
    case None
    then show ?thesis using 1 by (simp add: buf_stream_read_cb_def)
  next
    case (Some b)
    note snd = 1(1) [unfolded Some buf_sound_def option.case]
    show ?thesis
    proof (cases "buf_pos b \<ge> bufferSize b")
      case True
      then have "unat (buf_pos b) \<ge> length (buffer b)" using snd by (simp add: word_le_nat_alt)
      then show ?thesis using 1 Some True by (auto simp: buf_stream_read_cb_def buf_rest_def)
    next
      case False
      define m where "m = min (bufferSize b - buf_pos b) (of_nat (unat room) :: u64)"
      have m_ucast: "min (bufferSize b - buf_pos b) (ucast room) = m" by (simp add: m_def)
      have le: "buf_pos b \<le> bufferSize b" using False by simp
      have r: "unat (of_nat (unat room) :: u64) = unat room"
        using unat_lt [of room] unfolding unat_of_nat take_bit_eq_mod by (intro mod_less) simp
      have unat_m: "unat m = min (length (buffer b) - unat (buf_pos b)) (unat room)"
        using snd unat_sub_no_wrap [OF le] r unfolding m_def min_def word_le_nat_alt by auto
      have fit: "unat (buf_pos b) + unat m \<le> length (buffer b)"
      proof -
        have "unat (buf_pos b) \<le> length (buffer b)" using snd by (simp add: word_le_nat_alt)
        then show ?thesis unfolding unat_m by linarith
      qed
      have pos: "unat (buf_pos b + m) = unat (buf_pos b) + unat m"
        using fit snd unat_lt [of "bufferSize b"] by (intro unat_add_no_wrap) simp
      have "n = uint m \<and> bs = take (unat m) (drop (unat (buf_pos b)) (buffer b))
          \<and> (st' = Some (b\<lparr>buf_pos := buf_pos b + m\<rparr>))"
        using 1(2) Some False by (auto simp: buf_stream_read_cb_def Let_def word_gt_0 m_ucast split: if_splits)
      then have r: "n = int (unat m)" "bs = take (unat m) (drop (unat (buf_pos b)) (buffer b))"
        "st' = Some (b\<lparr>buf_pos := buf_pos b + m\<rparr>)" by simp_all
      have rest: "buf_rest st = drop (unat (buf_pos b)) (buffer b)"
        "buf_rest st' = drop (unat m) (drop (unat (buf_pos b)) (buffer b))"
        unfolding Some r(3) by (simp_all add: buf_rest_def pos add.commute [of "unat m"])
      have len: "length bs = unat m" using fit unfolding r(2) by simp
      have "buf_rest st = bs @ buf_rest st'" unfolding rest r(2) by (rule append_take_drop_id [symmetric])
      moreover have "buf_sound st'"
        unfolding r(3) using fit snd by (simp add: buf_sound_def word_le_nat_alt pos)
      moreover have "buf_rest st' = []" if "length bs < unat room"
        unfolding rest drop_eq_Nil length_drop using that unfolding len unat_m by linarith
      moreover have "n = int (length bs)" unfolding len by (rule r(1))
      ultimately show ?thesis by blast
    qed
  qed
qed

interpretation fil: byte_stream "file_stream_read_cb (file_of content)" "\<lambda>k. drop (k * unat room) content" "\<lambda>_. True" room
  for content room
proof (unfold_locales, goal_cases)
  case (1 k n bs k')
  have "bs = take (unat room) (drop (k * unat room) content)" "k' = Suc k" "n = int (length bs)"
    using 1 by (auto simp: file_stream_read_cb_def file_of_def split: if_splits)
  moreover have "drop (Suc k * unat room) content = drop (unat room) (drop (k * unat room) content)"
    by (simp add: add.commute)
  moreover have "drop (k * unat room) content = take (unat room) (drop (k * unat room) content)
      @ drop (unat room) (drop (k * unat room) content)"
    by (rule append_take_drop_id [symmetric])
  ultimately show ?case by simp
qed

section \<open>An example\<close>

text \<open>
  Three bytes go to a resource of 64. The card's answer to the creation of the copy is there already, and the
  response thread will read that the copy has been executed.
\<close>

abbreviation done_ev :: c2h_msg where
  "done_ev \<equiv> C2H_Event (zero_report\<lparr>event_code := NNP_IPC_EXECUTE_COPY_SUBRES_SUCCESS\<rparr>)"

definition load_proc :: proc where
  "load_proc = upd_ctx 1 (\<lambda>x. x\<lparr>cx_create_reply := [(\<lparr>key_type = INF_OBJ_TYPE_COPY, key_id = 0, key_id2 = -1\<rparr>,
     zero_report\<lparr>event_code := NNP_IPC_CREATE_COPY_SUCCESS\<rparr>)]\<rparr>) (sample_proc (\<lambda>_. 16) [Rd_Msg done_ev []])"

definition load_sample :: load_env where
  "load_sample = \<lparr>le_dev = nnpi_device_new 0 5, le_host = Some 9, le_opens = (\<lambda>_. (9, 9)),
     le_mmap = (\<lambda>_. Some 0x1000), le_hostres = (\<lambda>_ r. (0, 0, r\<lparr>chr_user_handle := 2\<rparr>)),
     le_map = (\<lambda>_ _ r. (0, 0, r\<lparr>map_o_map_id := 7, map_o_errno := 0\<rparr>)), le_unmap = (\<lambda>_ _ r. (0, 0, r)), le_errno = 0,
     le_begin = (\<lambda>_. []), le_end = (\<lambda>_. Ioctl_Ok), le_wait_begin = (\<lambda>_. []), le_wait_end = (\<lambda>_. Ioctl_Ok)\<rparr>"

definition load_block_of :: "nat \<Rightarrow> u8 list \<Rightarrow> load_block" where
  "load_block_of n bs = \<lparr>bl_hostres = 100, bl_mapped = True, bl_map_id = 7, bl_copy = 101, bl_data = bs @ replicate n 0\<rparr>"

definition load_host :: hostres where
  "load_host = hostres_new 4096 NNP_RESOURCE_USAGE_NN_INPUT 2 0x1000 True"

text \<open>The state of the context while the copy's end has not been read.\<close>

definition copy_pending :: "objdb \<Rightarrow> proc \<Rightarrow> bool" where
  "copy_pending db s \<longleftrightarrow> cx_finalize_in_progress (p_ctxs s 1) = 0 \<and> cx_critical_error (p_ctxs s 1) = None
     \<and> cx_objdb (p_ctxs s 1) = db \<and> ch_inbox (cx_chan (p_ctxs s 1)) = [Rd_Msg done_ev []]
     \<and> ch_running (cx_chan (p_ctxs s 1)) \<and> \<not> ch_killed (cx_chan (p_ctxs s 1))
     \<and> ch_kernel (cx_chan (p_ctxs s 1)) = (\<lambda>_. 16)"

definition copy_sent :: "proc \<Rightarrow> bool" where
  "copy_sent s \<longleftrightarrow> lock_cpu_check (o_hostres s 100) = NNP_NO_ERROR \<and> m_readers (o_hostres s 100) = 1
     \<and> \<not> broken (o_hostres s 100) \<and> \<not> m_cpu_sync_needed (o_hostres s 100)
     \<and> o_copies s 101 = (copy_new_subres 1 0 3)\<lparr>cp_scheduled := True, cp_hostres := 100, cp_hostres_map_id := 7\<rparr>
     \<and> copy_pending (insertCopy 0 101 objdb_new) s"

lemma load_msg_sizes [simp]:
  "msg_size (H2C_CopyOp a b d e f g h i j k l) = 16" "msg_size (H2C_SchedCopySubres a b q r t) = 16"
  by (simp_all add: msg_size_def msg_qwords_def layout_bits_def h2c_ChanInferenceCopyOp_def
      h2c_ChanInferenceSchedCopySubres_def)

lemma block_64: "calcOptimalBlockSize 64 = 4096"
  unfolding calcOptimalBlockSize_def by (subst while_unfold) simp

lemma load_proc_simps:
  "dr_ctx (o_devres load_proc 3) = 1" "dr_id (o_devres load_proc 3) = 0" "dr_size (o_devres load_proc 3) = 64"
  "o_next load_proc = 100"
  by (simp_all add: load_proc_def sample_defs)

lemma load_sample_simps:
  "le_begin load_sample i = []" "le_end load_sample i = Ioctl_Ok" "le_wait_begin load_sample i = []"
  "le_wait_end load_sample i = Ioctl_Ok" "le_unmap load_sample i n q = (0, 0, q)" "le_dev load_sample = nnpi_device_new 0 5"
  by (simp_all add: load_sample_def)

lemma load_block_simps:
  "bl_hostres (load_block_of n bs) = 100" "bl_mapped (load_block_of n bs)" "bl_map_id (load_block_of n bs) = 7"
  "bl_copy (load_block_of n bs) = 101" "bl_data (load_block_of n bs) = bs @ replicate n 0"
  "load_block_of n bs\<lparr>bl_data := bs' @ replicate m 0\<rparr> = load_block_of m bs'"
  by (simp_all add: load_block_of_def)

lemmas send_simps = ctx_send_def chan_send_def chan_write_def sys_write_def upd_chan_def

lemma create_pending:
  "\<exists>s1. createCopy 1 0 0 False True (set_hostres 100 h (load_proc\<lparr>o_next := 101\<rparr>)) = Done (NNP_NO_ERROR, 0, s1)
     \<and> o_hostres s1 100 = h \<and> o_next s1 = 101 \<and> o_devres s1 = o_devres load_proc \<and> copy_pending objdb_new s1"
  by (simp add: createCopy_def load_proc_def sample_defs create_copy_op_def ida_alloc_def ida_init_def
      send_create_command_def send_simps set_hostres_def wait_create_command_def wait_for_now reply_ready_def
      obj_less_def Let_def copy_pending_def)

lemma open_pending:
  "\<exists>s1. open_block load_sample 3 1 4096 0 no_block load_proc = Done (NNP_NO_ERROR, False, load_block_of 4096 [], s1)
     \<and> o_hostres s1 100 = load_host \<and> o_copies s1 101 = copy_new_subres 1 0 3 \<and> dr_size (o_devres s1 3) = 64
     \<and> copy_pending (insertCopy 0 101 objdb_new) s1"
proof -
  let ?s = "set_hostres 100 load_host (load_proc\<lparr>o_next := 101\<rparr>)"
  have host: "hostres_create (fst (le_opens load_sample 0)) (snd (le_opens load_sample 0)) (le_host load_sample)
      (le_mmap load_sample 0) (le_hostres load_sample 0) 4096 NNP_RESOURCE_USAGE_NN_INPUT = Done (0, Some load_host)"
    by (simp add: load_sample_def hostres_create_def hostproc_get_def Let_def load_host_def)
  have map: "mapHostResource (le_map load_sample 0) ch load_host (le_dev load_sample) = Done (0, Some 7, load_host)" for ch
    by (simp add: load_sample_def mapHostResource_def nnpi_device_new_def ioctl_outcome_def ioctl_rc_def
        ioctl_loop.simps [of _ _ 0])
  obtain s1 where c: "createCopy 1 0 0 False True ?s = Done (NNP_NO_ERROR, 0, s1)" and f: "o_hostres s1 100 = load_host"
    "o_next s1 = 101" "o_devres s1 = o_devres load_proc" "copy_pending objdb_new s1"
    using create_pending [of load_host] by blast
  have o: "o_devres ?s = o_devres load_proc" by (simp add: set_hostres_def)
  show ?thesis using f
    by (simp add: open_block_def no_block_def host map new_addr_def load_proc_simps o c copy_create_subres_def
        upd_db_def set_copy_def load_block_of_def copy_pending_def)
qed

lemma turn_sent:
  "\<exists>ld s1. load_turn load_sample 3 1 4096 buf_stream_read_cb 0
       \<lparr>ld_blocks = [no_block, no_block], ld_idx = 0, ld_offset = 0,
        ld_stream = Some \<lparr>buffer = [1, 2, 3], bufferSize = 3, buf_pos = 0\<rparr>, ld_carried = []\<rparr> load_proc
       = Done (NNP_NO_ERROR, False, ld, s1)
     \<and> ld_blocks ld = [load_block_of 4093 [1, 2, 3], no_block] \<and> copy_sent s1"
proof -
  obtain s1 where o: "open_block load_sample 3 1 4096 0 no_block load_proc
      = Done (NNP_NO_ERROR, False, load_block_of 4096 [], s1)"
    and f: "o_hostres s1 100 = load_host" "o_copies s1 101 = copy_new_subres 1 0 3" "dr_size (o_devres s1 3) = 64"
      "copy_pending (insertCopy 0 101 objdb_new) s1"
    using open_pending by blast
  show ?thesis
    by (simp add: load_turn_def o)
      (use f in \<open>simp add: copy_pending_def copy_sent_def Let_def lock_host_write_def load_block_simps load_sample_simps
        load_host_def hostres_new_def lock_cpu_check_def lockless_def has_flag_def wait_for_now lock_cpu_cond_def
        lock_cpu_section_def broken_def buf_stream_read_cb_def unlock_host_def unlock_cpu_access_def set_hostres_def
        copy_schedule_subres_def wait_can_schedule_def ctx_broken_def copy_new_subres_def pre_schedule_on_def
        lock_device_access_def scheduleCopySubres_def send_simps set_copy_def\<close>)
qed

lemma dma_store_fields:
  "cx_objdb (p_ctxs (dma_store c bs s) c) = cx_objdb (p_ctxs s c)" "o_copies (dma_store c bs s) = o_copies s"
  "o_hostres (dma_store c bs s) = o_hostres s"
  by (simp_all add: dma_store_def set_resp_ring_def upd_chan_def split: option.splits)

lemma wait_ends:
  assumes "copy_sent s1"
  shows "\<exists>s2. wait_blocks load_sample 1 0 [load_block_of 4093 [1, 2, 3], no_block] s1 = Done s2"
proof -
  note f = assms [unfolded copy_sent_def copy_pending_def]
  have nl: "\<not> lockless (o_hostres s1 100)" using f by (auto simp: lock_cpu_check_def split: if_splits)
  have "\<exists>s2. handle_next 1 s1 = Done s2 \<and> o_hostres s2 100 = (o_hostres s1 100)\<lparr>m_readers := 0\<rparr>"
    using f nl
    by (simp add: handle_next_def handle_event_def is_fatal_def is_card_fatal_event_def is_context_fatal_event_def
        Let_def handle_copy_event_def upd_chan_def db_lookup_def getCopy_def insertCopy_def objdb_new_def upd_db_def
        with_errors_def post_schedule_def copy_new_subres_def dma_store_fields zero_report_def omap_get_def
        set_copy_def set_hostres_def unlock_device_access_def)
  then obtain s2 where h: "handle_next 1 s1 = Done s2" "o_hostres s2 100 = (o_hostres s1 100)\<lparr>m_readers := 0\<rparr>"
    by blast
  have "wait_for (\<lambda>s. lock_cpu_cond True (o_hostres s 100)) 1 s1 = Done s2"
    using f h by (simp add: wait_for_def wait_steps_def lock_cpu_cond_def numeral_2_eq_2)
  then show ?thesis
    using f h by (simp add: lock_host_write_def load_block_simps no_block_def lock_cpu_section_def broken_def)
qed

lemma load_ends:
  "\<exists>ld s1. load_stream load_sample 3 0 buf_stream_read_cb (Some \<lparr>buffer = [1, 2, 3], bufferSize = 3, buf_pos = 0\<rparr>)
     load_proc = Done (NNP_NO_ERROR, ld, s1)"
proof -
  let ?bs = "[load_block_of 4093 [1, 2, 3], no_block]"
  obtain ld s1 s2 where t: "load_turn load_sample 3 1 4096 buf_stream_read_cb 0
       \<lparr>ld_blocks = [no_block, no_block], ld_idx = 0, ld_offset = 0,
        ld_stream = Some \<lparr>buffer = [1, 2, 3], bufferSize = 3, buf_pos = 0\<rparr>, ld_carried = []\<rparr> load_proc
       = Done (NNP_NO_ERROR, False, ld, s1)" "ld_blocks ld = ?bs" and w: "wait_blocks load_sample 1 0 ?bs s1 = Done s2"
    using turn_sent wait_ends by blast
  obtain s3 where "release_blocks load_sample 1 0 ?bs s2 = Done s3"
    by (simp add: no_block_def load_block_simps unmapHostResource_def load_sample_simps nnpi_device_new_def
        ioctl_outcome_def ioctl_loop.simps)
  then show ?thesis using w
    by (simp add: load_stream_def Let_def load_proc_simps block_64 load_loop.simps of_loop_def t
        del: wait_blocks.simps release_blocks.simps)
qed

lemma load_sample_errors: "small_errors load_sample"
  by (simp add: small_errors_def load_sample_def)

section \<open>The whole load\<close>

text \<open>C12: Loading a buffer into a device resource is complete. When it returns without an error, the
  copies it has sent to the card, one message for each block, carry the bytes of the buffer, all of them and in
  order: the first goes to the given offset and each other one to where the one before ends; none is
  empty or longer than the block. Each message names the mapping of the host buffer from which the card reads
  and the size of its piece.\<close>

theorem sub_load_complete:
  assumes "load_stream env dr offset buf_stream_read_cb
      (Some \<lparr>buffer = data, bufferSize = of_nat (length data), buf_pos = 0\<rparr>) s = Done (NNP_NO_ERROR, ld, s')"
    and "small_errors env" "length data < 2 ^ 64"
  shows "concat (map chunk_bytes (ld_carried ld)) = data \<and> placed offset (ld_carried ld) (offset + of_nat (length data))
    \<and> (\<forall>x \<in> set (ld_carried ld). chunk_bytes x \<noteq> []
         \<and> length (chunk_bytes x) \<le> unat (calcOptimalBlockSize (dr_size (o_devres s dr) - offset)))
    \<and> sent_loads (dr_ctx (o_devres s dr)) s' = sent_loads (dr_ctx (o_devres s dr)) s
        @ map (\<lambda>(mid, off, bs). (mid, off, length bs)) (ld_carried ld)"
proof -
  have "unat (of_nat (length data) :: u64) = length data"
    using assms(3) unfolding unat_of_nat take_bit_eq_mod by (intro mod_less) simp
  then have "buf_sound (Some \<lparr>buffer = data, bufferSize = of_nat (length data), buf_pos = 0\<rparr>)"
    by (simp add: buf_sound_def)
  then show ?thesis using buf.stream_complete [OF assms(1,2) _ refl] by (simp add: buf_rest_def)
qed

theorem sub_load_complete_witness:
  "\<exists>ld s'. load_stream load_sample 3 0 buf_stream_read_cb
       (Some \<lparr>buffer = [1, 2, 3], bufferSize = of_nat (length [1, 2, 3 :: u8]), buf_pos = 0\<rparr>) load_proc
       = Done (NNP_NO_ERROR, ld, s')
     \<and> concat (map chunk_bytes (ld_carried ld)) = [1, 2, 3] \<and> placed 0 (ld_carried ld) 3"
proof -
  obtain ld s' where r: "load_stream load_sample 3 0 buf_stream_read_cb
       (Some \<lparr>buffer = [1, 2, 3], bufferSize = of_nat (length [1, 2, 3 :: u8]), buf_pos = 0\<rparr>) load_proc
       = Done (NNP_NO_ERROR, ld, s')"
    using load_ends by auto
  show ?thesis using r sub_load_complete [OF r load_sample_errors] by (simp add: load_proc_simps)
qed

section \<open>The end of a load\<close>

text \<open>A loop ends when something grows with every turn that asks for another one.\<close>

lemma load_loop_ends:
  assumes "\<And>k ld s e ld' s'. I ld s \<Longrightarrow> turn k ld s = Done (e, True, ld', s') \<Longrightarrow> I ld' s' \<and> m ld' < (m ld :: nat)"
  shows "I ld s \<Longrightarrow> \<exists>r. load_loop turn k ld s = Some r"
proof (induction "m ld" arbitrary: k ld s rule: less_induct)
  case less
  show ?case
  proof (cases "turn k ld s")
    case (Done x)
    obtain e again ld' s' where x: "x = (e, again, ld', s')" by (cases x)
    show ?thesis
    proof (cases again)
      case True
      then have t: "turn k ld s = Done (e, True, ld', s')" using Done x by simp
      then obtain r where "load_loop turn (Suc k) ld' s' = Some r" using assms [OF less(2) t] less(1) by blast
      then show ?thesis using t by (subst load_loop.simps) simp
    qed (use Done x in \<open>subst load_loop.simps; simp\<close>)
  qed (subst load_loop.simps; simp)+
qed

lemma block_size_bounds: "0 < calcOptimalBlockSize n \<and> calcOptimalBlockSize n \<le> 0x10000"
proof -
  have "(\<lambda>b. b \<in> {0x1000, 0x2000, 0x4000, 0x8000, 0x10000}) (calcOptimalBlockSize n)"
    unfolding calcOptimalBlockSize_def
    by (rule while_rule [where r = "measure (\<lambda>b. 0x10000 - unat b)" and P = "\<lambda>b. b \<in> {0x1000, 0x2000, 0x4000, 0x8000, 0x10000}"])
      auto
  then show ?thesis by (auto simp: word_less_nat_alt word_le_nat_alt)
qed

text \<open>C13: Loading a stream ends, however long the stream is: the bytes of every turn that is followed by another one
  lie inside the device resource and behind those of the turn before, so that a stream that never ends
  is stopped by an error. The resource must be smaller than the 64-bit offsets by a block; \<open>sound\<close> describes
  streams that say how many bytes they stored.\<close>

theorem load_terminates:
  assumes "small_errors env" "sound st"
    and read: "\<And>st n bs st'. sound st \<Longrightarrow> read_cb st (unat B) = (n, bs, st') \<Longrightarrow> 0 \<le> n \<Longrightarrow>
      n = int (length bs) \<and> sound st'"
    and size: "unat (dr_size (o_devres s dr)) + 65536 < 2 ^ 64"
    and B: "B = calcOptimalBlockSize (dr_size (o_devres s dr) - offset)"
  shows "\<exists>r. load_loop (load_turn env dr (dr_ctx (o_devres s dr)) B read_cb) 0
    \<lparr>ld_blocks = [no_block, no_block], ld_idx = 0, ld_offset = offset, ld_stream = st, ld_carried = []\<rparr> s = Some r"
proof -
  let ?c = "dr_ctx (o_devres s dr)" and ?size = "dr_size (o_devres s dr)"
  let ?ld = "\<lparr>ld_blocks = [no_block, no_block], ld_idx = 0, ld_offset = offset, ld_stream = st, ld_carried = []\<rparr>"
  let ?m = "\<lambda>ld. if ld_offset ld \<le> ?size then unat ?size - unat (ld_offset ld) else 2 ^ 64"
  have b: "B \<noteq> 0" "unat B \<le> 65536" using block_size_bounds [of "?size - offset"] B by (auto simp: word_le_nat_alt)
  have ub: "unat (ucast B :: u64) = unat B" "unat B > 0"
    using unat_lt [of B] b(1) by (simp_all add: unat_ucast_id unat_gt_0)
  show ?thesis
  proof (rule load_loop_ends [where I = "\<lambda>ld t. load_inv ?c dr offset B s ld t \<and> sound (ld_stream ld)" and m = ?m])
    fix k ld t e ld' t'
    assume i: "load_inv ?c dr offset B s ld t \<and> sound (ld_stream ld)"
      and turn: "load_turn env dr ?c B read_cb k ld t = Done (e, True, ld', t')"
    note turn' = turn [unfolded load_turn_again [OF turn]]
    have len: "\<forall>n bs st. read_cb (ld_stream ld) (unat B) = (n, bs, st) \<longrightarrow> 0 \<le> n \<longrightarrow> n = int (length bs)"
      using i read by blast
    note inv = load_turn_inv [OF turn' assms(1) conjunct1 [OF i] refl len]
    then have off: "ld_offset ld' = ld_offset ld + ucast B" "ld_offset ld' \<le> ?size" using b(1) by blast+
    have "?m ld' < ?m ld"
    proof (cases "ld_offset ld \<le> ?size")
      case True
      then have "unat (ld_offset ld) \<le> unat ?size" by (simp add: word_le_nat_alt)
      then have "unat (ld_offset ld') = unat (ld_offset ld) + unat B"
        unfolding off(1) using size b(2) ub(1) by (subst unat_add_no_wrap) simp_all
      moreover have "unat (ld_offset ld') \<le> unat ?size" using off(2) by (simp add: word_le_nat_alt)
      ultimately show ?thesis using True off(2) ub(2) by simp
    next
      case False
      then show ?thesis using off(2) unat_lt [of ?size] by simp
    qed
    moreover have "sound (ld_stream ld')" using inv i read by (metis of_nat_0_le_iff)
    ultimately show "(load_inv ?c dr offset B s ld' t' \<and> sound (ld_stream ld')) \<and> ?m ld' < ?m ld" using inv by blast
  next
    show "load_inv ?c dr offset B s ?ld s \<and> sound (ld_stream ?ld)" using assms(2) by (simp add: load_inv_def no_block_def)
  qed
qed

text \<open>A file of three bytes.\<close>

theorem load_terminates_witness:
  "\<exists>r. load_loop (load_turn load_sample 3 1 (calcOptimalBlockSize 64) (file_stream_read_cb (file_of [1, 2, 3]))) 0
    \<lparr>ld_blocks = [no_block, no_block], ld_idx = 0, ld_offset = 0, ld_stream = 0, ld_carried = []\<rparr> load_proc = Some r"
proof -
  have "n = int (length bs)" if "file_stream_read_cb (file_of [1, 2, 3]) k sz = (n, bs, k')" "0 \<le> n" for k sz n bs k'
    using that by (auto simp: file_stream_read_cb_def split: prod.splits if_splits)
  then have "\<exists>r. load_loop (load_turn load_sample 3 (dr_ctx (o_devres load_proc 3)) (calcOptimalBlockSize 64)
      (file_stream_read_cb (file_of [1, 2, 3]))) 0
      \<lparr>ld_blocks = [no_block, no_block], ld_idx = 0, ld_offset = 0, ld_stream = 0, ld_carried = []\<rparr> load_proc = Some r"
    by (intro load_terminates [OF load_sample_errors, where sound = "\<lambda>_. True"]) (simp_all add: load_proc_simps(3))
  then show ?thesis unfolding load_proc_simps .
qed

end
