(* ===== verification/Host_Memory.thy ===== *)
theory Host_Memory
  imports Device
begin

text \<open>
  What host resources hold in the process (\<open>nnpiHostProc.h\<close>, \<open>nnpiHostProc.cpp\<close>): the object for the
  host device and its descriptor, which are shared by all of them and by the channels, the memory they map and
  the handles the kernel driver gives them.
\<close>

section \<open>The operations\<close>

text \<open>
  The process: the object for the host device, if it is alive, with its \<open>m_fd\<close> and the number of its owners; the
  descriptors of the host device that are open; the mappings made by \<open>mmap\<close>; the handles of the driver; the host
  resources.
\<close>

record host_side =
  hs_proc :: "(int \<times> nat) option"
  hs_open :: "int set"
  hs_maps :: "(u64 \<times> u64) set"
  hs_handles :: "int set"
  hs_live :: "nat \<Rightarrow> hostres option"
  hs_next :: nat

text \<open>\<open>get\<close> makes an owner, or fails. An owner that goes away; the last one runs \<open>~nnpiHostProc\<close>.\<close>

definition proc_get :: "int \<Rightarrow> host_side \<Rightarrow> bool \<times> host_side" where
  "proc_get opened hs =
     (case hs_proc hs of
        Some (fd, n) \<Rightarrow> (True, hs\<lparr>hs_proc := Some (fd, n + 1)\<rparr>)
      | None \<Rightarrow>
          if opened \<noteq> -1 then (True, hs\<lparr>hs_proc := Some (opened, 1), hs_open := insert opened (hs_open hs)\<rparr>)
          else (False, hs))"

definition hostproc_delete :: "int \<Rightarrow> host_side \<Rightarrow> host_side" where
  "hostproc_delete fd hs = (if fd \<ge> 0 then hs\<lparr>hs_open := hs_open hs - {fd}\<rparr> else hs)"

definition proc_put :: "host_side \<Rightarrow> host_side" where
  "proc_put hs =
     (case hs_proc hs of
        None \<Rightarrow> hs
      | Some (fd, n) \<Rightarrow>
          if n = 1 then hostproc_delete fd (hs\<lparr>hs_proc := None\<rparr>) else hs\<lparr>hs_proc := Some (fd, n - 1)\<rparr>)"

definition close_host_device :: "host_side \<Rightarrow> host_side" where
  "close_host_device hs =
     (case hs_proc hs of
        None \<Rightarrow> hs
      | Some (fd, n) \<Rightarrow> if fd \<ge> 0 then hs\<lparr>hs_proc := Some (-1, n), hs_open := hs_open hs - {fd}\<rparr> else hs)"

text \<open>A new host resource owns the object for the host device.\<close>

definition new_host_mem :: "hostres \<Rightarrow> host_side \<Rightarrow> nat \<times> host_side" where
  "new_host_mem h hs =
     (hs_next hs, hs\<lparr>hs_live := (hs_live hs)(hs_next hs \<mapsto> h),
        hs_next := hs_next hs + 1, hs_handles := insert (m_kmd_handle h) (hs_handles hs)\<rparr>)"

text \<open>
  \<open>create\<close>. Its variable \<open>proc\<close> is an owner while it runs. The owner that \<open>proc->get()\<close> returns lives
  only for the test; \<open>opened\<close> are the two results \<open>open\<close> may give.
\<close>

definition host_mem_create ::
    "int \<times> int \<Rightarrow> u64 option \<Rightarrow> (nnpdrv_ioctl_create_hostres \<Rightarrow> int \<times> nat \<times> nnpdrv_ioctl_create_hostres) \<Rightarrow>
     u64 \<Rightarrow> u32 \<Rightarrow> host_side \<Rightarrow> (nat \<times> nat option \<times> host_side) outcome" where
  "host_mem_create opened mapped drv byte_size usage_flags hs =
     (case proc_get (fst opened) hs of (ok, hs1) \<Rightarrow>
      case proc_get (snd opened) hs1 of (found, hs2) \<Rightarrow>
        let hs3 = (if found then proc_put hs2 else hs2);
            drop = (if ok then proc_put else id)
        in if \<not> found then Done (ENODEV, None, drop hs3)
           else if byte_size = 0 then Done (EINVAL, None, drop hs3)
           else case mapped of
             None \<Rightarrow> Done (ENOMEM, None, drop hs3)
           | Some adr \<Rightarrow>
               let hs4 = hs3\<lparr>hs_maps := insert (adr, byte_size) (hs_maps hs3)\<rparr>
               in if \<not> ok then Undefined
                  else
                    let a = drv \<lparr>chr_user_ptr = adr, chr_size = byte_size, chr_usage_flags = usage_flags, chr_user_handle = 0\<rparr>
                    in if fst a < 0 then
                         Done (if fst (snd a) \<noteq> 0 then fst (snd a) else EFAULT, None,
                               drop (hs4\<lparr>hs_maps := hs_maps hs4 - {(adr, byte_size)}\<rparr>))
                       else (case new_host_mem (hostres_new byte_size usage_flags (chr_user_handle (snd (snd a))) adr True) hs4 of
                               (i, hs5) \<Rightarrow> Done (0, Some i, hs5)))"

definition host_mem_createFromBuf ::
    "int \<times> int \<Rightarrow> u64 \<Rightarrow> (nnpdrv_ioctl_create_hostres \<Rightarrow> int \<times> nat \<times> nnpdrv_ioctl_create_hostres) \<Rightarrow>
     u64 \<Rightarrow> u32 \<Rightarrow> host_side \<Rightarrow> (nat \<times> nat option \<times> host_side) outcome" where
  "host_mem_createFromBuf opened buf drv byte_size usage_flags hs =
     (case proc_get (fst opened) hs of (ok, hs1) \<Rightarrow>
      case proc_get (snd opened) hs1 of (found, hs2) \<Rightarrow>
        let hs3 = (if found then proc_put hs2 else hs2);
            drop = (if ok then proc_put else id)
        in if \<not> found then Done (ENODEV, None, drop hs3)
           else if \<not> ok then Undefined
           else
             let a = drv \<lparr>chr_user_ptr = buf, chr_size = byte_size, chr_usage_flags = usage_flags, chr_user_handle = 0\<rparr>
             in if fst a < 0 then Done (fst (snd a), None, drop hs3)
                else (case new_host_mem (hostres_new byte_size usage_flags (chr_user_handle (snd (snd a))) buf False) hs3 of
                        (i, hs5) \<Rightarrow> Done (0, Some i, hs5)))"

text \<open>
  \<open>~nnpiHostRes\<close>: \<open>drv\<close> is the answer of the driver to the request, which is made if the device is still open;
  the handle is given back if it is granted.
\<close>

record nnpdrv_ioctl_destroy_hostres =
  dhr_user_handle :: int
  dhr_o_errno :: u32

definition host_mem_delete :: "(nnpdrv_ioctl_destroy_hostres \<Rightarrow> int) \<Rightarrow> nat \<Rightarrow> hostres \<Rightarrow> host_side \<Rightarrow> host_side" where
  "host_mem_delete drv i h hs =
     (let hs1 = (if m_cpu_addr h \<noteq> 0 \<and> m_alloced h
                 then hs\<lparr>hs_maps := hs_maps hs - {(m_cpu_addr h, m_byte_size h)}\<rparr> else hs);
          hs2 = (if (case hs_proc hs of None \<Rightarrow> False | Some (fd, n) \<Rightarrow> fd \<ge> 0) \<and> drv \<lparr>dhr_user_handle = m_kmd_handle h, dhr_o_errno = 0\<rparr> \<ge> 0
                 then hs1\<lparr>hs_handles := hs_handles hs1 - {m_kmd_handle h}\<rparr> else hs1)
      in proc_put (hs2\<lparr>hs_live := (hs_live hs2)(i := None)\<rparr>))"

text \<open>The result and the resource are those of \<open>hostres_create\<close> and \<open>hostres_createFromBuf\<close>.\<close>

definition created ::
    "(nat \<times> nat option \<times> host_side) outcome \<Rightarrow> (nat \<times> hostres option) outcome" where
  "created r = obind r (\<lambda>(rc, i, hs). Done (rc, Option.bind i (hs_live hs)))"

lemma put_live [simp]: "hs_live (proc_put hs) = hs_live hs"
  by (simp add: proc_put_def hostproc_delete_def split: option.split prod.split)

lemma get_found:
  assumes "proc_get (fst opened) hs = (ok, hs1)" "proc_get (snd opened) hs1 = (found, hs2)"
  shows "ok \<longleftrightarrow> hostproc_get (fst opened) (map_option fst (hs_proc hs)) \<noteq> None"
    "found \<longleftrightarrow> hostproc_get (snd opened) (hostproc_get (fst opened) (map_option fst (hs_proc hs))) \<noteq> None"
  using assms by (auto simp: proc_get_def hostproc_get_def split: option.splits if_splits prod.splits)

lemma created_same:
  "created (host_mem_create opened mapped drv sz flags hs)
     = hostres_create (fst opened) (snd opened) (map_option fst (hs_proc hs)) mapped drv sz flags"
  "created (host_mem_createFromBuf opened buf drv sz flags hs)
     = hostres_createFromBuf (fst opened) (snd opened) (map_option fst (hs_proc hs)) buf drv sz flags"
proof -
  obtain ok hs1 where g1: "proc_get (fst opened) hs = (ok, hs1)" by fastforce
  obtain found hs2 where g2: "proc_get (snd opened) hs1 = (found, hs2)" by fastforce
  note f = get_found [OF g1 g2]
  show "created (host_mem_create opened mapped drv sz flags hs)
     = hostres_create (fst opened) (snd opened) (map_option fst (hs_proc hs)) mapped drv sz flags"
    using f by (auto simp: created_def host_mem_create_def hostres_create_def g1 g2 new_host_mem_def Let_def split: option.split)
  show "created (host_mem_createFromBuf opened buf drv sz flags hs)
     = hostres_createFromBuf (fst opened) (snd opened) (map_option fst (hs_proc hs)) buf drv sz flags"
    using f by (auto simp: created_def host_mem_createFromBuf_def hostres_createFromBuf_def g1 g2 new_host_mem_def Let_def
        split: option.split)
qed

section \<open>Ownership\<close>

text \<open>The object for the host device has \<open>k\<close> owners; the other open descriptors are \<open>F\<close>.\<close>

definition own_ok :: "int set \<Rightarrow> nat \<Rightarrow> host_side \<Rightarrow> bool" where
  "own_ok F k hs \<longleftrightarrow>
     (case hs_proc hs of
        None \<Rightarrow> k = 0 \<and> hs_open hs = F
      | Some (fd, j) \<Rightarrow> j = k \<and> k > 0 \<and> (if fd \<ge> 0 then fd \<notin> F \<and> hs_open hs = insert fd F else hs_open hs = F))"

definition opens_ok :: "host_side \<Rightarrow> int \<times> int \<Rightarrow> bool" where
  "opens_ok hs opened \<longleftrightarrow> (\<forall>fd \<in> {fst opened, snd opened}. fd = -1 \<or> 0 \<le> fd \<and> fd \<notin> hs_open hs)"

lemma own_get:
  assumes "own_ok F k hs" "proc_get fd hs = (ok, hs')" "fd = -1 \<or> 0 \<le> fd \<and> fd \<notin> hs_open hs"
  shows "own_ok F (if ok then Suc k else k) hs'"
  using assms by (auto simp: own_ok_def proc_get_def split: option.splits if_splits)

lemma own_put: "own_ok F (Suc k) hs \<Longrightarrow> own_ok F k (proc_put hs)"
  by (auto simp: own_ok_def proc_put_def hostproc_delete_def split: option.splits if_splits)

lemma own_close: "own_ok F k hs \<Longrightarrow> own_ok F k (close_host_device hs)"
  by (auto simp: own_ok_def close_host_device_def split: option.splits if_splits)

lemma own_frame:
  "hs_proc hs' = hs_proc hs \<Longrightarrow> hs_open hs' = hs_open hs \<Longrightarrow> own_ok F k hs' = own_ok F k hs"
  by (simp add: own_ok_def split: option.split)

text \<open>The mappings that live resources own, besides \<open>M\<close>, and their handles.\<close>

abbreviation mapping :: "hostres \<Rightarrow> u64 \<times> u64" where
  "mapping h \<equiv> (m_cpu_addr h, m_byte_size h)"

definition objs_ok :: "(u64 \<times> u64) set \<Rightarrow> host_side \<Rightarrow> bool" where
  "objs_ok M hs \<longleftrightarrow>
     finite (dom (hs_live hs)) \<and> (\<forall>i \<in> dom (hs_live hs). i < hs_next hs)
     \<and> (\<forall>x. x \<in> hs_maps hs \<longleftrightarrow> x \<in> M \<or> (\<exists>i h. hs_live hs i = Some h \<and> m_alloced h \<and> x = mapping h))
     \<and> (\<forall>i h. hs_live hs i = Some h \<longrightarrow> m_kmd_handle h \<in> hs_handles hs
          \<and> (m_alloced h \<longrightarrow> m_cpu_addr h \<noteq> 0 \<and> mapping h \<notin> M))
     \<and> (\<forall>i j h g. hs_live hs i = Some h \<and> hs_live hs j = Some g \<and> i \<noteq> j \<longrightarrow>
          m_kmd_handle h \<noteq> m_kmd_handle g \<and> (m_alloced h \<and> m_alloced g \<longrightarrow> mapping h \<noteq> mapping g))"

lemma objs_frame:
  "hs_live hs' = hs_live hs \<Longrightarrow> hs_next hs' = hs_next hs \<Longrightarrow> hs_maps hs' = hs_maps hs \<Longrightarrow> hs_handles hs' = hs_handles hs \<Longrightarrow>
     objs_ok M hs' = objs_ok M hs"
  by (simp add: objs_ok_def)

lemma proc_frame:
  "proc_get fd hs = (ok, hs1) \<Longrightarrow> hs_live hs1 = hs_live hs \<and> hs_next hs1 = hs_next hs \<and> hs_maps hs1 = hs_maps hs
     \<and> hs_handles hs1 = hs_handles hs"
  "hs_live (proc_put hs) = hs_live hs \<and> hs_next (proc_put hs) = hs_next hs \<and> hs_maps (proc_put hs) = hs_maps hs
     \<and> hs_handles (proc_put hs) = hs_handles hs"
  "hs_live (close_host_device hs) = hs_live hs \<and> hs_next (close_host_device hs) = hs_next hs
     \<and> hs_maps (close_host_device hs) = hs_maps hs \<and> hs_handles (close_host_device hs) = hs_handles hs"
  by (auto simp: proc_get_def proc_put_def hostproc_delete_def close_host_device_def split: option.splits if_splits)

lemma objs_add:
  assumes "objs_ok M hs" "m_kmd_handle h \<notin> hs_handles hs"
    and "m_alloced h \<longrightarrow> m_cpu_addr h \<noteq> 0 \<and> mapping h \<notin> hs_maps hs"
    and "hs_live t = (hs_live hs)(hs_next hs \<mapsto> h)" "hs_next t = hs_next hs + 1"
    and "hs_handles t = insert (m_kmd_handle h) (hs_handles hs)"
    and "hs_maps t = (if m_alloced h then insert (mapping h) (hs_maps hs) else hs_maps hs)"
  shows "objs_ok M t"
proof -
  note ok = assms(1) [unfolded objs_ok_def]
  have new: "hs_live hs (hs_next hs) = None" using ok by (meson domI less_irrefl not_None_eq)
  have live: "hs_live t i = Some g \<longleftrightarrow> i = hs_next hs \<and> g = h \<or> hs_live hs i = Some g" for i g
    using new by (auto simp: assms(4))
  have "finite (dom (hs_live t)) \<and> (\<forall>i \<in> dom (hs_live t). i < hs_next t)" using ok by (auto simp: assms(4,5) less_Suc_eq)
  moreover have "\<forall>x. x \<in> hs_maps t \<longleftrightarrow> x \<in> M \<or> (\<exists>i h. hs_live t i = Some h \<and> m_alloced h \<and> x = mapping h)"
    using ok unfolding assms(7) live by auto
  moreover have "\<forall>i h. hs_live t i = Some h \<longrightarrow> m_kmd_handle h \<in> hs_handles t \<and> (m_alloced h \<longrightarrow> m_cpu_addr h \<noteq> 0 \<and> mapping h \<notin> M)"
    using ok assms(3) unfolding assms(6) live by auto
  moreover have "m_kmd_handle g \<noteq> m_kmd_handle g' \<and> (m_alloced g \<and> m_alloced g' \<longrightarrow> mapping g \<noteq> mapping g')"
    if pair: "hs_live t i = Some g" "hs_live t j = Some g'" "i \<noteq> j" for i j g g'
  proof -
    have old: "m_kmd_handle h \<noteq> m_kmd_handle x \<and> (m_alloced h \<and> m_alloced x \<longrightarrow> mapping h \<noteq> mapping x)"
      if x: "hs_live hs k = Some x" for k x
    proof -
      have "m_kmd_handle x \<in> hs_handles hs" "m_alloced x \<longrightarrow> mapping x \<in> hs_maps hs" using ok x by blast+
      then show ?thesis using assms(2,3) by metis
    qed
    consider "i = hs_next hs" "g = h" "hs_live hs j = Some g'" | "j = hs_next hs" "g' = h" "hs_live hs i = Some g"
      | "hs_live hs i = Some g" "hs_live hs j = Some g'" using pair unfolding live by blast
    then show ?thesis
    proof cases
      case 1
      then show ?thesis using old [of j g'] by simp
    next
      case 2
      then show ?thesis using old [of i g] by (simp add: eq_commute)
    next
      case 3
      then show ?thesis using ok pair(3) by blast
    qed
  qed
  ultimately show ?thesis unfolding objs_ok_def by blast
qed

lemma objs_remove:
  assumes "objs_ok M hs" "hs_live hs i = Some h"
    and "hs_live t = (hs_live hs)(i := None)" "hs_next t = hs_next hs"
    and "hs_handles t = hs_handles hs \<or> hs_handles t = hs_handles hs - {m_kmd_handle h}"
    and "hs_maps t = (if m_cpu_addr h \<noteq> 0 \<and> m_alloced h then hs_maps hs - {mapping h} else hs_maps hs)"
  shows "objs_ok M t"
proof -
  note ok = assms(1) [unfolded objs_ok_def]
  have live: "hs_live t j = Some g \<longleftrightarrow> j \<noteq> i \<and> hs_live hs j = Some g" for j g by (auto simp: assms(3))
  have other: "m_kmd_handle g \<noteq> m_kmd_handle h \<and> (m_alloced g \<and> m_alloced h \<longrightarrow> mapping g \<noteq> mapping h)"
    if "hs_live hs j = Some g" "j \<noteq> i" for j g
    using ok assms(2) that by blast
  have "finite (dom (hs_live t)) \<and> (\<forall>i \<in> dom (hs_live t). i < hs_next t)" using ok by (auto simp: assms(3,4))
  moreover have "x \<in> hs_maps t \<longleftrightarrow> x \<in> M \<or> (\<exists>j g. hs_live t j = Some g \<and> m_alloced g \<and> x = mapping g)" for x
  proof (cases "m_alloced h \<and> x = mapping h")
    case True
    then have h: "m_cpu_addr h \<noteq> 0" "x \<notin> M" using ok assms(2) by blast+
    then have "x \<notin> hs_maps t" using True assms(6) by simp
    moreover have "\<not> (hs_live t j = Some g \<and> m_alloced g \<and> x = mapping g)" for j g
      using other True unfolding live by blast
    ultimately show ?thesis using h(2) by blast
  next
    case False
    then have "x \<in> hs_maps t \<longleftrightarrow> x \<in> hs_maps hs" using assms(6) by auto
    also have "\<dots> \<longleftrightarrow> x \<in> M \<or> (\<exists>j g. hs_live hs j = Some g \<and> m_alloced g \<and> x = mapping g)" using ok by blast
    also have "\<dots> \<longleftrightarrow> x \<in> M \<or> (\<exists>j g. hs_live t j = Some g \<and> m_alloced g \<and> x = mapping g)"
      using False assms(2) unfolding live by (metis option.inject)
    finally show ?thesis .
  qed
  moreover have "\<forall>j g. hs_live t j = Some g \<longrightarrow> m_kmd_handle g \<in> hs_handles t \<and> (m_alloced g \<longrightarrow> m_cpu_addr g \<noteq> 0 \<and> mapping g \<notin> M)"
    using ok assms(5) other unfolding live by auto
  moreover have "\<forall>j k g g'. hs_live t j = Some g \<and> hs_live t k = Some g' \<and> j \<noteq> k \<longrightarrow>
      m_kmd_handle g \<noteq> m_kmd_handle g' \<and> (m_alloced g \<and> m_alloced g' \<longrightarrow> mapping g \<noteq> mapping g')"
    using ok unfolding live by blast
  ultimately show ?thesis unfolding objs_ok_def by blast
qed

text \<open>Both, when \<open>n\<close> other objects, the channels, own the object for the host device.\<close>

definition host_ok :: "int set \<Rightarrow> (u64 \<times> u64) set \<Rightarrow> nat \<Rightarrow> host_side \<Rightarrow> bool" where
  "host_ok F M n hs \<longleftrightarrow> own_ok F (n + card (dom (hs_live hs))) hs \<and> objs_ok M hs"

lemma host_get:
  assumes "host_ok F M n hs" "proc_get fd hs = (ok, hs')" "fd = -1 \<or> 0 \<le> fd \<and> fd \<notin> hs_open hs"
  shows "host_ok F M (if ok then Suc n else n) hs'"
  using assms own_get [OF _ assms(2,3)] objs_frame [of hs' hs] proc_frame(1) [OF assms(2)]
  by (auto simp: host_ok_def split: if_splits)

lemma host_put: "host_ok F M (Suc n) hs \<Longrightarrow> host_ok F M n (proc_put hs)"
  using own_put proc_frame(2) [of hs] objs_frame [of "proc_put hs" hs] by (simp add: host_ok_def)

lemma host_close: "host_ok F M n hs \<Longrightarrow> host_ok F M n (close_host_device hs)"
  using own_close proc_frame(3) [of hs] objs_frame [of "close_host_device hs" hs] by (simp add: host_ok_def)

text \<open>\<open>proc\<close> and the test of the two functions that create a resource.\<close>

lemma host_found:
  assumes "host_ok F M n hs" "opens_ok hs opened"
    and "proc_get (fst opened) hs = (ok, hs1)" "proc_get (snd opened) hs1 = (found, hs2)"
    and "hs3 = (if found then proc_put hs2 else hs2)"
  shows "host_ok F M (if ok then Suc n else n) hs3" "ok \<Longrightarrow> found"
    "hs_maps hs3 = hs_maps hs" "hs_handles hs3 = hs_handles hs"
proof -
  have 1: "host_ok F M (if ok then Suc n else n) hs1"
    by (rule host_get [OF assms(1,3)]) (use assms(2) in \<open>simp add: opens_ok_def\<close>)
  have "snd opened = -1 \<or> 0 \<le> snd opened \<and> snd opened \<notin> hs_open hs1" if "\<not> ok"
    using that assms(2,3) by (auto simp: proc_get_def opens_ok_def split: option.splits if_splits)
  moreover have always: "found \<and> hs_open hs2 = hs_open hs1 \<and> host_ok F M (Suc (Suc n)) hs2" if ok: "ok"
  proof -
    obtain fd k where p: "hs_proc hs1 = Some (fd, k)"
      using ok assms(3) by (auto simp: proc_get_def split: option.splits if_splits)
    then have eq: "(found, hs2) = (True, hs1\<lparr>hs_proc := Some (fd, k + 1)\<rparr>)" using assms(4) by (simp add: proc_get_def)
    then have "own_ok F (Suc (Suc n + card (dom (hs_live hs1)))) hs2" using 1 ok p by (auto simp: host_ok_def own_ok_def)
    then show ?thesis using eq 1 ok objs_frame [of hs2 hs1] by (simp add: host_ok_def)
  qed
  ultimately have 2: "host_ok F M (if found then Suc (if ok then Suc n else n) else (if ok then Suc n else n)) hs2"
    using host_get [OF 1 assms(4)] by (cases ok) auto
  then show "host_ok F M (if ok then Suc n else n) hs3" by (cases found) (auto simp: assms(5) intro: host_put)
  show "ok \<Longrightarrow> found" using always by blast
  show "hs_maps hs3 = hs_maps hs" "hs_handles hs3 = hs_handles hs"
    using proc_frame(1) [OF assms(3)] proc_frame(1) [OF assms(4)] proc_frame(2) [of hs2] by (simp_all add: assms(5))
qed

lemma host_drop:
  "host_ok F M (if ok then Suc n else n) hs \<Longrightarrow> host_ok F M n ((if ok then proc_put else id) hs)"
  using host_put by (cases ok) auto

lemma host_new:
  assumes "host_ok F M (Suc n) hs" "m_kmd_handle h \<notin> hs_handles hs"
    and "m_alloced h \<longrightarrow> m_cpu_addr h \<noteq> 0 \<and> mapping h \<notin> hs_maps hs"
    and "new_host_mem h (if m_alloced h then hs\<lparr>hs_maps := insert (mapping h) (hs_maps hs)\<rparr> else hs) = (i, t)"
  shows "host_ok F M n t"
proof -
  have obj: "objs_ok M hs" using assms(1) by (simp add: host_ok_def)
  have "objs_ok M t"
    by (rule objs_add [OF obj assms(2,3)]) (use assms(4) in \<open>auto simp: new_host_mem_def split: if_splits\<close>)
  moreover have "card (dom (hs_live t)) = Suc (card (dom (hs_live hs)))"
  proof -
    have "hs_next hs \<notin> dom (hs_live hs)" "finite (dom (hs_live hs))" using obj unfolding objs_ok_def by auto
    moreover have "dom (hs_live t) = insert (hs_next hs) (dom (hs_live hs))"
      using assms(4) by (auto simp: new_host_mem_def split: if_splits)
    ultimately show ?thesis by simp
  qed
  moreover have "hs_proc t = hs_proc hs" "hs_open t = hs_open hs" using assms(4) by (auto simp: new_host_mem_def split: if_splits)
  ultimately show ?thesis using assms(1) own_frame [of t hs] by (simp add: host_ok_def)
qed

text \<open>Creation, when the driver gives a handle, and \<open>mmap\<close> an address, that is not in use.\<close>

lemma host_create_ok:
  assumes "host_mem_create opened mapped drv sz flags hs = Done (rc, r, hs')" "host_ok F M n hs" "opens_ok hs opened"
    and "\<forall>adr. mapped = Some adr \<longrightarrow> adr \<noteq> 0 \<and> (adr, sz) \<notin> hs_maps hs"
    and "\<forall>q. chr_user_handle (snd (snd (drv q))) \<notin> hs_handles hs"
  shows "host_ok F M n hs'"
proof -
  obtain ok hs1 where g1: "proc_get (fst opened) hs = (ok, hs1)" by fastforce
  obtain found hs2 where g2: "proc_get (snd opened) hs1 = (found, hs2)" by fastforce
  define hs3 where "hs3 = (if found then proc_put hs2 else hs2)"
  note h3 = host_found [OF assms(2,3) g1 g2 hs3_def]
  note run = assms(1) [unfolded host_mem_create_def g1 g2 prod.case Let_def, folded hs3_def]
  show ?thesis
  proof (cases "found \<and> sz \<noteq> 0 \<and> mapped \<noteq> None")
    case False
    then have "hs' = (if ok then proc_put else id) hs3" using run by (auto split: if_splits option.splits)
    then show ?thesis using host_drop [OF h3(1)] by simp
  next
    case True
    then obtain adr where adr: "mapped = Some adr" by blast
    define a where "a = drv \<lparr>chr_user_ptr = adr, chr_size = sz, chr_usage_flags = flags, chr_user_handle = 0\<rparr>"
    have ok using run True adr by (auto split: if_splits)
    have free: "adr \<noteq> 0" "(adr, sz) \<notin> hs_maps hs3" using assms(4) adr h3(3) by auto
    show ?thesis
    proof (cases "fst a < 0")
      case True
      then have "hs' = proc_put (hs3\<lparr>hs_maps := insert (adr, sz) (hs_maps hs3) - {(adr, sz)}\<rparr>)"
        using run \<open>ok\<close> \<open>found \<and> sz \<noteq> 0 \<and> mapped \<noteq> None\<close> adr by (simp add: a_def)
      then have "hs' = proc_put hs3" using free(2) by simp
      then show ?thesis using host_put h3(1) \<open>ok\<close> by simp
    next
      case False
      define h where "h = hostres_new sz flags (chr_user_handle (snd (snd a))) adr True"
      have h: "m_alloced h" "mapping h = (adr, sz)" "m_kmd_handle h \<notin> hs_handles hs3" "m_cpu_addr h = adr"
        using assms(5) h3(4) by (simp_all add: h_def hostres_new_def a_def)
      obtain i t where t: "new_host_mem h (hs3\<lparr>hs_maps := insert (adr, sz) (hs_maps hs3)\<rparr>) = (i, t)" by fastforce
      then have "hs' = t"
        using run \<open>ok\<close> \<open>found \<and> sz \<noteq> 0 \<and> mapped \<noteq> None\<close> adr False by (simp add: a_def h_def)
      then show ?thesis using host_new [of F M n hs3 h i t] h h3(1) \<open>ok\<close> free t by simp
    qed
  qed
qed

lemma host_createFromBuf_ok:
  assumes "host_mem_createFromBuf opened buf drv sz flags hs = Done (rc, r, hs')" "host_ok F M n hs" "opens_ok hs opened"
    and "\<forall>q. chr_user_handle (snd (snd (drv q))) \<notin> hs_handles hs"
  shows "host_ok F M n hs'"
proof -
  obtain ok hs1 where g1: "proc_get (fst opened) hs = (ok, hs1)" by fastforce
  obtain found hs2 where g2: "proc_get (snd opened) hs1 = (found, hs2)" by fastforce
  define hs3 where "hs3 = (if found then proc_put hs2 else hs2)"
  note h3 = host_found [OF assms(2,3) g1 g2 hs3_def]
  note run = assms(1) [unfolded host_mem_createFromBuf_def g1 g2 prod.case Let_def, folded hs3_def]
  define a where "a = drv \<lparr>chr_user_ptr = buf, chr_size = sz, chr_usage_flags = flags, chr_user_handle = 0\<rparr>"
  show ?thesis
  proof (cases "found \<and> \<not> fst a < 0")
    case False
    then have "hs' = (if ok then proc_put else id) hs3" using run by (auto simp: a_def split: if_splits)
    then show ?thesis using host_drop [OF h3(1)] by simp
  next
    case True
    define h where "h = hostres_new sz flags (chr_user_handle (snd (snd a))) buf False"
    have ok using run True by (auto split: if_splits)
    have h: "\<not> m_alloced h" "m_kmd_handle h \<notin> hs_handles hs3" using assms(4) h3(4) by (simp_all add: h_def hostres_new_def a_def)
    obtain i t where t: "new_host_mem h hs3 = (i, t)" by fastforce
    then have "hs' = t" using run \<open>ok\<close> True by (simp add: a_def h_def)
    then show ?thesis using host_new [of F M n hs3 h i t] h h3(1) \<open>ok\<close> t by simp
  qed
qed

lemma host_delete_ok:
  assumes "hs_live hs i = Some h" "host_ok F M n hs"
  shows "host_ok F M n (host_mem_delete drv i h hs)"
proof -
  obtain t where t: "host_mem_delete drv i h hs = proc_put t" "hs_proc t = hs_proc hs" "hs_open t = hs_open hs"
    "hs_live t = (hs_live hs)(i := None)" "hs_next t = hs_next hs"
    "hs_handles t = hs_handles hs \<or> hs_handles t = hs_handles hs - {m_kmd_handle h}"
    "hs_maps t = (if m_cpu_addr h \<noteq> 0 \<and> m_alloced h then hs_maps hs - {mapping h} else hs_maps hs)"
    by (simp add: host_mem_delete_def Let_def)
  have obj: "objs_ok M hs" using assms(2) by (simp add: host_ok_def)
  have "finite (dom (hs_live hs))" "i \<in> dom (hs_live hs)" using obj assms(1) unfolding objs_ok_def by auto
  moreover have "dom (hs_live t) = dom (hs_live hs) - {i}" by (simp add: t(4))
  ultimately have "card (dom (hs_live hs)) = Suc (card (dom (hs_live t)))" by (simp only: card.remove)
  moreover have "objs_ok M t" by (rule objs_remove [OF obj assms(1) t(4-7)])
  ultimately have "host_ok F M (Suc n) t" using assms(2) own_frame [OF t(2,3)] by (simp add: host_ok_def)
  then show ?thesis unfolding t(1) by (rule host_put)
qed

text \<open>
  What happens in a process: resources are created and destroyed, channels come and go, and the device is
  closed. \<open>n\<close> counts the channels. \<open>open\<close> gives a new descriptor or -1.
\<close>

inductive host_runs :: "host_side \<Rightarrow> nat \<Rightarrow> host_side \<Rightarrow> bool" where
  start: "host_runs hs0 0 hs0"
| create: "host_runs hs0 n hs \<Longrightarrow> host_mem_create opened mapped drv sz flags hs = Done (rc, r, hs') \<Longrightarrow> opens_ok hs opened \<Longrightarrow>
    \<forall>adr. mapped = Some adr \<longrightarrow> adr \<noteq> 0 \<and> (adr, sz) \<notin> hs_maps hs \<Longrightarrow>
    \<forall>q. chr_user_handle (snd (snd (drv q))) \<notin> hs_handles hs \<Longrightarrow> host_runs hs0 n hs'"
| create_buf: "host_runs hs0 n hs \<Longrightarrow> host_mem_createFromBuf opened buf drv sz flags hs = Done (rc, r, hs') \<Longrightarrow>
    opens_ok hs opened \<Longrightarrow> \<forall>q. chr_user_handle (snd (snd (drv q))) \<notin> hs_handles hs \<Longrightarrow> host_runs hs0 n hs'"
| delete: "host_runs hs0 n hs \<Longrightarrow> hs_live hs i = Some h \<Longrightarrow> host_runs hs0 n (host_mem_delete drv i h hs)"
| close: "host_runs hs0 n hs \<Longrightarrow> host_runs hs0 n (close_host_device hs)"
| get: "host_runs hs0 n hs \<Longrightarrow> proc_get fd hs = (ok, hs') \<Longrightarrow> opens_ok hs (fd, fd) \<Longrightarrow>
    host_runs hs0 (if ok then Suc n else n) hs'"
| put: "host_runs hs0 (Suc n) hs \<Longrightarrow> host_runs hs0 n (proc_put hs)"

lemma host_runs_ok: "host_runs hs0 n hs \<Longrightarrow> host_ok F M 0 hs0 \<Longrightarrow> host_ok F M n hs"
proof (induction rule: host_runs.induct)
  case (get hs0 n hs fd ok hs')
  then show ?case using host_get [of F M n hs fd ok hs'] by (simp add: opens_ok_def)
qed (blast intro: host_create_ok host_createFromBuf_ok host_delete_ok host_close host_put)+


text \<open>An application: a resource is created, which opens the device, and destroyed.\<close>

definition no_host :: host_side where
  "no_host = \<lparr>hs_proc = None, hs_open = {0}, hs_maps = {}, hs_handles = {}, hs_live = (\<lambda>_. None), hs_next = 0\<rparr>"

definition one_host :: host_side where
  "one_host = \<lparr>hs_proc = Some (4, 1), hs_open = {0, 4}, hs_maps = {(4096, 64)}, hs_handles = {9},
     hs_live = [0 \<mapsto> hostres_new 64 3 9 4096 True], hs_next = 1\<rparr>"

lemma one_host_runs: "host_runs no_host 0 one_host"
proof -
  have "host_mem_create (4, 5) (Some 4096) (\<lambda>q. (0, 0, q\<lparr>chr_user_handle := 9\<rparr>)) 64 3 no_host = Done (0, Some 0, one_host)"
    by (simp add: host_mem_create_def no_host_def one_host_def proc_get_def proc_put_def new_host_mem_def hostres_new_def
        insert_commute)
  then show ?thesis
    by (rule host_runs.create [OF host_runs.start]) (simp_all add: opens_ok_def no_host_def)
qed


end
