(* ===== verification/Object_Names.thy ===== *)
theory Object_Names
  imports Frame
begin

text \<open>
  What the object databases name. The events of the card carry the ids of objects, and the response
  thread finds the object through the database of its context (\<open>nnpiInfContextObjDB\<close>). The invariant:
  an entry under an id is an object that has been allocated, has that id and belongs to that context.
\<close>

section \<open>The invariant\<close>

definition each_entry :: "('k \<Rightarrow> addr \<Rightarrow> bool) \<Rightarrow> ('k \<times> addr) list \<Rightarrow> bool" where
  "each_entry P m \<longleftrightarrow> (\<forall>(k, a) \<in> entries m. P k a)"

definition db_ok :: "addr \<Rightarrow> proc \<Rightarrow> objdb \<Rightarrow> bool" where
  "db_ok c s db \<longleftrightarrow>
     each_entry (\<lambda>i a. a < o_next s \<and> cp_id (o_copies s a) = i \<and> cp_ctx (o_copies s a) = c) (db_copies db)
   \<and> each_entry (\<lambda>i a. a < o_next s \<and> dn_id (o_devnets s a) = i \<and> dn_ctx (o_devnets s a) = c) (db_networks db)
   \<and> each_entry (\<lambda>k a. a < o_next s \<and> rq_id (o_infreqs s a) = snd k) (db_infreqs db)
   \<and> each_entry (\<lambda>i a. a < o_next s \<and> lst_id (p_cmdlists s a) = i \<and> lst_ctx (p_cmdlists s a) = c) (db_cmdlists db)"

definition names_ok :: "proc \<Rightarrow> bool" where
  "names_ok s \<longleftrightarrow> (\<forall>c. db_ok c s (cx_objdb (p_ctxs s c)))"

lemma each_entry_Nil [simp]: "each_entry P []"
  by (simp add: each_entry_def entries_def)

lemma each_entry_mono:
  "each_entry P m \<Longrightarrow> entries m' \<subseteq> entries m \<Longrightarrow> (\<And>k a. P k a \<Longrightarrow> Q k a) \<Longrightarrow> each_entry Q m'"
  unfolding each_entry_def by blast

lemma each_entry_new: "each_entry P m \<Longrightarrow> P k a \<Longrightarrow> each_entry P (omap_update k a m)"
  using entries_map(3) [of k a m] unfolding each_entry_def by blast

lemma db_ok_new [simp]: "db_ok c s objdb_new"
  by (simp add: db_ok_def objdb_new_def)

text \<open>It depends on the identity of the objects only.\<close>

lemma db_ok_keep:
  assumes "db_ok c s db" "db_sub db db'" "o_next s \<le> o_next s'"
    and "\<And>a. a < o_next s \<Longrightarrow> cp_id (o_copies s' a) = cp_id (o_copies s a) \<and> cp_ctx (o_copies s' a) = cp_ctx (o_copies s a)"
    and "\<And>a. a < o_next s \<Longrightarrow> dn_id (o_devnets s' a) = dn_id (o_devnets s a) \<and> dn_ctx (o_devnets s' a) = dn_ctx (o_devnets s a)"
    and "\<And>a. a < o_next s \<Longrightarrow> rq_id (o_infreqs s' a) = rq_id (o_infreqs s a)"
    and "\<And>a. a < o_next s \<Longrightarrow> lst_id (p_cmdlists s' a) = lst_id (p_cmdlists s a) \<and> lst_ctx (p_cmdlists s' a) = lst_ctx (p_cmdlists s a)"
  shows "db_ok c s' db'"
proof -
  note le = less_le_trans [OF _ assms(3)]
  have sub: "entries (db_copies db') \<subseteq> entries (db_copies db)" "entries (db_networks db') \<subseteq> entries (db_networks db)"
    "entries (db_infreqs db') \<subseteq> entries (db_infreqs db)" "entries (db_cmdlists db') \<subseteq> entries (db_cmdlists db)"
    using assms(2) by (simp_all add: db_sub_def)
  show ?thesis using assms(1) unfolding db_ok_def
    by (elim conjE, intro conjI)
      (erule each_entry_mono [OF _ sub(1)] each_entry_mono [OF _ sub(2)] each_entry_mono [OF _ sub(3)]
         each_entry_mono [OF _ sub(4)], simp add: assms(4-7) le)+
qed

lemma names_quiet: "quiet c s s' \<Longrightarrow> names_ok s \<Longrightarrow> names_ok s'"
  unfolding names_ok_def
proof
  fix d assume q: "quiet c s s'" and ok: "\<forall>c. db_ok c s (cx_objdb (p_ctxs s c))"
  have "db_sub (cx_objdb (p_ctxs s d)) (cx_objdb (p_ctxs s' d))"
    using q by (cases "d = c") (auto simp: quiet_def ctx_quiet_def)
  then show "db_ok d s' (cx_objdb (p_ctxs s' d))"
    by (rule db_ok_keep [OF ok [rule_format]]) (simp_all add: quiet_fields [OF q])
qed

section \<open>Updates of the state\<close>

lemma names_eq:
  assumes "\<And>c. cx_objdb (p_ctxs s' c) = cx_objdb (p_ctxs s c)" "o_next s' = o_next s"
    and "\<And>a. cp_id (o_copies s' a) = cp_id (o_copies s a) \<and> cp_ctx (o_copies s' a) = cp_ctx (o_copies s a)"
    and "\<And>a. dn_id (o_devnets s' a) = dn_id (o_devnets s a) \<and> dn_ctx (o_devnets s' a) = dn_ctx (o_devnets s a)"
    and "\<And>a. rq_id (o_infreqs s' a) = rq_id (o_infreqs s a)"
    and "\<And>a. lst_id (p_cmdlists s' a) = lst_id (p_cmdlists s a) \<and> lst_ctx (p_cmdlists s' a) = lst_ctx (p_cmdlists s a)"
  shows "names_ok s' = names_ok s"
  using assms by (simp add: names_ok_def db_ok_def)

lemma names_ctx [simp]: "(\<And>x. cx_objdb (f x) = cx_objdb x) \<Longrightarrow> names_ok (upd_ctx c f s) = names_ok s"
  "names_ok (upd_chan c g s) = names_ok s"
  by (rule names_eq; simp add: upd_chan_def upd_ctx_def)+

lemma names_objects [simp]:
  "names_ok (set_hostres a hr s) = names_ok s" "names_ok (set_devres a d s) = names_ok s"
  "names_ok (s\<lparr>o_hostres := h\<rparr>) = names_ok s" "names_ok (s\<lparr>o_devres := r\<rparr>) = names_ok s"
  "cp_id cp = cp_id (o_copies s a) \<and> cp_ctx cp = cp_ctx (o_copies s a) \<Longrightarrow> names_ok (set_copy a cp s) = names_ok s"
  "dn_id n = dn_id (o_devnets s a) \<and> dn_ctx n = dn_ctx (o_devnets s a) \<Longrightarrow> names_ok (set_devnet a n s) = names_ok s"
  "rq_id q = rq_id (o_infreqs s a) \<Longrightarrow> names_ok (set_infreq a q s) = names_ok s"
  "(\<And>l. lst_id (f l) = lst_id l \<and> lst_ctx (f l) = lst_ctx l) \<Longrightarrow> names_ok (upd_list a f s) = names_ok s"
  by (rule names_eq; simp add: heap_defs upd_list_def)+

lemma names_remove [simp]: "names_ok s \<Longrightarrow> names_ok (upd_db c (removeCopy i) s)"
  "names_ok s \<Longrightarrow> names_ok (upd_db c (removeDevNet i) s)" "names_ok s \<Longrightarrow> names_ok (upd_db c (removeInfReq j i) s)"
  "names_ok s \<Longrightarrow> names_ok (upd_db c (removeCommandList i) s)" "names_ok s \<Longrightarrow> names_ok (upd_db c clearAll s)"
  using quiet_remove names_quiet by blast+

text \<open>A new object, at an address that no entry has.\<close>

definition grown :: "proc \<Rightarrow> proc" where
  "grown s = s\<lparr>o_next := o_next s + 1\<rparr>"

lemma grown_addr: "o_next s \<noteq> - 1 \<Longrightarrow> o_next s < o_next s + 1"
  using unatSuc [of "o_next s"] by (simp add: word_less_nat_alt add.commute eq_neg_iff_add_eq_0)

lemma names_new:
  assumes "names_ok s" "o_next s \<noteq> - 1" "o_next s' = o_next s + 1"
    and "\<And>d. d \<noteq> c \<Longrightarrow> cx_objdb (p_ctxs s' d) = cx_objdb (p_ctxs s d)"
    and "\<And>a. a \<noteq> o_next s \<Longrightarrow> o_copies s' a = o_copies s a \<and> o_devnets s' a = o_devnets s a
       \<and> o_infreqs s' a = o_infreqs s a \<and> p_cmdlists s' a = p_cmdlists s a"
    and "db_ok c s' (cx_objdb (p_ctxs s c)) \<Longrightarrow> db_ok c s' (cx_objdb (p_ctxs s' c))"
  shows "names_ok s'"
  unfolding names_ok_def
proof
  fix d
  have "db_ok e s' (cx_objdb (p_ctxs s e))" for e
  proof (rule db_ok_keep [OF assms(1) [unfolded names_ok_def, rule_format]])
    show "o_next s \<le> o_next s'" using grown_addr [OF assms(2)] assms(3) by simp
  qed (use assms(5) in force)+
  then show "db_ok d s' (cx_objdb (p_ctxs s' d))" using assms(4,6) by (cases "d = c") auto
qed

lemma names_new_simps [simp]:
  assumes "names_ok s" "o_next s \<noteq> - 1"
  shows "names_ok (grown s)"
    "cx_objdb x = objdb_new \<Longrightarrow> names_ok (upd_ctx n (\<lambda>_. x) (grown s))"
    "n = o_next s \<and> m = o_next s \<and> cp_id cp = i \<and> cp_ctx cp = c \<Longrightarrow>
       names_ok (upd_db c (insertCopy i n) (set_copy m cp (grown s)))"
    "n = o_next s \<and> m = o_next s \<and> dn_id dn = i \<and> dn_ctx dn = c \<Longrightarrow>
       names_ok (upd_db c (insertDevNet i n) (set_devnet m dn (grown s)))"
    "n = o_next s \<and> m = o_next s \<and> rq_id q = i \<Longrightarrow>
       names_ok (upd_db c (insertInfReq j i n) (set_infreq m q (grown s)))"
    "n = o_next s \<and> m = o_next s \<and> lst_id l = i \<and> lst_ctx l = c \<Longrightarrow>
       names_ok (upd_db c (insertCommandList i n) (upd_list m (\<lambda>_. l) (grown s)))"
proof -
  note new = names_new [OF assms] and a = grown_addr [OF assms(2)]
  note up = upd_db_def upd_ctx_def upd_list_def heap_defs grown_def
  show "names_ok (grown s)" by (rule new) (simp_all add: grown_def)
  show "names_ok (upd_ctx n (\<lambda>_. x) (grown s))" if "cx_objdb x = objdb_new"
    by (rule new [of _ n]) (simp_all add: up that)
  show "names_ok (upd_db c (insertCopy i n) (set_copy m cp (grown s)))" if "n = o_next s \<and> m = o_next s \<and> cp_id cp = i \<and> cp_ctx cp = c"
    by (rule new [of _ c]) (simp_all add: up insertCopy_def db_ok_def each_entry_new that a)
  show "names_ok (upd_db c (insertDevNet i n) (set_devnet m dn (grown s)))" if "n = o_next s \<and> m = o_next s \<and> dn_id dn = i \<and> dn_ctx dn = c"
    by (rule new [of _ c]) (simp_all add: up insertDevNet_def db_ok_def each_entry_new that a)
  show "names_ok (upd_db c (insertInfReq j i n) (set_infreq m q (grown s)))" if "n = o_next s \<and> m = o_next s \<and> rq_id q = i"
    by (rule new [of _ c]) (simp_all add: up insertInfReq_def db_ok_def each_entry_new that a)
  show "names_ok (upd_db c (insertCommandList i n) (upd_list m (\<lambda>_. l) (grown s)))"
    if "n = o_next s \<and> m = o_next s \<and> lst_id l = i \<and> lst_ctx l = c"
    by (rule new [of _ c]) (simp_all add: up insertCommandList_def db_ok_def each_entry_new that a)
qed

lemma new_ids [simp]: "cp_id (copy_new c i d h fl m b) = i" "cp_ctx (copy_new c i d h fl m b) = c"
  "cp_id (copy_new_subres c i d) = i" "cp_ctx (copy_new_subres c i d) = c"
  "cp_id (copy_new_d2d c i d d') = i" "cp_ctx (copy_new_d2d c i d d') = c"
  "dn_id (devnet_new c i ds) = i" "dn_ctx (devnet_new c i ds) = c" "rq_id (infreq_new net i ins outs) = i"
  "lst_id (cmdlist_new i c) = i" "lst_ctx (cmdlist_new i c) = c"
  by (simp_all add: copy_new_def copy_new_subres_def copy_new_d2d_def devnet_new_def infreq_new_def cmdlist_new_def)

text \<open>What every operation keeps that creates no object.\<close>

abbreviation steady :: "proc \<Rightarrow> proc \<Rightarrow> bool" where
  "steady s s' \<equiv> o_next s' = o_next s \<and> (names_ok s \<longrightarrow> names_ok s')"

lemma new_addr_grown: "new_addr s = (o_next s, grown s)"
  by (simp add: new_addr_def grown_def)

lemma grown_next [simp]: "o_next (grown s) = o_next s + 1"
  by (simp add: grown_def)

end
