(* ===== verification/Api_Lists.thy ===== *)
theory Api_Lists
  imports Api_Networks
begin

text \<open>
  C functions of \<open>nnpiInference.cpp\<close> on command lists, and the end of the library in a process:
  \<open>nnpdrvFin\<close> destroys all objects, \<open>nnpiForkChildInferenceReset\<close> forgets them in the child of
  a fork.
\<close>

section \<open>Command lists\<close>

definition nnpdrvCreateCommandListBegin :: "u64 \<Rightarrow> api \<Rightarrow> (NNPError \<times> u64 option \<times> api) outcome" where
  "nnpdrvCreateCommandListBegin ctx st =
     (let c = find_hdl ctx (a_contexts st)
      in if c = null then Done (NNP_NO_SUCH_CONTEXT, None, st)
         else case cmdlist_create c (a_proc st) of
                (e, a, s) \<Rightarrow>
                  publish (\<lambda>m st. st\<lparr>a_cmdlists := m\<rparr>) (a_cmdlists st)
                    (\<lambda>h. upd_list (the a) (\<lambda>l. l\<lparr>lst_user_hdl := h\<rparr>)) (Done (e, a, s)) st)"

text \<open>\<open>no_batch\<close> is the presence of \<open>NNPI_NO_BATCH_COPIES\<close> in the environment.\<close>

definition nnpdrvCreateCommandListEnd ::
    "bool \<Rightarrow> int option \<Rightarrow> u64 \<Rightarrow> api \<Rightarrow> (NNPError \<times> api) outcome" where
  "nnpdrvCreateCommandListEnd no_batch opt_env commandList st =
     on_obj (find_hdl commandList (a_cmdlists st)) NNP_NO_SUCH_CMDLIST
       (finalize opt_env (\<not> no_batch)) st"

definition nnpdrvDestroyCommandList :: "u64 \<Rightarrow> api \<Rightarrow> (NNPError \<times> api) outcome" where
  "nnpdrvDestroyCommandList commandList st =
     destroy_obj (find_hdl commandList (a_cmdlists st)) NNP_NO_SUCH_CMDLIST
       (\<lambda>a s. Done (cmdlist_destroy a s))
       (\<lambda>st. st\<lparr>a_cmdlists := snd (remove_hdl commandList (a_cmdlists st))\<rparr>) st"

text \<open>The size a copy of a list is scheduled with: 0 for the whole, and nothing to be skipped.\<close>

abbreviation (input) NNP_SCHEDULE_SKIP_EXECUTION :: u32 where "NNP_SCHEDULE_SKIP_EXECUTION \<equiv> 1"

definition list_copy_size :: "u64 \<Rightarrow> u32 \<Rightarrow> u64" where
  "list_copy_size byteSize flags =
     (if and flags NNP_SCHEDULE_SKIP_EXECUTION \<noteq> 0 then 0
      else if byteSize = 0 then - 1 else byteSize)"

definition nnpdrvCommandListAppendCopy ::
    "u64 \<Rightarrow> u64 \<Rightarrow> u64 \<Rightarrow> u8 \<Rightarrow> u32 \<Rightarrow> api \<Rightarrow> (NNPError \<times> api) outcome" where
  "nnpdrvCommandListAppendCopy commandList copyHandle byteSize priority flags st =
     on_obj (find_hdl commandList (a_cmdlists st)) NNP_NO_SUCH_CMDLIST (\<lambda>a s.
       let cp = find_hdl copyHandle (a_copy st)
       in if cp = null then Done (NNP_NO_SUCH_COPY_HANDLE, s)
          else Done (append_cmd a
                 (Some (Cmd_Copy (copy_params_new cp priority (list_copy_size byteSize flags) s))) s)) st"

definition nnpdrvCommandListAppendInferRequest ::
    "u64 \<Rightarrow> u64 \<Rightarrow> inf_sched_params option \<Rightarrow> api \<Rightarrow> (NNPError \<times> api) outcome" where
  "nnpdrvCommandListAppendInferRequest commandList infReq schedParams st =
     on_obj (find_hdl commandList (a_cmdlists st)) NNP_NO_SUCH_CMDLIST (\<lambda>a s.
       let q = find_hdl infReq (a_infreqs st)
       in if q = null then Done (NNP_NO_SUCH_INFREQ_HANDLE, s)
          else Done (append_cmd a (Some (Cmd_InfReq (infreq_params_new q schedParams))) s)) st"

text \<open>
  Overwriting the parameters of the command that \<open>get_cmd_for_overwrite\<close> has marked: position
  \<open>k\<close> of the vector and, in a copy list there, copy \<open>j\<close>.
\<close>

definition overwrite_copy :: "u8 \<Rightarrow> u64 \<Rightarrow> 'a objects_scheme \<Rightarrow> u16 \<Rightarrow> sched_cmd \<Rightarrow> sched_cmd option" where
  "overwrite_copy priority sz s j cmd =
     (case cmd of
        Cmd_Copy p \<Rightarrow> Some (Cmd_Copy (copy_params_overwrite priority sz s p))
      | Cmd_CopyList l \<Rightarrow> Some (Cmd_CopyList (l\<lparr>clp_copies := (clp_copies l)
          [unat j := copy_params_overwrite priority sz s (clp_copies l ! unat j)]\<rparr>))
      | Cmd_InfReq r \<Rightarrow> None)"

definition overwrite_infreq :: "inf_sched_params option \<Rightarrow> sched_cmd \<Rightarrow> sched_cmd option" where
  "overwrite_infreq sp cmd =
     (case cmd of Cmd_InfReq r \<Rightarrow> Some (Cmd_InfReq (infreq_params_overwrite sp r)) | _ \<Rightarrow> None)"

definition overwrite_cmd ::
    "NNPError \<Rightarrow> u16 \<Rightarrow> (u16 \<Rightarrow> sched_cmd \<Rightarrow> sched_cmd option) \<Rightarrow> addr \<Rightarrow> proc \<Rightarrow> NNPError \<times> proc" where
  "overwrite_cmd err idx f a s =
     (case get_cmd_for_overwrite a idx s of
        (None, s1) \<Rightarrow> (NNP_INVALID_ARGUMENT, s1)
      | (Some (k, j), s1) \<Rightarrow>
          (case f j (lst_vec (p_cmdlists s1 a) ! k) of
             None \<Rightarrow> (err, s1)
           | Some x \<Rightarrow>
               (NNP_NO_ERROR, upd_list a (\<lambda>l. l\<lparr>lst_vec := (lst_vec l)[k := x]\<rparr>) s1)))"

definition nnpdrvCommandListOverwriteCopy ::
    "u64 \<Rightarrow> u16 \<Rightarrow> u64 \<Rightarrow> u8 \<Rightarrow> u32 \<Rightarrow> api \<Rightarrow> (NNPError \<times> api) outcome" where
  "nnpdrvCommandListOverwriteCopy commandList copy_idx byteSize priority flags st =
     on_obj (find_hdl commandList (a_cmdlists st)) NNP_NO_SUCH_CMDLIST
       (\<lambda>a s. Done (overwrite_cmd NNP_NO_SUCH_COPY_HANDLE copy_idx
                      (overwrite_copy priority (list_copy_size byteSize flags) s) a s)) st"

definition nnpdrvCommandListOverwriteInferRequest ::
    "u64 \<Rightarrow> u16 \<Rightarrow> inf_sched_params option \<Rightarrow> api \<Rightarrow> (NNPError \<times> api) outcome" where
  "nnpdrvCommandListOverwriteInferRequest commandList infreq_idx schedParams st =
     on_obj (find_hdl commandList (a_cmdlists st)) NNP_NO_SUCH_CMDLIST
       (\<lambda>a s. Done (overwrite_cmd NNP_NO_SUCH_INFREQ_HANDLE infreq_idx
                      (\<lambda>_. overwrite_infreq schedParams) a s)) st"

definition nnpdrvScheduleCommandList :: "u64 \<Rightarrow> api \<Rightarrow> (NNPError \<times> api) outcome" where
  "nnpdrvScheduleCommandList commandList st =
     on_obj (find_hdl commandList (a_cmdlists st)) NNP_NO_SUCH_CMDLIST schedule_list st"

definition nnpdrvWaitCommandList ::
    "u64 \<Rightarrow> u32 \<Rightarrow> nat \<Rightarrow> critical_info list \<Rightarrow> u32 option \<Rightarrow> api \<Rightarrow>
     (NNPError \<times> (critical_info list \<times> u32 option) \<times> api) outcome" where
  "nnpdrvWaitCommandList commandList timeoutUs n errors numErrs st =
     on_obj_out (find_hdl commandList (a_cmdlists st)) NNP_NO_SUCH_CMDLIST (errors, numErrs)
       (\<lambda>a s. obind (wait_list a timeoutUs n errors numErrs s)
                (\<lambda>(e, es, k, s1). Done (e, (es, k), s1))) st"

definition nnpdrvCommandListGetErrorMessage ::
    "u64 \<Rightarrow> u32 \<Rightarrow> u32 option \<Rightarrow> api \<Rightarrow> NNPError \<times> u32 option \<times> u8 list option" where
  "nnpdrvCommandListGetErrorMessage commandList index buf_size st =
     (let a = find_hdl commandList (a_cmdlists st)
      in if a = null then (NNP_NO_SUCH_CMDLIST, None, None)
         else getErrorMessage index buf_size (lst_errorList (p_cmdlists (a_proc st) a)))"

definition nnpdrvCommandListClearErrorState :: "u64 \<Rightarrow> api \<Rightarrow> (NNPError \<times> api) outcome" where
  "nnpdrvCommandListClearErrorState commandList st =
     on_obj (find_hdl commandList (a_cmdlists st)) NNP_NO_SUCH_CMDLIST clearErrors st"

section \<open>The end\<close>

text \<open>A loop of \<open>nnpdrvFin_no_wait\<close>: destroy the first object of a table while there is one.\<close>

partial_function (option) drain ::
    "(api \<Rightarrow> handle_map) \<Rightarrow> (u64 \<Rightarrow> api \<Rightarrow> (NNPError \<times> api) outcome) \<Rightarrow> api \<Rightarrow> api outcome option" where
  "drain tbl destroy st =
     (case get_first (tbl st) of
        None \<Rightarrow> Some (Done st)
      | Some h \<Rightarrow>
          (case destroy h st of
             Waits \<Rightarrow> Some Waits
           | Loops \<Rightarrow> Some Loops
           | Undefined \<Rightarrow> Some Undefined
           | Done (e, st1) \<Rightarrow> drain tbl destroy st1))"

definition nnpdrvFin :: "api \<Rightarrow> api outcome" where
  "nnpdrvFin st =
     obind (of_loop (drain a_cmdlists nnpdrvDestroyCommandList st)) (\<lambda>st1.
     obind (of_loop (drain a_infreqs nnpdrvDestroyInferRequest st1)) (\<lambda>st2.
     obind (of_loop (drain a_networks nnpdrvDestroyDeviceNetwork st2)) (\<lambda>st3.
     obind (of_loop (drain a_copy nnpdrvDestroyCopyHandle st3)) (\<lambda>st4.
     obind (of_loop (drain a_devres nnpdrvDestroyDeviceResource st4)) (\<lambda>st5.
     obind (of_loop (drain a_contexts nnpdrvDestroyInferContext
                       (st5\<lparr>a_hostres := clear_hdl (a_hostres st5)\<rparr>))) (\<lambda>st6.
     obind (wait_all (a_active st6) (a_proc st6)) (\<lambda>s.
       Done (st6\<lparr>a_proc := s\<rparr>))))))))"

definition nnpiForkChildInferenceReset :: "api \<Rightarrow> api outcome" where
  "nnpiForkChildInferenceReset st =
     obind (close_all (a_active st) (a_proc st)) (\<lambda>s.
       Done (st\<lparr>a_proc := s, a_cmdlists := clear_hdl (a_cmdlists st), a_copy := clear_hdl (a_copy st),
               a_infreqs := clear_hdl (a_infreqs st), a_networks := clear_hdl (a_networks st),
               a_devres := clear_hdl (a_devres st), a_hostres := clear_hdl (a_hostres st),
               a_contexts := clear_hdl (a_contexts st), a_active := active_destroy (a_active st)\<rparr>))"

end
