(* ===== verification/Api_Types.thy ===== *)
theory Api_Types
  imports Object_Names Paging Api_Lists Sample
begin

text \<open>
  What the handles of the C interface and the ids of the card name: an invariant of all its functions. The
  addresses of the heap are handed out in order, so that an object is allocated when its address is below
  \<open>o_next\<close>.
\<close>

section \<open>Operations that allocate nothing\<close>

named_theorems next_frame

lemma next_updates [simp]: "o_next (upd_chan c f s) = o_next s" "o_next (upd_db c g s) = o_next s"
  "o_next (upd_list a h s) = o_next s"
  by (simp_all add: upd_chan_def upd_db_def upd_list_def)

lemma next_objects [simp]: "o_next (set_hostres a hr s) = o_next s"
  "o_next (set_copy a cp s) = o_next s" "o_next (set_devres a d s) = o_next s"
  "o_next (set_devnet a n s) = o_next s" "o_next (set_infreq a q s) = o_next s"
  by (simp_all add: heap_defs)

lemma quiet_next: "quiet c s s' \<Longrightarrow> steady s s'"
  using names_quiet by (auto simp: quiet_def)

lemma copies_next: "copies_only s s' \<Longrightarrow> steady s s'"
  by (drule copies_only_quiet) (rule quiet_next)

lemma ctx_send_next [next_frame]: "ctx_send c m s = (ok, s') \<Longrightarrow> steady s s'"
  by (auto simp: ctx_send_def split: prod.splits)

lemma db_lookup_next [next_frame]: "db_lookup c (getCopy i) s = (a, s') \<Longrightarrow> steady s s'"
  "db_lookup c (getDevNet i) s = (a, s') \<Longrightarrow> steady s s'" "db_lookup c (getInfReq j i) s = (a, s') \<Longrightarrow> steady s s'"
  "db_lookup c (getCommandList i) s = (a, s') \<Longrightarrow> steady s s'"
  by (drule quiet_db_lookup; erule quiet_next)+

lemma wait_for_next [next_frame]: "wait_for cond c s = Done s' \<Longrightarrow> steady s s'"
  by (auto dest!: wait_for_Done quiet_next)

lemma wait_timeout_next [next_frame]: "wait_timeout us n cond c s = Done (b, s') \<Longrightarrow> steady s s'"
  by (auto dest!: wait_timeout_Done quiet_next)

lemma wait_create_next [next_frame]: "wait_create_command c k s = Done (ev, s') \<Longrightarrow> steady s s'"
  by (auto simp: wait_create_command_def Let_def split: option.splits elim!: obind_DoneE dest!: next_frame)

lemma send_create_next [next_frame]: "send_create_command c m k s = Done (r, s') \<Longrightarrow> steady s s'"
  by (auto simp: send_create_command_def split: prod.splits if_splits elim!: obind_DoneE dest!: next_frame)

lemma p2p_id_next [next_frame]: "getP2PtransactionID c s = (tr, s') \<Longrightarrow> steady s s'"
  by (auto simp: getP2PtransactionID_def)

lemma alloc_net_next [next_frame]: "allocDevNetID c s = (e, i, s') \<Longrightarrow> steady s s'"
  by (auto simp: allocDevNetID_def split: prod.splits option.splits)

lemma alloc_req_next [next_frame]: "allocInfReqID a s = (e, i, s') \<Longrightarrow> steady s s'"
  by (auto simp: allocInfReqID_def Let_def split: prod.splits option.splits)

lemma pre_schedule_next [next_frame]: "pre_schedule_on hr a s = Done (r, s') \<Longrightarrow> steady s s'"
  "pre_schedule a s = Done (r, s') \<Longrightarrow> steady s s'"
  by (auto simp: pre_schedule_def dest!: pre_schedule_on_frame copies_next)

lemma post_schedule_next [next_frame]: "post_schedule el a s = Done (el', s') \<Longrightarrow> steady s s'"
  by (drule post_schedule_frame) (rule copies_next)

lemmas next_splits = prod.splits option.splits if_splits

section \<open>Context operations\<close>

lemma createDevRes_next [next_frame]: "createDevRes c sz d al fl s = Done (e, i, p, s') \<Longrightarrow> steady s s'"
  by (auto simp: createDevRes_def Let_def split: next_splits elim!: obind_DoneE dest!: next_frame)

lemma create_copy_next [next_frame]: "create_copy_op c msg s = Done (e, i, s') \<Longrightarrow> steady s s'"
  by (auto simp: create_copy_op_def Let_def split: next_splits elim!: obind_DoneE dest!: next_frame)

lemma createCopy_next [next_frame]: "createCopy c d h b u s = Done (e, i, s') \<Longrightarrow> steady s s'"
  "createDeviceToDeviceCopy c x1 x2 x3 x4 x5 s = Done (e, i, s') \<Longrightarrow> steady s s'"
  by (auto simp: createCopy_def createDeviceToDeviceCopy_def dest!: next_frame)

lemma send_ops_next [next_frame]:
  "destroyDevRes c i s = (e, s') \<Longrightarrow> steady s s'" "markDevResDirty c i s = (e, s') \<Longrightarrow> steady s s'"
  "destroyCopy c i s = (e, s') \<Longrightarrow> steady s s'" "scheduleCopy c i sz p s = (e, s') \<Longrightarrow> steady s s'"
  "scheduleCopySubres c i m off sz s = (e, s') \<Longrightarrow> steady s s'"
  "sendQueryErrorList c q b s = (e, s') \<Longrightarrow> steady s s'"
  "trace_user_data c key v s = (e, s') \<Longrightarrow> steady s s'"
  "send_user_handle c t i j h s = (e, s') \<Longrightarrow> steady s s'"
  by (auto simp: destroyDevRes_def markDevResDirty_def destroyCopy_def scheduleCopy_def scheduleCopySubres_def
      sendQueryErrorList_def trace_user_data_def send_user_handle_def Let_def split: next_splits dest!: next_frame)

lemma send_user_handle_next [simp]: "o_next (snd (send_user_handle c t i j h s)) = o_next s"
  "names_ok s \<Longrightarrow> names_ok (snd (send_user_handle c t i j h s))"
  using send_ops_next(8) [of c t i j h s] by (metis prod.collapse)+

lemma wait_ops_next [next_frame]:
  "wait_can_schedule c s = Done (b, s') \<Longrightarrow> steady s s'"
  "waitErrorListQueryCompletion c tg s = Done (e, s') \<Longrightarrow> steady s s'"
  "waitMarker c m us n s = Done (e, s') \<Longrightarrow> steady s s'"
  by (auto simp: wait_can_schedule_def waitErrorListQueryCompletion_def waitMarker_def Let_def
      split: next_splits elim!: obind_DoneE dest!: next_frame)

lemma createMarker_next [next_frame]: "createMarker c s = (e, m, s') \<Longrightarrow> steady s s'"
  by (auto simp: createMarker_def Let_def split: next_splits dest!: next_frame)

lemma parse_next [next_frame]: "parseErrorEvent c ev out s = (o1, s') \<Longrightarrow> steady s s'"
  "parseExecError c l i out s = (o1, s') \<Longrightarrow> steady s s'"
  by (auto simp: parseErrorEvent_def parseExecError_def Let_def split: next_splits dest!: next_frame)

lemma waitCriticalError_next [next_frame]: "waitCriticalError c us n out s = Done (e, o1, s') \<Longrightarrow> steady s s'"
  by (auto simp: waitCriticalError_def Let_def split: next_splits elim!: obind_DoneE dest!: next_frame)

lemma recover_next [next_frame]: "recover c s = Done (e, s') \<Longrightarrow> steady s s'"
  by (auto simp: recover_def Let_def split: next_splits elim!: obind_DoneE dest!: next_frame)

lemma stays_next: "stays_quiet c s r \<Longrightarrow> r = Done s' \<Longrightarrow> steady s s'"
  by (metis stays_quiet_def quiet_next)

lemma killed_begin_next [next_frame]: "killed_begin c b s = Done (w, s') \<Longrightarrow> steady s s'"
  using killed_begin_quiet [of c s b] by (auto simp: quiet_event_def dest: quiet_next)

lemma complete_all_next [next_frame]: "completeAllCommandLists c s = Done s' \<Longrightarrow> steady s s'"
  using completeAll_quiet by (rule stays_next)

lemma killed_end_next [simp]: "o_next (killed_end c s) = o_next s" "names_ok s \<Longrightarrow> names_ok (killed_end c s)"
  using quiet_next [OF killed_end_quiet] by blast+

lemma chan_kill_next [next_frame]: "chan_kill c b s = Done s' \<Longrightarrow> steady s s'"
  by (auto simp: chan_kill_def Let_def split: next_splits elim!: obind_DoneE dest!: next_frame)

lemma context_ops_next [next_frame]: "context_create c errs fl s = Done (e, s') \<Longrightarrow> steady s s'"
  "context_destroy c s = Done (e, s') \<Longrightarrow> steady s s'"
  by (auto simp: context_create_def context_destroy_def Let_def split: next_splits elim!: obind_DoneE dest!: next_frame)

section \<open>Command lists\<close>

lemma append_next [next_frame]: "append_cmd a x s = (e, s') \<Longrightarrow> steady s s'"
  "get_cmd_for_overwrite a i s = (r, s') \<Longrightarrow> steady s s'"
  "cmdlist_destroy a s = (e, s') \<Longrightarrow> steady s s'"
  by (auto simp: append_cmd_def get_cmd_for_overwrite_def cmdlist_destroy_def Let_def
      split: next_splits dest!: next_frame)

lemma list_updates_next [simp]: "o_next (set_cmd_ring c i rb s) = o_next s" "o_next (unlock_page c i n s) = o_next s"
  "o_next (optimize_batch_copies a s) = o_next s" "o_next (set_locked b a s) = o_next s"
  "o_next (set_in_flight b a s) = o_next s" "o_next (cmdlist_finalized_add c k s) = o_next s"
  "names_ok (set_cmd_ring c i rb s) = names_ok s" "names_ok (unlock_page c i n s) = names_ok s"
  "names_ok (optimize_batch_copies a s) = names_ok s" "names_ok (set_locked b a s) = names_ok s"
  "names_ok (set_in_flight b a s) = names_ok s" "names_ok (cmdlist_finalized_add c k s) = names_ok s"
  by (simp_all add: set_cmd_ring_def unlock_page_def optimize_batch_copies_def set_locked_def set_in_flight_def
      cmdlist_finalized_add_def split: option.splits)

lemma page_next [next_frame]: "lock_page c i s = Done (dst, cont, s') \<Longrightarrow> steady s s'"
  "write_page c i off bs s = Done s' \<Longrightarrow> steady s s'"
  by (auto simp: lock_page_def write_page_def split: next_splits elim!: obind_DoneE dest!: next_frame)

lemma send_page_next [next_frame]: "send_page c i off bs m s = Done (ok, s') \<Longrightarrow> steady s s'"
  by (auto simp: send_page_def split: next_splits elim!: obind_DoneE dest!: next_frame)

lemma sends_next: "sends c ms s s' \<Longrightarrow> steady s s'"
  using quiet_next [of c "add_sent c ms s" s'] by (simp add: sends_def add_sent_def)

lemma send_pages_next:
  assumes "send_pages c i mk edits f acc todo s = Some (Done (e, vec, s'))"
  shows "steady s s'"
proof -
  have "\<forall>e vec s'. r = Done (e, vec, s') \<longrightarrow> steady s s'"
    if "send_pages c i mk edits f acc todo s = Some r" for r
    using that
    by (rule send_pages_run [where P = "\<lambda>acc todo s r. \<forall>e vec s'. r = Done (e, vec, s') \<longrightarrow> steady s s'"])
      (auto simp: quiet_next sends_next)
  then show ?thesis using assms by blast
qed

lemma send_to_card_next [next_frame]: "send_to_card b env a s = Done (e, s') \<Longrightarrow> steady s s'"
  by (auto simp: send_to_card_def Let_def of_loop_def split: next_splits elim!: obind_DoneE
      dest!: next_frame send_pages_next)

lemma finalize_next [next_frame]: "finalize env b a s = Done (e, s') \<Longrightarrow> steady s s'"
  by (auto simp: finalize_def with_list_lock_def Let_def split: next_splits elim!: obind_DoneE dest!: next_frame)

lemma prepare_copies_next [next_frame]: "prepare_copies as s = Done (r, tried, s') \<Longrightarrow> steady s s'"
proof (induction as arbitrary: s r tried)
  case (Cons a as)
  then show ?case by (auto split: if_splits elim!: obind_DoneE dest!: next_frame)
qed simp

lemma done_copies_next [next_frame]: "done_copies el as s = Done (el', s') \<Longrightarrow> steady s s'"
  by (drule done_copies_frame) (rule copies_next)

lemma commands_next [next_frame]: "prepare_schedule x s = Done (r, s') \<Longrightarrow> steady s s'"
  "schedule_done el x s = Done (el', s') \<Longrightarrow> steady s s'"
proof -
  show "prepare_schedule x s = Done (r, s') \<Longrightarrow> steady s s'"
    by (cases x) (auto split: if_splits elim!: obind_DoneE dest!: next_frame)
qed (auto dest!: schedule_done_frame copies_next)

lemma prepare_cmds_next [next_frame]: "prepare_cmds xs s = Done (r, s') \<Longrightarrow> steady s s'"
proof (induction xs arbitrary: s r s')
  case (Cons x xs)
  then show ?case by (fastforce split: if_splits elim!: obind_DoneE dest!: next_frame)
qed simp

lemma done_cmds_next [next_frame]: "done_cmds xs s = Done s' \<Longrightarrow> steady s s'"
proof (induction xs arbitrary: s)
  case (Cons x xs)
  then show ?case by (fastforce elim!: obind_DoneE dest!: next_frame)
qed simp

lemma schedule_list_next [next_frame]: "schedule_list a s = Done (e, s') \<Longrightarrow> steady s s'"
  by (auto simp: schedule_list_def with_list_lock_def Let_def split: next_splits elim!: obind_DoneE dest!: next_frame)

lemma clearErrors_next [next_frame]: "clearErrors a s = Done (e, s') \<Longrightarrow> steady s s'"
  by (auto simp: clearErrors_def with_list_lock_def Let_def split: next_splits elim!: obind_DoneE dest!: next_frame)

lemma parse_errors_next [next_frame]: "parse_errors c l i n outs s = Done (outs', s') \<Longrightarrow> steady s s'"
  by (induction c l i n outs s rule: parse_errors.induct) (auto split: if_splits prod.splits dest!: next_frame)

lemma wait_list_next [next_frame]: "wait_list a us n outs k s = Done (e, es, j, s') \<Longrightarrow> steady s s'"
  by (auto simp: wait_list_def Let_def split: next_splits elim!: obind_DoneE dest!: next_frame)

section \<open>Resources, copies, networks, infer requests\<close>

text \<open>An operation that creates an object, or not.\<close>

definition allocates :: "proc \<Rightarrow> addr option \<Rightarrow> proc \<Rightarrow> bool" where
  "allocates s r s' \<longleftrightarrow> (o_next s \<noteq> - 1 \<longrightarrow> names_ok s \<longrightarrow> names_ok s') \<and> (case r of
     Some a \<Rightarrow> a = o_next s \<and> o_next s' = o_next s + 1
   | None \<Rightarrow> o_next s' = o_next s \<or> o_next s' = o_next s + 1)"

lemma allocates_simps [simp]: "allocates s None s' \<longleftrightarrow> (o_next s \<noteq> - 1 \<longrightarrow> names_ok s \<longrightarrow> names_ok s')
    \<and> (o_next s' = o_next s \<or> o_next s' = o_next s + 1)"
  "allocates s (Some a) s' \<longleftrightarrow> (o_next s \<noteq> - 1 \<longrightarrow> names_ok s \<longrightarrow> names_ok s') \<and> a = o_next s \<and> o_next s' = o_next s + 1"
  by (simp_all add: allocates_def)

lemma devres_create_allocates: "devres_create c sz d al fl junk s = Done (e, r, s') \<Longrightarrow> allocates s r s'"
  by (auto simp: devres_create_def new_addr_grown Let_def split: next_splits elim!: obind_DoneE dest!: next_frame)

lemma devres_ops_next [next_frame]: "devres_destroy a s = (e, s') \<Longrightarrow> steady s s'"
  "markDirty a s = (e, s') \<Longrightarrow> steady s s'"
  by (auto simp: devres_destroy_def markDirty_def Let_def split: next_splits dest!: next_frame)

lemma d2d_pair_next [next_frame]: "d2d_pair a p junk s = Done (e, s') \<Longrightarrow> steady s s'"
  by (auto simp: d2d_pair_def Let_def split: next_splits elim!: obind_DoneE dest!: next_frame)

lemma copy_create_allocates: "copy_create c d h b mr en s = Done (e, r, s') \<Longrightarrow> allocates s r s'"
  by (auto simp: copy_create_def new_addr_grown Let_def split: next_splits elim!: obind_DoneE dest!: next_frame)

lemma p2p_request_next [next_frame]: "p2p_request c msg s = Done (e, i, s') \<Longrightarrow> steady s s'"
  by (auto simp: p2p_request_def Let_def split: next_splits elim!: obind_DoneE dest!: next_frame)

lemma unless_error_Done:
  assumes "unless_error r f = Done (e, s')"
  obtains (fails) x where "r = Done (e, x, s')" | (goes_on) x t where "r = Done (NNP_NO_ERROR, x, t)" "f x t = Done (e, s')"
  using assms by (auto simp: unless_error_def split: if_splits elim!: obind_DoneE)

lemma update_peers_next [next_frame]: "update_peers dst src junk s = Done (e, s') \<Longrightarrow> steady s s'"
  unfolding update_peers_def Let_def
  by (auto split: if_splits elim!: unless_error_Done obind_DoneE dest!: next_frame)

lemma create_d2d_allocates: "create_d2d c dst src junk s = Done (e, r, s') \<Longrightarrow> allocates s r s'"
  by (auto simp: create_d2d_def new_addr_grown Let_def split: next_splits elim!: obind_DoneE dest!: next_frame)

lemma copy_ops_next [next_frame]: "copy_destroy a s = (e, s') \<Longrightarrow> steady s s'"
  "copy_schedule a sz p s = Done (e, s') \<Longrightarrow> steady s s'"
  by (auto simp: copy_destroy_def copy_schedule_def Let_def split: next_splits elim!: obind_DoneE dest!: next_frame)

lemma send_net_pages_next [next_frame]: "send_net_pages c mk i ids conf s = Done (e, s') \<Longrightarrow> steady s s'"
proof (induction c mk i ids conf s rule: send_net_pages.induct)
  case (1 c mk i ids conf s)
  let ?p = "net_page ids conf"
  from "1.prems" obtain dst cont s1 where l: "lock_page c 0 s = Done (dst, cont, s1)"
    and r: "(case dst of None \<Rightarrow> Done (NNP_IO_ERROR, s1)
       | Some off \<Rightarrow> obind (send_page c 0 off (fst ?p) (mk i) s1) (\<lambda>(ok, s2).
            if \<not> ok then Done (NNP_IO_ERROR, s2)
            else if fst (snd ?p) = [] \<and> snd (snd ?p) = [] then Done (NNP_NO_ERROR, s2)
            else send_net_pages c mk (i + of_nat (min (length ids) 2048)) (fst (snd ?p)) (snd (snd ?p)) s2))
        = Done (e, s')"
    by (subst (asm) send_net_pages.simps) (auto elim!: obind_DoneE)
  show ?case
  proof (cases dst)
    case None
    then show ?thesis using r l by (auto dest!: next_frame)
  next
    case (Some off)
    then obtain ok s2 where p: "send_page c 0 off (fst ?p) (mk i) s1 = Done (ok, s2)"
      using r by (auto elim!: obind_DoneE)
    have "steady s s2" using l p by (auto dest!: next_frame)
    then show ?thesis
      using "1.IH" [OF l refl refl Some p refl] r Some p by (auto split: if_splits simp del: send_net_pages.simps)
  qed
qed

lemma send_create_or_add_next [next_frame]: "send_create_or_add c i b ids conf s = Done (e, s') \<Longrightarrow> steady s s'"
  by (auto simp: send_create_or_add_def Let_def split: next_splits elim!: obind_DoneE dest!: next_frame
      simp del: send_net_pages.simps)

lemma devnet_create_allocates: "devnet_create c ds conf s = Done (e, r, s') \<Longrightarrow> allocates s r s'"
  by (auto simp: devnet_create_def new_addr_grown Let_def split: next_splits elim!: obind_DoneE dest!: next_frame)

lemma devnet_ops_next [next_frame]: "add_resources a ds conf s = Done (e, s') \<Longrightarrow> steady s s'"
  "setProperty a p v us s = Done (e, s') \<Longrightarrow> steady s s'"
  "devnet_destroy a s = (e, s') \<Longrightarrow> steady s s'"
  by (auto simp: add_resources_def setProperty_def devnet_destroy_def Let_def split: next_splits elim!: obind_DoneE
      dest!: next_frame)

lemma infreq_create_allocates: "infreq_create net ins outs cd n s = Done (e, r, s') \<Longrightarrow> allocates s r s'"
  by (auto simp: infreq_create_def new_addr_grown Let_def split: next_splits elim!: obind_DoneE dest!: next_frame)

lemma infreq_ops_next [next_frame]: "infreq_destroy a s = (e, s') \<Longrightarrow> steady s s'"
  "infreq_schedule a sp s = Done (e, s') \<Longrightarrow> steady s s'"
  by (auto simp: infreq_destroy_def infreq_schedule_def Let_def split: next_splits elim!: obind_DoneE dest!: next_frame)

lemma context_new_allocates: "cx_objdb x = objdb_new \<Longrightarrow> context_new en ce x errs fl s = Done (e, r, s') \<Longrightarrow> allocates s r s'"
  by (auto simp: context_new_def new_addr_grown Let_def split: next_splits elim!: obind_DoneE dest!: next_frame)

lemma cmdlist_create_allocates: "cmdlist_create c s = (e, r, s') \<Longrightarrow> allocates s r s'"
  by (auto simp: cmdlist_create_def new_addr_grown Let_def split: next_splits dest!: next_frame)

section \<open>Tables\<close>

text \<open>Every handle stands for an allocated object, and no two for the same one.\<close>

definition tbl_ok :: "addr \<Rightarrow> handle_map \<Rightarrow> bool" where
  "tbl_ok n m \<longleftrightarrow> omap_ok m \<and> (\<forall>k v. map_of m k = Some v \<longrightarrow> v \<noteq> null \<and> v < n)
     \<and> (\<forall>k k' v. map_of m k = Some v \<and> map_of m k' = Some v \<longrightarrow> k = k')"

lemma tbl_ok_Nil [simp]: "tbl_ok n []" "tbl_ok n (clear_hdl m)"
  by (simp_all add: tbl_ok_def clear_hdl_def)

lemma tbl_ok_mono: "tbl_ok n m \<Longrightarrow> n \<le> n' \<Longrightarrow> tbl_ok n' m"
  unfolding tbl_ok_def using less_le_trans by fast

lemma tbl_ok_remove: "tbl_ok n m \<Longrightarrow> tbl_ok n (snd (remove_hdl h m))"
  by (auto simp: tbl_ok_def remove_hdl_def split: if_splits)

lemma probe_free_slot: "probe m h0 = Some h \<Longrightarrow> map_of m h = None"
proof (erule probe.raw_induct [where P = "\<lambda>m h0 h. map_of m h = None", rotated])
  fix prb m hdl ca
  assume "\<And>m hdl y. prb m hdl = Some y \<Longrightarrow> map_of m y = None"
    and "(if map_of m hdl \<noteq> None then prb m (hdl + 1) else Some hdl) = Some ca"
  then show "map_of m ca = None" by (auto split: if_splits)
qed

lemma tbl_ok_new:
  assumes "tbl_ok n m" "makeHandle n m = Some (h, m')" "n < n'" "n \<noteq> null"
  shows "tbl_ok n' m'"
proof -
  have p: "probe m n = Some h" "m' = omap_update h n m"
    using assms(2,4) by (auto simp: makeHandle_def)
  then have "map_of m h = None" using probe_free_slot by blast
  moreover have "map_of m k \<noteq> Some n" for k using assms(1) by (auto simp: tbl_ok_def)
  moreover have "v < n'" if "map_of m k = Some v" for k v
    using assms(1,3) that less_trans unfolding tbl_ok_def by blast
  ultimately show ?thesis using assms p(2) by (auto simp: tbl_ok_def split: if_splits)
qed

text \<open>The tables of the library, and no object in two of them.\<close>

definition tables :: "api \<Rightarrow> handle_map list" where
  "tables st = [a_contexts st, a_hostres st, a_devres st, a_copy st, a_networks st, a_infreqs st, a_cmdlists st]"

abbreviation objects_in :: "handle_map \<Rightarrow> addr set" where
  "objects_in m \<equiv> ran (map_of m)"

definition tables_apart :: "api \<Rightarrow> bool" where
  "tables_apart st \<longleftrightarrow> sorted_wrt (\<lambda>m m'. objects_in m \<inter> objects_in m' = {}) (tables st)"

lemma apart_update:
  assumes "sorted_wrt (\<lambda>m m'. objects_in m \<inter> objects_in m' = {}) xs" "i < length xs"
    and "objects_in m \<subseteq> insert n (objects_in (xs ! i))" "\<forall>x\<in>set xs. n \<notin> objects_in x"
  shows "sorted_wrt (\<lambda>m m'. objects_in m \<inter> objects_in m' = {}) (xs[i := m])"
proof -
  have apart: "objects_in (xs ! j) \<inter> objects_in (xs ! k) = {}" if "j < k" "k < length xs" for j k
    using assms(1) that by (simp add: sorted_wrt_iff_nth_less)
  have fresh: "n \<notin> objects_in (xs ! j)" if "j < length xs" for j using assms(4) that by simp
  have "objects_in m \<inter> objects_in (xs ! j) = {}" if "j < length xs" "j \<noteq> i" for j
    using apart [of i j] apart [of j i] fresh [OF that(1)] assms(2,3) that by (cases "i < j") auto
  then show ?thesis using apart assms(2)
    by (auto simp: sorted_wrt_iff_nth_less nth_list_update Int_commute)
qed

lemma tables_update:
  shows "tables (st\<lparr>a_contexts := m\<rparr>) = (tables st)[0 := m]"
    "tables (st\<lparr>a_hostres := m\<rparr>) = (tables st)[1 := m]"
    "tables (st\<lparr>a_devres := m\<rparr>) = (tables st)[2 := m]"
    "tables (st\<lparr>a_copy := m\<rparr>) = (tables st)[3 := m]"
    "tables (st\<lparr>a_networks := m\<rparr>) = (tables st)[4 := m]"
    "tables (st\<lparr>a_infreqs := m\<rparr>) = (tables st)[5 := m]"
    "tables (st\<lparr>a_cmdlists := m\<rparr>) = (tables st)[6 := m]"
    "tables (st\<lparr>a_proc := s\<rparr>) = tables st" "length (tables st) = 7"
  by (simp_all add: tables_def)

lemma objects_remove: "omap_ok m \<Longrightarrow> objects_in (snd (remove_hdl h m)) \<subseteq> objects_in m"
  by (auto simp: remove_hdl_def ran_def split: if_splits)

lemma objects_makeHandle: "makeHandle a m = Some (h, m') \<Longrightarrow> objects_in m' \<subseteq> insert a (objects_in m)"
  by (auto simp: makeHandle_def ran_def split: if_splits)

lemma tbl_ok_fresh: "tbl_ok n m \<Longrightarrow> n \<notin> objects_in m"
  by (auto simp: tbl_ok_def ran_def)

definition api_ok :: "api \<Rightarrow> bool" where
  "api_ok st \<longleftrightarrow> (let n = o_next (a_proc st) in n \<noteq> null
     \<and> tbl_ok n (a_contexts st) \<and> tbl_ok n (a_hostres st) \<and> tbl_ok n (a_devres st) \<and> tbl_ok n (a_copy st)
     \<and> tbl_ok n (a_networks st) \<and> tbl_ok n (a_infreqs st) \<and> tbl_ok n (a_cmdlists st)
     \<and> tables_apart st \<and> names_ok (a_proc st))"

lemma api_ok_proc: "api_ok st \<Longrightarrow> steady (a_proc st) s \<Longrightarrow> api_ok (st\<lparr>a_proc := s\<rparr>)"
  by (simp add: api_ok_def Let_def tables_apart_def tables_def)

lemma next_addr: "n \<noteq> - 1 \<Longrightarrow> n < n + 1 \<and> n + 1 \<noteq> 0" for n :: addr
proof -
  assume "n \<noteq> - 1"
  then have "n + 1 \<noteq> 0" by (simp add: eq_neg_iff_add_eq_0)
  then have "unat (n + 1) = Suc (unat n)" using unatSuc [of n] by (simp add: add.commute)
  then show ?thesis using \<open>n + 1 \<noteq> 0\<close> by (simp add: word_less_nat_alt)
qed

lemma api_ok_grow:
  assumes "api_ok st" "o_next s = o_next (a_proc st) + 1" "o_next (a_proc st) \<noteq> - 1" "names_ok s"
  shows "api_ok (st\<lparr>a_proc := s\<rparr>)"
  using assms(1) next_addr [OF assms(3)] tbl_ok_mono [of "o_next (a_proc st)" _ "o_next s"] assms(2,4)
  unfolding api_ok_def Let_def tables_apart_def tables_def by auto

lemma api_okD:
  assumes "api_ok st"
  shows "tbl_ok (o_next (a_proc st)) (a_contexts st)" "tbl_ok (o_next (a_proc st)) (a_hostres st)"
    "tbl_ok (o_next (a_proc st)) (a_devres st)" "tbl_ok (o_next (a_proc st)) (a_copy st)"
    "tbl_ok (o_next (a_proc st)) (a_networks st)" "tbl_ok (o_next (a_proc st)) (a_infreqs st)"
    "tbl_ok (o_next (a_proc st)) (a_cmdlists st)" "tables_apart st" "names_ok (a_proc st)"
  using assms by (simp_all add: api_ok_def Let_def)

section \<open>The shapes of the functions\<close>

text \<open>An operation that allocates nothing, on the object of a handle.\<close>

definition keeps_next :: "(addr \<Rightarrow> proc \<Rightarrow> (NNPError \<times> proc) outcome) \<Rightarrow> bool" where
  "keeps_next f \<longleftrightarrow> (\<forall>a s e s'. f a s = Done (e, s') \<longrightarrow> steady s s')"

lemma on_obj_ok:
  "on_obj a err f st = Done (e, st') \<Longrightarrow> keeps_next f \<Longrightarrow> api_ok st \<Longrightarrow> api_ok st'"
  by (auto simp: on_obj_def on_proc_def keeps_next_def api_ok_proc split: if_splits elim!: obind_DoneE)

lemma destroy_obj_ok:
  assumes "destroy_obj a err f remove st = Done (e, st')" "keeps_next f" "api_ok st"
    and "\<And>st. api_ok st \<Longrightarrow> api_ok (remove st)"
  shows "api_ok st'"
  using assms(1) on_obj_ok [OF _ assms(2,3)] assms(4)
  by (auto simp: destroy_obj_def split: if_splits elim!: obind_DoneE)

lemma remove_ok:
  assumes "api_ok st"
  shows "api_ok (st\<lparr>a_contexts := snd (remove_hdl h (a_contexts st))\<rparr>)"
    "api_ok (st\<lparr>a_hostres := snd (remove_hdl h (a_hostres st))\<rparr>)"
    "api_ok (st\<lparr>a_devres := snd (remove_hdl h (a_devres st))\<rparr>)"
    "api_ok (st\<lparr>a_copy := snd (remove_hdl h (a_copy st))\<rparr>)"
    "api_ok (st\<lparr>a_networks := snd (remove_hdl h (a_networks st))\<rparr>)"
    "api_ok (st\<lparr>a_infreqs := snd (remove_hdl h (a_infreqs st))\<rparr>)"
    "api_ok (st\<lparr>a_cmdlists := snd (remove_hdl h (a_cmdlists st))\<rparr>)"
proof -
  note d = api_okD [OF assms]
  have sub: "objects_in (snd (remove_hdl h m)) \<subseteq> insert (o_next (a_proc st)) (objects_in m)" if "tbl_ok (o_next (a_proc st)) m" for m
    using that objects_remove unfolding tbl_ok_def by blast
  have fresh: "\<forall>x\<in>set (tables st). o_next (a_proc st) \<notin> objects_in x"
    using d(1-7) [THEN tbl_ok_fresh] by (simp add: tables_def)
  note less = apart_update [OF d(8) [unfolded tables_apart_def] _ _ fresh, unfolded tables_update(9)]
  show "api_ok (st\<lparr>a_contexts := snd (remove_hdl h (a_contexts st))\<rparr>)"
    using assms less [of 0 "snd (remove_hdl h (a_contexts st))"] sub [OF d(1)]
    by (simp add: api_ok_def Let_def tbl_ok_remove tables_apart_def tables_update) (simp add: tables_def)
  show "api_ok (st\<lparr>a_hostres := snd (remove_hdl h (a_hostres st))\<rparr>)"
    using assms less [of 1 "snd (remove_hdl h (a_hostres st))"] sub [OF d(2)]
    by (simp add: api_ok_def Let_def tbl_ok_remove tables_apart_def tables_update) (simp add: tables_def)
  show "api_ok (st\<lparr>a_devres := snd (remove_hdl h (a_devres st))\<rparr>)"
    using assms less [of 2 "snd (remove_hdl h (a_devres st))"] sub [OF d(3)]
    by (simp add: api_ok_def Let_def tbl_ok_remove tables_apart_def tables_update) (simp add: tables_def)
  show "api_ok (st\<lparr>a_copy := snd (remove_hdl h (a_copy st))\<rparr>)"
    using assms less [of 3 "snd (remove_hdl h (a_copy st))"] sub [OF d(4)]
    by (simp add: api_ok_def Let_def tbl_ok_remove tables_apart_def tables_update) (simp add: tables_def)
  show "api_ok (st\<lparr>a_networks := snd (remove_hdl h (a_networks st))\<rparr>)"
    using assms less [of 4 "snd (remove_hdl h (a_networks st))"] sub [OF d(5)]
    by (simp add: api_ok_def Let_def tbl_ok_remove tables_apart_def tables_update) (simp add: tables_def)
  show "api_ok (st\<lparr>a_infreqs := snd (remove_hdl h (a_infreqs st))\<rparr>)"
    using assms less [of 5 "snd (remove_hdl h (a_infreqs st))"] sub [OF d(6)]
    by (simp add: api_ok_def Let_def tbl_ok_remove tables_apart_def tables_update) (simp add: tables_def)
  show "api_ok (st\<lparr>a_cmdlists := snd (remove_hdl h (a_cmdlists st))\<rparr>)"
    using assms less [of 6 "snd (remove_hdl h (a_cmdlists st))"] sub [OF d(7)]
    by (simp add: api_ok_def Let_def tbl_ok_remove tables_apart_def tables_update) (simp add: tables_def)
qed

lemma publish_ok:
  assumes "publish put m store r st = Done (e, h, st')" "api_ok st" "tbl_ok (o_next (a_proc st)) m"
    and "\<And>e a s. r = Done (e, a, s) \<Longrightarrow> allocates (a_proc st) a s" "\<And>h s. steady s (store h s)"
    and "\<And>m' s. o_next s = o_next (a_proc st) + 1 \<Longrightarrow> names_ok s \<Longrightarrow> tbl_ok (o_next s) m' \<Longrightarrow>
      objects_in m' \<subseteq> insert (o_next (a_proc st)) (objects_in m) \<Longrightarrow> api_ok (put m' (st\<lparr>a_proc := s\<rparr>))"
    and "o_next (a_proc st) \<noteq> - 1"
  shows "api_ok st'"
proof -
  obtain e1 a s where r: "r = Done (e1, a, s)"
    and rest: "(case a of None \<Rightarrow> Done (e1, None, st\<lparr>a_proc := s\<rparr>)
       | Some a \<Rightarrow> (case makeHandle a m of None \<Rightarrow> Loops
            | Some (h, m') \<Rightarrow> Done (NNP_NO_ERROR, Some h, put m' (st\<lparr>a_proc := store h s\<rparr>)))) = Done (e, h, st')"
    using assms(1) unfolding publish_def by (auto elim!: obind_DoneE)
  have al: "allocates (a_proc st) a s" by (rule assms(4) [OF r])
  have n: "o_next (a_proc st) \<noteq> null" using assms(2) by (simp add: api_ok_def Let_def)
  show ?thesis
  proof (cases a)
    case None
    then show ?thesis using rest al api_ok_proc [OF assms(2)] api_ok_grow [OF assms(2) _ assms(7)]
        assms(7) api_okD(9) [OF assms(2)] by auto
  next
    case (Some b)
    then obtain h1 m' where m': "makeHandle b m = Some (h1, m')" "st' = put m' (st\<lparr>a_proc := store h1 s\<rparr>)"
      using rest by (auto split: option.splits)
    have s: "o_next (store h1 s) = o_next (a_proc st) + 1" "names_ok (store h1 s)"
      using al Some assms(5) assms(7) api_okD(9) [OF assms(2)] by simp_all
    have "tbl_ok (o_next (store h1 s)) m'"
      using tbl_ok_new [OF assms(3) _ _ n] m'(1) al Some next_addr [OF assms(7)] s by simp
    moreover have "objects_in m' \<subseteq> insert (o_next (a_proc st)) (objects_in m)"
      using objects_makeHandle [OF m'(1)] al Some by simp
    ultimately show ?thesis unfolding m'(2) using s by (intro assms(6))
  qed
qed

text \<open>One table replaced by a well-formed one with no objects but the new one.\<close>

lemma put_ok:
  assumes "api_ok st" "o_next s = o_next (a_proc st) + 1" "o_next (a_proc st) \<noteq> - 1" "tbl_ok (o_next s) m" "names_ok s"
  shows "objects_in m \<subseteq> insert (o_next (a_proc st)) (objects_in (a_contexts st)) \<Longrightarrow> api_ok (st\<lparr>a_proc := s, a_contexts := m\<rparr>)"
    "objects_in m \<subseteq> insert (o_next (a_proc st)) (objects_in (a_hostres st)) \<Longrightarrow> api_ok (st\<lparr>a_proc := s, a_hostres := m\<rparr>)"
    "objects_in m \<subseteq> insert (o_next (a_proc st)) (objects_in (a_devres st)) \<Longrightarrow> api_ok (st\<lparr>a_proc := s, a_devres := m\<rparr>)"
    "objects_in m \<subseteq> insert (o_next (a_proc st)) (objects_in (a_copy st)) \<Longrightarrow> api_ok (st\<lparr>a_proc := s, a_copy := m\<rparr>)"
    "objects_in m \<subseteq> insert (o_next (a_proc st)) (objects_in (a_networks st)) \<Longrightarrow> api_ok (st\<lparr>a_proc := s, a_networks := m\<rparr>)"
    "objects_in m \<subseteq> insert (o_next (a_proc st)) (objects_in (a_infreqs st)) \<Longrightarrow> api_ok (st\<lparr>a_proc := s, a_infreqs := m\<rparr>)"
    "objects_in m \<subseteq> insert (o_next (a_proc st)) (objects_in (a_cmdlists st)) \<Longrightarrow> api_ok (st\<lparr>a_proc := s, a_cmdlists := m\<rparr>)"
proof -
  have g: "api_ok (st\<lparr>a_proc := s\<rparr>)" by (rule api_ok_grow [OF assms(1-3,5)])
  have fresh: "\<forall>x\<in>set (tables st). o_next (a_proc st) \<notin> objects_in x"
    using api_okD(1-7) [OF assms(1), THEN tbl_ok_fresh] by (simp add: tables_def)
  note new = apart_update [OF api_okD(8) [OF assms(1), unfolded tables_apart_def] _ _ fresh, unfolded tables_update(9)]
  show "objects_in m \<subseteq> insert (o_next (a_proc st)) (objects_in (a_contexts st)) \<Longrightarrow> api_ok (st\<lparr>a_proc := s, a_contexts := m\<rparr>)"
    using g assms(4) new [of 0 m] by (simp add: api_ok_def Let_def tables_apart_def tables_update) (simp add: tables_def)
  show "objects_in m \<subseteq> insert (o_next (a_proc st)) (objects_in (a_hostres st)) \<Longrightarrow> api_ok (st\<lparr>a_proc := s, a_hostres := m\<rparr>)"
    using g assms(4) new [of 1 m] by (simp add: api_ok_def Let_def tables_apart_def tables_update) (simp add: tables_def)
  show "objects_in m \<subseteq> insert (o_next (a_proc st)) (objects_in (a_devres st)) \<Longrightarrow> api_ok (st\<lparr>a_proc := s, a_devres := m\<rparr>)"
    using g assms(4) new [of 2 m] by (simp add: api_ok_def Let_def tables_apart_def tables_update) (simp add: tables_def)
  show "objects_in m \<subseteq> insert (o_next (a_proc st)) (objects_in (a_copy st)) \<Longrightarrow> api_ok (st\<lparr>a_proc := s, a_copy := m\<rparr>)"
    using g assms(4) new [of 3 m] by (simp add: api_ok_def Let_def tables_apart_def tables_update) (simp add: tables_def)
  show "objects_in m \<subseteq> insert (o_next (a_proc st)) (objects_in (a_networks st)) \<Longrightarrow> api_ok (st\<lparr>a_proc := s, a_networks := m\<rparr>)"
    using g assms(4) new [of 4 m] by (simp add: api_ok_def Let_def tables_apart_def tables_update) (simp add: tables_def)
  show "objects_in m \<subseteq> insert (o_next (a_proc st)) (objects_in (a_infreqs st)) \<Longrightarrow> api_ok (st\<lparr>a_proc := s, a_infreqs := m\<rparr>)"
    using g assms(4) new [of 5 m] by (simp add: api_ok_def Let_def tables_apart_def tables_update) (simp add: tables_def)
  show "objects_in m \<subseteq> insert (o_next (a_proc st)) (objects_in (a_cmdlists st)) \<Longrightarrow> api_ok (st\<lparr>a_proc := s, a_cmdlists := m\<rparr>)"
    using g assms(4) new [of 6 m] by (simp add: api_ok_def Let_def tables_apart_def tables_update) (simp add: tables_def)
qed

section \<open>The functions\<close>

lemma keeps_nextI: "(\<And>a s e s'. f a s = Done (e, s') \<Longrightarrow> steady s s') \<Longrightarrow> keeps_next f"
  by (simp add: keeps_next_def)

lemma keep_contexts: "keeps_next context_destroy" "keeps_next recover"
  "keeps_next (\<lambda>c s. Done (trace_user_data c key v s))" "keeps_next (\<lambda>c. waitMarker c m us n)"
  by (auto intro!: keeps_nextI dest!: next_frame)

lemma keep_resources: "keeps_next (\<lambda>a s. Done (devres_destroy a s))" "keeps_next (\<lambda>a s. Done (markDirty a s))"
  "keeps_next (\<lambda>a s. Done (copy_destroy a s))" "keeps_next (\<lambda>a. copy_schedule a sz p)"
  by (auto intro!: keeps_nextI dest!: next_frame)

lemma keep_locks:
  "keeps_next (\<lambda>a s. case lock_cpu_access us (w s a) rs (o_hostres s a) of
      None \<Rightarrow> Waits | Some (e, h) \<Rightarrow> Done (e, set_hostres a h s))"
  "keeps_next (\<lambda>a s. case unlock_cpu_access r (o_hostres s a) of (e, h) \<Rightarrow> Done (e, set_hostres a h s))"
  by (auto intro!: keeps_nextI split: next_splits)

lemma keep_networks:
  "keeps_next (\<lambda>a s. case x of (e, ds) \<Rightarrow> if e \<noteq> NNP_NO_ERROR then Done (e, s) else add_resources a ds conf s)"
  "keeps_next (\<lambda>a s. Done (devnet_destroy a s))" "keeps_next (\<lambda>a. setProperty a p v us)"
  "keeps_next (\<lambda>a s. Done (NNP_NO_ERROR, snd (infreq_destroy a s)))" "keeps_next (\<lambda>a. infreq_schedule a sp)"
proof -
  show "keeps_next (\<lambda>a s. Done (NNP_NO_ERROR, snd (infreq_destroy a s)))"
    by (rule keeps_nextI) (metis infreq_ops_next(1) outcome.inject prod.collapse snd_conv)
qed (auto intro!: keeps_nextI split: next_splits dest!: next_frame)

lemma overwrite_cmd_next [next_frame]: "overwrite_cmd err i f a s = (e, s') \<Longrightarrow> steady s s'"
  by (auto simp: overwrite_cmd_def split: next_splits dest!: next_frame)

lemma keep_lists: "keeps_next (finalize env b)" "keeps_next (\<lambda>a s. Done (cmdlist_destroy a s))"
  "keeps_next (\<lambda>a s. let cp = v in if cp = null then Done (err, s) else Done (append_cmd a (x cp s) s))"
  "keeps_next (\<lambda>a s. Done (overwrite_cmd err i (f s) a s))" "keeps_next schedule_list" "keeps_next clearErrors"
  by (auto intro!: keeps_nextI simp: Let_def split: if_splits dest!: next_frame)

text \<open>All calls that may change the state, but for the two that end the library. A new context has an empty
  object database.\<close>

inductive api_call :: "api \<Rightarrow> api \<Rightarrow> bool" where
  create_context: "cx_objdb x = objdb_new \<Longrightarrow> nnpdrvCreateInferContextWithFlags nul en ce x errs fl st = Done (e, h, st') \<Longrightarrow> api_call st st'"
| destroy_context: "nnpdrvDestroyInferContext ctx st = Done (e, st') \<Longrightarrow> api_call st st'"
| recover_context: "nnpdrvRecoverInferContext ctx st = Done (e, st') \<Longrightarrow> api_call st st'"
| trace: "nnpdrvInferContextTraceUserData ctx key v st = Done (e, st') \<Longrightarrow> api_call st st'"
| create_hostres: "nnpdrvCreateHostResource nul sz u rc kmd adr st = Done (e, h, st') \<Longrightarrow> api_call st st'"
| create_hostres_buf: "nnpdrvCreateHostResourceFromBuf buf nul sz u rc kmd st = Done (e, h, st') \<Longrightarrow> api_call st st'"
| destroy_hostres: "nnpdrvDestroyHostResource hr st = (e, st') \<Longrightarrow> api_call st st'"
| lock_hostres: "nnpdrvLockHostResource hr us rs st = Done (e, st') \<Longrightarrow> api_call st st'"
| unlock_hostres: "nnpdrvUnlockHostResource hr r st = Done (e, st') \<Longrightarrow> api_call st st'"
| create_devres: "nnpdrvCreateDeviceResourceFIFO nul ctx sz d al u junk st = Done (e, h, st') \<Longrightarrow> api_call st st'"
| destroy_devres: "nnpdrvDestroyDeviceResource dr st = Done (e, st') \<Longrightarrow> api_call st st'"
| mark_devres: "nnpdrvMarkDeviceResourceDirty dr st = Done (e, st') \<Longrightarrow> api_call st st'"
| create_copy: "createCopyCommand nul ctx hr dr b mr en st = Done (e, h, st') \<Longrightarrow> api_call st st'"
| create_d2d: "createDeviceToDeviceCopyCommand nul ctx dst src pj st = Done (e, h, st') \<Longrightarrow> api_call st st'"
| destroy_copy: "nnpdrvDestroyCopyHandle cp st = Done (e, st') \<Longrightarrow> api_call st st'"
| schedule_copy: "nnpdrvScheduleCopy cp sz p st = Done (e, st') \<Longrightarrow> api_call st st'"
| create_network: "nnpdrvCreateDeviceNetworkWithResources nul ctx hs conf st = Done (e, h, st') \<Longrightarrow> api_call st st'"
| add_resources: "nnpdrvDeviceNetworkAddResources dn hs conf st = Done (e, st') \<Longrightarrow> api_call st st'"
| destroy_network: "nnpdrvDestroyDeviceNetwork dn st = Done (e, st') \<Longrightarrow> api_call st st'"
| set_property: "nnpdrvDeviceSetNetworkProperty dn k v us st = Done (e, st') \<Longrightarrow> api_call st st'"
| reserve: "nnpdrvDeviceNetworkReserveExecResources dn us st = Done (e, st') \<Longrightarrow> api_call st st'"
| release: "nnpdrvDeviceNetworkReleaseExecResources dn st = Done (e, st') \<Longrightarrow> api_call st st'"
| create_infreq: "nnpdrvCreateInferRequest nul dn cd n ins outs st = Done (e, h, st') \<Longrightarrow> api_call st st'"
| destroy_infreq: "nnpdrvDestroyInferRequest q st = Done (e, st') \<Longrightarrow> api_call st st'"
| schedule_infreq: "nnpdrvScheduleInferReq q sp st = Done (e, st') \<Longrightarrow> api_call st st'"
| get_marker: "nnpdrvGetMarker ctx st = Done (e, mk, st') \<Longrightarrow> api_call st st'"
| wait_marker: "nnpdrvWaitForMarker ctx mk us n st = Done (e, st') \<Longrightarrow> api_call st st'"
| finish: "nnpdrvFinish ctx st = Done (e, st') \<Longrightarrow> api_call st st'"
| critical_error: "nnpdrvWaitForCriticalError ctx us n out st = Done (e, out', st') \<Longrightarrow> api_call st st'"
| create_list: "nnpdrvCreateCommandListBegin ctx st = Done (e, h, st') \<Longrightarrow> api_call st st'"
| end_list: "nnpdrvCreateCommandListEnd nb env cl st = Done (e, st') \<Longrightarrow> api_call st st'"
| destroy_list: "nnpdrvDestroyCommandList cl st = Done (e, st') \<Longrightarrow> api_call st st'"
| append_copy: "nnpdrvCommandListAppendCopy cl cp sz p u st = Done (e, st') \<Longrightarrow> api_call st st'"
| append_infreq: "nnpdrvCommandListAppendInferRequest cl q sp st = Done (e, st') \<Longrightarrow> api_call st st'"
| overwrite_copy: "nnpdrvCommandListOverwriteCopy cl i sz p u st = Done (e, st') \<Longrightarrow> api_call st st'"
| overwrite_infreq: "nnpdrvCommandListOverwriteInferRequest cl i sp st = Done (e, st') \<Longrightarrow> api_call st st'"
| schedule_list: "nnpdrvScheduleCommandList cl st = Done (e, st') \<Longrightarrow> api_call st st'"
| wait_list: "nnpdrvWaitCommandList cl us n es k st = Done (e, r, st') \<Longrightarrow> api_call st st'"
| clear_list: "nnpdrvCommandListClearErrorState cl st = Done (e, st') \<Longrightarrow> api_call st st'"

lemma on_obj_calls:
  assumes "api_ok st"
  shows "nnpdrvRecoverInferContext ctx st = Done (e, st') \<Longrightarrow> api_ok st'"
    "nnpdrvInferContextTraceUserData ctx key v st = Done (e, st') \<Longrightarrow> api_ok st'"
    "nnpdrvLockHostResource hr us rs st = Done (e, st') \<Longrightarrow> api_ok st'"
    "nnpdrvUnlockHostResource hr r st = Done (e, st') \<Longrightarrow> api_ok st'"
    "nnpdrvMarkDeviceResourceDirty dr st = Done (e, st') \<Longrightarrow> api_ok st'"
    "nnpdrvScheduleCopy cp sz p st = Done (e, st') \<Longrightarrow> api_ok st'"
    "nnpdrvDeviceNetworkAddResources dn hs conf st = Done (e, st') \<Longrightarrow> api_ok st'"
    "nnpdrvDeviceSetNetworkProperty dn k pv us st = Done (e, st') \<Longrightarrow> api_ok st'"
    "nnpdrvDeviceNetworkReserveExecResources dn us st = Done (e, st') \<Longrightarrow> api_ok st'"
    "nnpdrvDeviceNetworkReleaseExecResources dn st = Done (e, st') \<Longrightarrow> api_ok st'"
    "nnpdrvScheduleInferReq q sp st = Done (e, st') \<Longrightarrow> api_ok st'"
    "nnpdrvWaitForMarker ctx mk us n st = Done (e, st') \<Longrightarrow> api_ok st'"
  unfolding nnpdrvRecoverInferContext_def nnpdrvInferContextTraceUserData_def nnpdrvLockHostResource_def
    nnpdrvUnlockHostResource_def nnpdrvMarkDeviceResourceDirty_def nnpdrvScheduleCopy_def
    nnpdrvDeviceNetworkAddResources_def nnpdrvDeviceSetNetworkProperty_def
    nnpdrvDeviceNetworkReserveExecResources_def nnpdrvDeviceNetworkReleaseExecResources_def
    nnpdrvScheduleInferReq_def nnpdrvWaitForMarker_def
  using assms
  by (auto split: if_splits elim!: on_obj_ok intro!: keep_contexts keep_resources keep_locks keep_networks)

lemma list_calls:
  assumes "api_ok st"
  shows "nnpdrvCreateCommandListEnd nb env cl st = Done (e, st') \<Longrightarrow> api_ok st'"
    "nnpdrvCommandListAppendCopy cl cp sz p u st = Done (e, st') \<Longrightarrow> api_ok st'"
    "nnpdrvCommandListAppendInferRequest cl q sp st = Done (e, st') \<Longrightarrow> api_ok st'"
    "nnpdrvCommandListOverwriteCopy cl i sz p u st = Done (e, st') \<Longrightarrow> api_ok st'"
    "nnpdrvCommandListOverwriteInferRequest cl i sp st = Done (e, st') \<Longrightarrow> api_ok st'"
    "nnpdrvScheduleCommandList cl st = Done (e, st') \<Longrightarrow> api_ok st'"
    "nnpdrvCommandListClearErrorState cl st = Done (e, st') \<Longrightarrow> api_ok st'"
  unfolding nnpdrvCreateCommandListEnd_def nnpdrvCommandListAppendCopy_def nnpdrvCommandListAppendInferRequest_def
    nnpdrvCommandListOverwriteCopy_def nnpdrvCommandListOverwriteInferRequest_def nnpdrvScheduleCommandList_def
    nnpdrvCommandListClearErrorState_def
  using assms by (auto elim!: on_obj_ok intro!: keep_lists)

lemma destroy_calls:
  assumes "api_ok st"
  shows "nnpdrvDestroyInferContext ctx st = Done (e, st') \<Longrightarrow> api_ok st'"
    "nnpdrvDestroyDeviceResource dr st = Done (e, st') \<Longrightarrow> api_ok st'"
    "nnpdrvDestroyCopyHandle cp st = Done (e, st') \<Longrightarrow> api_ok st'"
    "nnpdrvDestroyDeviceNetwork dn st = Done (e, st') \<Longrightarrow> api_ok st'"
    "nnpdrvDestroyInferRequest q st = Done (e, st') \<Longrightarrow> api_ok st'"
    "nnpdrvDestroyCommandList cl st = Done (e, st') \<Longrightarrow> api_ok st'"
    "nnpdrvDestroyHostResource hr st = (e, st') \<Longrightarrow> api_ok st'"
  unfolding nnpdrvDestroyInferContext_def nnpdrvDestroyDeviceResource_def nnpdrvDestroyCopyHandle_def
    nnpdrvDestroyDeviceNetwork_def nnpdrvDestroyInferRequest_def nnpdrvDestroyCommandList_def
    nnpdrvDestroyHostResource_def
proof -
  show "(case remove_hdl hr (a_hostres st) of (r, m) \<Rightarrow> (if r then NNP_NO_ERROR else NNP_NO_SUCH_RESOURCE, st\<lparr>a_hostres := m\<rparr>))
      = (e, st') \<Longrightarrow> api_ok st'"
    using remove_ok(2) [OF assms, of hr] by (auto split: prod.splits)
qed (auto elim!: destroy_obj_ok intro!: keep_contexts keep_resources keep_networks keep_lists assms remove_ok)

lemma out_calls:
  assumes "api_ok st"
  shows "nnpdrvGetMarker ctx st = Done (e, mk, st') \<Longrightarrow> api_ok st'"
    "nnpdrvWaitForCriticalError ctx us n out st = Done (e, out', st') \<Longrightarrow> api_ok st'"
    "nnpdrvWaitCommandList cl us n es k st = Done (e, r, st') \<Longrightarrow> api_ok st'"
  unfolding nnpdrvGetMarker_def nnpdrvWaitForCriticalError_def nnpdrvWaitCommandList_def on_obj_out_def
  using assms
  by (auto split: if_splits prod.splits elim!: obind_DoneE dest!: next_frame intro!: api_ok_proc)

lemma finish_call:
  assumes "nnpdrvFinish ctx st = Done (e, st')" "api_ok st"
  shows "api_ok st'"
proof -
  obtain e1 mk st1 where m: "nnpdrvGetMarker ctx st = Done (e1, mk, st1)"
    and rest: "(if e1 \<noteq> NNP_NO_ERROR then Done (e1, st1) else nnpdrvWaitForMarker ctx (the mk) UINT32_MAX 0 st1) = Done (e, st')"
    using assms(1) by (auto simp: nnpdrvFinish_def elim!: obind_DoneE)
  have "api_ok st1" by (rule out_calls(1) [OF assms(2) m])
  then show ?thesis using rest on_obj_calls(12) by (auto split: if_splits)
qed

lemma create_calls:
  assumes "api_ok st" "o_next (a_proc st) \<noteq> - 1"
  shows "cx_objdb x = objdb_new \<Longrightarrow> nnpdrvCreateInferContextWithFlags nul en ce x errs fl st = Done (e, h, st') \<Longrightarrow> api_ok st'"
    "publish_hostres sz u rc kmd adr own st = Done (e, h, st') \<Longrightarrow> api_ok st'"
    "nnpdrvCreateDeviceResourceFIFO nul ctx sz d al u junk st = Done (e, h, st') \<Longrightarrow> api_ok st'"
    "nnpdrvCreateDeviceNetworkWithResources nul ctx hs conf st = Done (e, h, st') \<Longrightarrow> api_ok st'"
    "nnpdrvCreateInferRequest nul dn cd n ins outs st = Done (e, h, st') \<Longrightarrow> api_ok st'"
    "nnpdrvCreateCommandListBegin ctx st = Done (e, h, st') \<Longrightarrow> api_ok st'"
proof -
  have active: "api_ok (st\<lparr>a_active := act\<rparr>)" "api_ok (s\<lparr>a_atexit_installed := b\<rparr>) = api_ok s" for act s b
    using assms(1) by (simp_all add: api_ok_def Let_def tables_apart_def tables_def)
  show "nnpdrvCreateInferContextWithFlags nul en ce x errs fl st = Done (e, h, st') \<Longrightarrow> api_ok st'" if "cx_objdb x = objdb_new"
    unfolding nnpdrvCreateInferContextWithFlags_def Let_def
    using assms(1)
    by (auto simp: assms(2) active split: if_splits elim!: obind_DoneE publish_ok
        intro!: put_ok assms api_okD [OF assms(1)] dest!: context_new_allocates [OF that]) blast+
  show "publish_hostres sz u rc kmd adr own st = Done (e, h, st') \<Longrightarrow> api_ok st'"
    unfolding publish_hostres_def
    using assms(1)
    by (auto simp: assms(2) new_addr_grown split: if_splits elim!: publish_ok intro!: put_ok assms api_okD [OF assms(1)])
  show "nnpdrvCreateDeviceResourceFIFO nul ctx sz d al u junk st = Done (e, h, st') \<Longrightarrow> api_ok st'"
    unfolding nnpdrvCreateDeviceResourceFIFO_def Let_def
    using assms(1)
    by (auto simp: assms(2) split: if_splits elim!: obind_DoneE publish_ok
        intro!: put_ok assms api_okD [OF assms(1)] dest!: devres_create_allocates)
  show "nnpdrvCreateDeviceNetworkWithResources nul ctx hs conf st = Done (e, h, st') \<Longrightarrow> api_ok st'"
    unfolding nnpdrvCreateDeviceNetworkWithResources_def Let_def
    using assms(1)
    by (auto simp: assms(2) split: if_splits prod.splits elim!: obind_DoneE publish_ok
        intro!: put_ok assms api_okD [OF assms(1)] dest!: devnet_create_allocates)
  show "nnpdrvCreateInferRequest nul dn cd n ins outs st = Done (e, h, st') \<Longrightarrow> api_ok st'"
    unfolding nnpdrvCreateInferRequest_def Let_def
    using assms(1)
    by (auto simp: assms(2) split: if_splits option.splits elim!: obind_DoneE publish_ok
        intro!: put_ok assms api_okD [OF assms(1)] dest!: infreq_create_allocates)
  show "nnpdrvCreateCommandListBegin ctx st = Done (e, h, st') \<Longrightarrow> api_ok st'"
    unfolding nnpdrvCreateCommandListBegin_def Let_def
    using assms(1)
    by (auto simp: assms(2) split: if_splits prod.splits elim!: publish_ok
        intro!: put_ok assms api_okD [OF assms(1)] dest!: cmdlist_create_allocates)
qed

lemma copy_calls:
  assumes "api_ok st" "o_next (a_proc st) \<noteq> - 1"
  shows "createCopyCommand nul ctx hr dr b mr en st = Done (e, h, st') \<Longrightarrow> api_ok st'"
    "createDeviceToDeviceCopyCommand nul ctx dst src pj st = Done (e, h, st') \<Longrightarrow> api_ok st'"
proof -
  show "createCopyCommand nul ctx hr dr b mr en st = Done (e, h, st') \<Longrightarrow> api_ok st'"
    unfolding createCopyCommand_def publish_copy_def Let_def using assms(1)
    by (auto simp: assms(2) split: if_splits elim!: obind_DoneE publish_ok
        intro!: put_ok assms api_okD [OF assms(1)] dest!: copy_create_allocates)
  show "createDeviceToDeviceCopyCommand nul ctx dst src pj st = Done (e, h, st') \<Longrightarrow> api_ok st'"
    unfolding createDeviceToDeviceCopyCommand_def publish_copy_def Let_def using assms(1)
    by (auto simp: assms(2) split: if_splits elim!: obind_DoneE publish_ok
        intro!: put_ok assms api_okD [OF assms(1)] dest!: create_d2d_allocates)
qed

lemma hostres_calls:
  assumes "api_ok st" "o_next (a_proc st) \<noteq> - 1"
  shows "nnpdrvCreateHostResource nul sz u rc kmd adr st = Done (e, h, st') \<Longrightarrow> api_ok st'"
    "nnpdrvCreateHostResourceFromBuf buf nul sz u rc kmd st = Done (e, h, st') \<Longrightarrow> api_ok st'"
  unfolding nnpdrvCreateHostResource_def nnpdrvCreateHostResourceFromBuf_def
  using assms create_calls(2) [OF assms] by (auto split: if_splits)

lemma api_call_ok: "api_call st st' \<Longrightarrow> api_ok st \<Longrightarrow> o_next (a_proc st) \<noteq> - 1 \<Longrightarrow> api_ok st'"
  by (induction rule: api_call.induct)
    (blast intro: on_obj_calls list_calls destroy_calls out_calls finish_call create_calls copy_calls hostres_calls)+

section \<open>The end of the library\<close>

text \<open>What every destroy keeps, the loop keeps, and it ends with the table empty.\<close>

lemma drain_inv:
  assumes "drain tbl destroy st = Some (Done st')" "P st"
    and "\<And>h st e st'. destroy h st = Done (e, st') \<Longrightarrow> P st \<Longrightarrow> P st'"
  shows "P st' \<and> tbl st' = []"
proof -
  have "P st' \<and> tbl st' = []" if run: "drain tbl destroy st = Some r" and "r = Done st'" "P st" for r
  proof (rule drain.raw_induct [where P = "\<lambda>t d st r. t = tbl \<longrightarrow> d = destroy \<longrightarrow> (\<forall>st'. r = Done st' \<longrightarrow> P st \<longrightarrow> P st' \<and> tbl st' = [])",
        OF _ run, rule_format, OF _ refl refl that(2,3)])
    fix drn t d st r st'
    assume IH: "\<And>t d st y st'. drn t d st = Some y \<Longrightarrow> t = tbl \<Longrightarrow> d = destroy \<Longrightarrow> y = Done st' \<Longrightarrow> P st \<Longrightarrow>
        P st' \<and> tbl st' = []"
      and body: "(case get_first (t st) of None \<Rightarrow> Some (Done st)
         | Some h \<Rightarrow> (case d h st of Waits \<Rightarrow> Some Waits | Loops \<Rightarrow> Some Loops | Undefined \<Rightarrow> Some Undefined
             | Done (e, st1) \<Rightarrow> drn t d st1)) = Some r"
      and eq: "t = tbl" "d = destroy" "r = Done st'" and ok: "P st"
    show "P st' \<and> tbl st' = []"
    proof (cases "get_first (tbl st)")
      case None
      then show ?thesis using body eq ok by (auto simp: get_first_def split: list.splits)
    next
      case (Some h)
      then obtain e st1 where "destroy h st = Done (e, st1)" "drn t d st1 = Some r"
        using body eq by (auto split: outcome.splits)
      then show ?thesis using IH eq ok assms(3) by blast
    qed
  qed
  then show ?thesis using assms(1,2) by blast
qed

lemma kill_all_next:
  assumes "kill_all force umd cs s = Some (Done s')"
  shows "steady s s'"
proof -
  have "steady s s'" if run: "kill_all force umd cs s = Some r" and "r = Done s'" for r
  proof (rule kill_all.raw_induct [where P = "\<lambda>f u cs s r. r = Done s' \<longrightarrow> steady s s'", OF _ run, rule_format, OF _ that(2)])
    fix kill f u cs s r
    assume IH: "\<And>f u cs s y. kill f u cs s = Some y \<Longrightarrow> y = Done s' \<Longrightarrow> steady s s'"
      and body: "(case find (to_kill f s) cs of None \<Rightarrow> Some (Done s)
         | Some c \<Rightarrow> (case chan_kill c u s of Waits \<Rightarrow> Some Waits | Loops \<Rightarrow> Some Loops | Undefined \<Rightarrow> Some Undefined
             | Done s1 \<Rightarrow> kill f u cs s1)) = Some r"
      and eq: "r = Done s'"
    show "steady s s'"
    proof (cases "find (to_kill f s) cs")
      case None
      then show ?thesis using body eq by simp
    next
      case (Some c)
      then obtain s1 where "chan_kill c u s = Done s1" "kill f u cs s1 = Some r"
        using body eq by (auto split: outcome.splits)
      then show ?thesis using IH eq chan_kill_next by metis
    qed
  qed
  then show ?thesis using assms by blast
qed

lemma of_loop_Done: "of_loop r = Done x \<longleftrightarrow> r = Some (Done x)"
  by (auto simp: of_loop_def split: option.splits)

lemma close_all_next [next_frame]: "close_all act s = Done s' \<Longrightarrow> steady s s'"
  "wait_all act s = Done s' \<Longrightarrow> steady s s'"
  by (auto simp: close_all_def wait_all_def of_loop_Done dest: kill_all_next split: option.splits if_splits
      elim!: obind_DoneE)

lemma api_ok_cleared:
  assumes "api_ok st"
  shows "api_ok (st\<lparr>a_hostres := clear_hdl (a_hostres st)\<rparr>)"
  using assms by (simp add: api_ok_def Let_def tables_apart_def tables_def clear_hdl_def)

lemma fin_ok:
  assumes "nnpdrvFin st = Done st'" "api_ok st"
  shows "api_ok st'"
proof -
  obtain st1 st2 st3 st4 st5 st6 s where
    d: "drain a_cmdlists nnpdrvDestroyCommandList st = Some (Done st1)"
    "drain a_infreqs nnpdrvDestroyInferRequest st1 = Some (Done st2)"
    "drain a_networks nnpdrvDestroyDeviceNetwork st2 = Some (Done st3)"
    "drain a_copy nnpdrvDestroyCopyHandle st3 = Some (Done st4)"
    "drain a_devres nnpdrvDestroyDeviceResource st4 = Some (Done st5)"
    "drain a_contexts nnpdrvDestroyInferContext (st5\<lparr>a_hostres := clear_hdl (a_hostres st5)\<rparr>) = Some (Done st6)"
    and s: "wait_all (a_active st6) (a_proc st6) = Done s" "st' = st6\<lparr>a_proc := s\<rparr>"
    using assms(1) unfolding nnpdrvFin_def by (auto simp: of_loop_Done elim!: obind_DoneE)
  have "api_ok st1" using drain_inv [where P = api_ok, OF d(1) assms(2)] destroy_calls(6) by blast
  then have "api_ok st2" using drain_inv [where P = api_ok, OF d(2)] destroy_calls(5) by blast
  then have "api_ok st3" using drain_inv [where P = api_ok, OF d(3)] destroy_calls(4) by blast
  then have "api_ok st4" using drain_inv [where P = api_ok, OF d(4)] destroy_calls(3) by blast
  then have "api_ok st5" using drain_inv [where P = api_ok, OF d(5)] destroy_calls(2) by blast
  then have "api_ok st6" using drain_inv [where P = api_ok, OF d(6) api_ok_cleared] destroy_calls(1) by blast
  then show ?thesis unfolding s(2) by (rule api_ok_proc) (rule close_all_next(2) [OF s(1)])
qed

lemma fork_ok:
  assumes "nnpiForkChildInferenceReset st = Done st'" "api_ok st"
  shows "api_ok st' \<and> tables st' = replicate 7 []"
  using assms
  by (auto simp: nnpiForkChildInferenceReset_def api_ok_def Let_def tables_apart_def tables_def clear_hdl_def
      numeral_eq_Suc dest!: next_frame elim!: obind_DoneE)

section \<open>Typed handles\<close>

text \<open>
  The calls of a process, and between them whatever the card sends and the response threads do with
  it. Allocation gives addresses that were not used before, as long as there are any left: after
  \<open>2 ^ 64 - 1\<close> objects there would be none.
\<close>

inductive api_runs :: "api \<Rightarrow> api \<Rightarrow> bool" where
  start: "api_runs st st"
| call: "api_runs st0 st \<Longrightarrow> o_next (a_proc st) \<noteq> - 1 \<Longrightarrow> api_call st st' \<Longrightarrow> api_runs st0 st'"
| arrive: "api_runs st0 st \<Longrightarrow>
    api_runs st0 (st\<lparr>a_proc := upd_chan c (\<lambda>ch. ch\<lparr>ch_inbox := items\<rparr>) (a_proc st)\<rparr>)"
| respond: "api_runs st0 st \<Longrightarrow> handle_next c (a_proc st) = Done s \<Longrightarrow> api_runs st0 (st\<lparr>a_proc := s\<rparr>)"
| fork: "api_runs st0 st \<Longrightarrow> nnpiForkChildInferenceReset st = Done st' \<Longrightarrow> api_runs st0 st'"
| fin: "api_runs st0 st \<Longrightarrow> nnpdrvFin st = Done st' \<Longrightarrow> api_runs st0 st'"

lemma api_runs_ok: "api_runs st0 st \<Longrightarrow> api_ok st0 \<Longrightarrow> api_ok st"
proof (induction rule: api_runs.induct)
  case (respond st0 st c s)
  then show ?case using api_ok_proc [OF _ stays_next [OF handle_next_quiet]] by metis
qed (auto dest: api_call_ok fin_ok fork_ok intro!: api_ok_proc)

text \<open>A process that has no object of any kind.\<close>

definition no_objects :: "api \<Rightarrow> bool" where
  "no_objects st \<longleftrightarrow> tables st = replicate 7 [] \<and> o_next (a_proc st) \<noteq> null
     \<and> (\<forall>c. cx_objdb (p_ctxs (a_proc st) c) = objdb_new)"

lemma api_ok_empty: "no_objects st \<Longrightarrow> api_ok st"
  by (simp add: no_objects_def api_ok_def Let_def tables_apart_def tables_def numeral_eq_Suc names_ok_def)

lemma tables_ok: "api_ok st \<Longrightarrow> i < 7 \<Longrightarrow> tbl_ok (o_next (a_proc st)) (tables st ! i)"
  using api_okD(1-7) [of st] by (auto simp: tables_def nth_Cons split: nat.splits)

lemma find_hdl_SomeD: "find_hdl h m \<noteq> null \<Longrightarrow> map_of m h = Some (find_hdl h m)"
  by (auto simp: find_hdl_def split: option.splits)

text \<open>A process that has no objects, for an example.\<close>

definition no_handles :: api where
  "no_handles = \<lparr>a_proc = sample_proc (\<lambda>_. 0) [], a_contexts = [], a_hostres = [], a_devres = [], a_copy = [],
     a_networks = [], a_infreqs = [], a_cmdlists = [], a_active = None, a_atexit_installed = False\<rparr>"

lemma one_hostres:
  "\<exists>st'. nnpdrvCreateHostResource False 64 3 0 7 4096 no_handles = Done (NNP_NO_ERROR, Some 100, st')
     \<and> a_hostres st' = [(100, 100)]"
  by (simp add: nnpdrvCreateHostResource_def publish_hostres_def publish_def no_handles_def sample_proc_def
      new_addr_def makeHandle_def probe_free has_flag_def)

lemma replicate_7: "replicate 7 x = [x, x, x, x, x, x, x]"
  by (simp add: numeral_eq_Suc)

lemma no_handles_empty: "no_objects no_handles"
  by (simp add: no_objects_def tables_def no_handles_def sample_proc_def sample_ctx_def inf_context_new_def replicate_7)



end
