(* ===== verification/Channel_Life.thy ===== *)
theory Channel_Life
  imports Device_Table Sample
begin

text \<open>
  The life of a channel: what \<open>nnpiChannel::create\<close> takes, \<open>~nnpiChannel\<close> gives back (\<open>nnpiChannel.cpp\<close>).
\<close>

lemma omap_erase_update: "omap_ok m \<Longrightarrow> k \<notin> fst ` set m \<Longrightarrow> omap_erase k (omap_update k v m) = m"
  by (induction k v m rule: omap_update.induct) auto

lemma active_remove_add:
  assumes "\<And>cs. act = Some cs \<Longrightarrow> sorted cs \<and> c \<notin> set cs \<and> cs \<noteq> []"
  shows "active_remove c (active_add c act) = act"
proof (cases act)
  case None
  then show ?thesis by (simp add: active_add_def active_remove_def)
next
  case (Some cs)
  then have cs: "sorted cs" "c \<notin> set cs" "cs \<noteq> []" using assms by blast+
  have "removeAll c (insort c cs) = cs" using cs(2) by (induction cs) auto
  then show ?thesis using cs by (simp add: Some active_add_def active_remove_def insort_insert_key_def)
qed

text \<open>The ring buffers of a channel are two and two.\<close>

definition rings_ok :: "channel \<Rightarrow> bool" where
  "rings_ok ch \<longleftrightarrow> length (ch_cmd_ringbufs ch) = MAX_CHANNEL_RINGBUFS \<and> length (ch_resp_ringbufs ch) = MAX_CHANNEL_RINGBUFS"

lemma deleted_rings:
  assumes "channel_delete c fd a ic errs act ds s = (act', ds', s')" "rings_ok (cx_chan (p_ctxs s c))"
  shows "ch_cmd_ringbufs (cx_chan (p_ctxs s' c)) = [None, None]" "ch_resp_ringbufs (cx_chan (p_ctxs s' c)) = [None, None]"
proof -
  obtain a0 a1 b0 b1 where r: "ch_cmd_ringbufs (cx_chan (p_ctxs s c)) = [a0, a1]" "ch_resp_ringbufs (cx_chan (p_ctxs s c)) = [b0, b1]"
    using assms(2) by (auto simp: rings_ok_def numeral_2_eq_2 length_Suc_conv)
  have "s' = fold (\<lambda>i s. snd (destroyResponseRingBuffer c i (snd (errs i))
                  (snd (destroyCommandRingBuffer c i (fst (errs i)) s)))) [0, 1] s"
    using assms(1) by (auto simp: channel_delete_def Let_def upt_rec)
  then show "ch_cmd_ringbufs (cx_chan (p_ctxs s' c)) = [None, None]" "ch_resp_ringbufs (cx_chan (p_ctxs s' c)) = [None, None]"
    using r by (auto simp: destroyResponseRingBuffer_def destroyCommandRingBuffer_def upd_chan_def upd_ctx_def)
qed

text \<open>C16: A channel gives back what it took. When a channel has been created on a device of a sound table, destroying it
  leaves the devices, with their channels, and the open descriptors as they were before, whatever the driver
  answers to the requests that destroy the ring buffers; no ring buffer is left, and the active contexts are those of
  before.
\<close>

theorem channel_life:
  assumes "dev_runs ds0 ds" "ds_vec ds0 = []" "ds_dev ds0 = (\<lambda>_. None)"
    and create: "channel_create c host (Some a) drv uid ic ev te answers inbox act ds = Done (rc, Some (ch, fd), act1, ds1)"
    and fresh: "\<forall>n q. fst (drv n q) = 0 \<longrightarrow> cc_o_fd (snd (snd (drv n q))) \<notin> ds_open ds"
    and act: "\<And>cs. act = Some cs \<Longrightarrow> sorted cs \<and> c \<notin> set cs \<and> cs \<noteq> []"
    and s: "length (ch_cmd_ringbufs (cx_chan (p_ctxs s c))) = 2" "length (ch_resp_ringbufs (cx_chan (p_ctxs s c))) = 2"
    and delete: "channel_delete c fd a ic errs act1 ds1 s = (act2, ds2, s2)"
  shows "ds2 = ds \<and> act2 = act \<and> fd \<in> ds_open ds1 - ds_open ds
    \<and> ch_cmd_ringbufs (cx_chan (p_ctxs s2 c)) = [None, None] \<and> ch_resp_ringbufs (cx_chan (p_ctxs s2 c)) = [None, None]"
proof -
  have ok: "devices_ok (ds_open ds0) ds" by (rule dev_runs_ok [OF assms(1) no_devices_ok [OF assms(2,3)]])
  have "\<exists>d. ds_dev ds a = Some d \<and> fd \<notin> ds_open ds \<and> ds1 = with_channel fd ic a d ds
      \<and> act1 = (if ic then active_add c act else act)"
    by (rule channel_create_cases [OF create ok fresh]; cases "te = 0") auto
  then obtain d where d: "ds_dev ds a = Some d" "fd \<notin> ds_open ds" "ds1 = with_channel fd ic a d ds"
    "act1 = (if ic then active_add c act else act)" by blast
  have "dev_ok d" "fd \<notin> fst ` set (dv_chan_fds d)" using devices_okD [OF ok d(1)] d(2) by (auto simp: dev_fds_def)
  then have "omap_erase fd (omap_update fd ic (dv_chan_fds d)) = dv_chan_fds d" by (intro omap_erase_update) (simp_all add: dev_ok_def)
  then have "ds2 = ds"
    using delete d(1,2) by (auto simp: channel_delete_def Let_def d(3) closeChannel_def update_device_def close_fds_def fun_upd_idem)
  moreover have "act2 = act"
    using delete active_remove_add [OF act] by (auto simp: channel_delete_def Let_def d(4) split: if_splits)
  moreover have "fd \<in> ds_open ds1 - ds_open ds" using d(2,3) by simp
  ultimately show ?thesis using deleted_rings [OF delete] s by (simp add: rings_ok_def)
qed

text \<open>An application: a channel with descriptor 6 on device 1.\<close>

definition one_channel :: devices where
  "one_channel = one_device\<lparr>ds_dev := [0 \<mapsto> (nnpi_device_new 1 5)\<lparr>dv_chan_fds := [(6, True)]\<rparr>], ds_open := {0, 1, 2, 5, 6}\<rparr>"

abbreviation sample_driver :: "ioctl_nnpi_create_channel driver" where
  "sample_driver \<equiv> \<lambda>n r. (0, 0, r\<lparr>cc_o_fd := 6\<rparr>)"

lemma one_device_simps:
  "ds_dev one_device = [0 \<mapsto> nnpi_device_new 1 5]" "ds_open one_device = {0, 1, 2, 5}"
  by (simp_all add: one_device_def device_get_def no_devices_def weak_lock_def getBARAddr_def nnpi_device_new_def insert_commute)

lemma one_device_runs: "dev_runs no_devices one_device"
proof -
  have "device_get 1 5 (Some (0, 0)) 1 no_devices = (Some 0, one_device)"
    by (simp add: one_device_def device_get_def no_devices_def weak_lock_def getBARAddr_def)
  then show ?thesis by (rule dev_runs.get [OF dev_runs.start]) (simp add: no_devices_def)
qed

lemma one_channel_create:
  "channel_create c (Some 3) (Some 0) sample_driver 0 True True 0 (\<lambda>_. 0) [] None one_device =
      Done (0, Some (channel_new 0 (\<lambda>_. 0) [], 6), active_add c None, one_channel)"
proof -
  have "ioctl_outcome sample_driver q = Done (0, 0, q\<lparr>cc_o_fd := 6\<rparr>)" for q
    by (simp add: ioctl_outcome_def ioctl_loop.simps [of sample_driver])
  then show ?thesis
    by (simp add: channel_create_def createChannel_def one_device_simps nnpi_device_new_def ioctl_rc_def create_channel_req_def
        update_device_def one_channel_def insert_commute)
qed

theorem channel_life_witness:
  "\<exists>s2. channel_delete 1 6 0 True (\<lambda>_. (0, 5)) (Some [1]) one_channel (sample_proc (\<lambda>_. 0) []) = (None, one_device, s2)
     \<and> ch_cmd_ringbufs (cx_chan (p_ctxs s2 1)) = [None, None] \<and> 6 \<in> ds_open one_channel - ds_open one_device"
proof -
  let ?s = "sample_proc (\<lambda>_. 0) []"
  obtain act2 ds2 s2 where d: "channel_delete 1 6 0 True (\<lambda>_. (0, 5)) (active_add 1 None) one_channel ?s = (act2, ds2, s2)"
    using prod_cases3 by blast
  have "ds2 = one_device \<and> act2 = None \<and> 6 \<in> ds_open one_channel - ds_open one_device
    \<and> ch_cmd_ringbufs (cx_chan (p_ctxs s2 1)) = [None, None] \<and> ch_resp_ringbufs (cx_chan (p_ctxs s2 1)) = [None, None]"
    by (rule channel_life [OF one_device_runs _ _ one_channel_create _ _ _ _ d])
      (simp_all add: no_devices_def one_device_simps sample_defs)
  then show ?thesis using d by (simp add: active_add_def)
qed

end
