(* ===== verification/Shutdown.thy ===== *)
theory Shutdown
  imports Api_Types Channel_Life
begin

text \<open>
  The end of the process (\<open>nnpdrvAtExit\<close>, \<open>nnpiInference.cpp\<close>): the objects are destroyed, then the
  descriptors of the channels are closed. When it returns nothing is left; it does not return when an
  object cannot be destroyed.
\<close>

text \<open>The handler, installed when the first context has been created.\<close>

definition nnpdrvAtExit :: "api \<times> devices \<Rightarrow> (api \<times> devices) outcome" where
  "nnpdrvAtExit sd = obind (nnpdrvFin (fst sd)) (\<lambda>st. Done (st, clear_devices False (snd sd)))"

section \<open>When it returns\<close>

text \<open>A destroy changes one table.\<close>

lemma destroy_obj_tables:
  assumes "destroy_obj a err f remove st = Done (e, st')"
  obtains s where "st' = st\<lparr>a_proc := s\<rparr>" | s where "st' = remove (st\<lparr>a_proc := s\<rparr>)" | "st' = st" | "st' = remove st"
  using assms by (auto simp: destroy_obj_def on_obj_def on_proc_def split: if_splits elim!: obind_DoneE)

lemma destroy_keeps:
  "nnpdrvDestroyInferRequest h st = Done (e, st') \<Longrightarrow> a_cmdlists st' = a_cmdlists st"
  "nnpdrvDestroyDeviceNetwork h st = Done (e, st') \<Longrightarrow> a_cmdlists st' = a_cmdlists st \<and> a_infreqs st' = a_infreqs st"
  "nnpdrvDestroyCopyHandle h st = Done (e, st') \<Longrightarrow>
     a_cmdlists st' = a_cmdlists st \<and> a_infreqs st' = a_infreqs st \<and> a_networks st' = a_networks st"
  "nnpdrvDestroyDeviceResource h st = Done (e, st') \<Longrightarrow>
     a_cmdlists st' = a_cmdlists st \<and> a_infreqs st' = a_infreqs st \<and> a_networks st' = a_networks st \<and> a_copy st' = a_copy st"
  "nnpdrvDestroyInferContext h st = Done (e, st') \<Longrightarrow>
     a_cmdlists st' = a_cmdlists st \<and> a_infreqs st' = a_infreqs st \<and> a_networks st' = a_networks st \<and> a_copy st' = a_copy st
     \<and> a_devres st' = a_devres st \<and> a_hostres st' = a_hostres st"
  unfolding nnpdrvDestroyInferRequest_def nnpdrvDestroyDeviceNetwork_def nnpdrvDestroyCopyHandle_def
    nnpdrvDestroyDeviceResource_def nnpdrvDestroyInferContext_def
  by (erule destroy_obj_tables; simp)+

lemma fin_tables:
  assumes "nnpdrvFin st = Done st'"
  shows "tables st' = replicate 7 []"
proof -
  obtain st1 st2 st3 st4 st5 st6 s where
    d: "drain a_cmdlists nnpdrvDestroyCommandList st = Some (Done st1)"
    "drain a_infreqs nnpdrvDestroyInferRequest st1 = Some (Done st2)"
    "drain a_networks nnpdrvDestroyDeviceNetwork st2 = Some (Done st3)"
    "drain a_copy nnpdrvDestroyCopyHandle st3 = Some (Done st4)"
    "drain a_devres nnpdrvDestroyDeviceResource st4 = Some (Done st5)"
    "drain a_contexts nnpdrvDestroyInferContext (st5\<lparr>a_hostres := clear_hdl (a_hostres st5)\<rparr>) = Some (Done st6)"
    and s: "st' = st6\<lparr>a_proc := s\<rparr>"
    using assms unfolding nnpdrvFin_def by (auto simp: of_loop_Done elim!: obind_DoneE)
  have 1: "a_cmdlists st1 = []" using drain_inv [where P = "\<lambda>_. True", OF d(1)] by simp
  have 2: "a_cmdlists st2 = [] \<and> a_infreqs st2 = []"
    using drain_inv [where P = "\<lambda>s. a_cmdlists s = []", OF d(2) 1] destroy_keeps(1) by simp
  have 3: "(a_cmdlists st3 = [] \<and> a_infreqs st3 = []) \<and> a_networks st3 = []"
    by (rule drain_inv [where P = "\<lambda>s. a_cmdlists s = [] \<and> a_infreqs s = []", OF d(3) 2]) (simp add: destroy_keeps(2))
  then have 3: "a_cmdlists st3 = [] \<and> a_infreqs st3 = [] \<and> a_networks st3 = []" by simp
  have "(a_cmdlists st4 = [] \<and> a_infreqs st4 = [] \<and> a_networks st4 = []) \<and> a_copy st4 = []"
    by (rule drain_inv [where P = "\<lambda>s. a_cmdlists s = [] \<and> a_infreqs s = [] \<and> a_networks s = []", OF d(4) 3])
      (simp add: destroy_keeps(3))
  then have 4: "a_cmdlists st4 = [] \<and> a_infreqs st4 = [] \<and> a_networks st4 = [] \<and> a_copy st4 = []" by simp
  have 5: "(a_cmdlists st5 = [] \<and> a_infreqs st5 = [] \<and> a_networks st5 = [] \<and> a_copy st5 = []) \<and> a_devres st5 = []"
    by (rule drain_inv [where P = "\<lambda>s. a_cmdlists s = [] \<and> a_infreqs s = [] \<and> a_networks s = [] \<and> a_copy s = []", OF d(5) 4])
      (simp add: destroy_keeps(4))
  define P where "P = (\<lambda>s :: api. a_cmdlists s = [] \<and> a_infreqs s = [] \<and> a_networks s = [] \<and> a_copy s = [] \<and> a_devres s = []
      \<and> a_hostres s = [])"
  have "P (st5\<lparr>a_hostres := clear_hdl (a_hostres st5)\<rparr>)" using 5 by (simp add: P_def clear_hdl_def)
  then have "P st6 \<and> a_contexts st6 = []"
    by (rule drain_inv [OF d(6)]) (simp add: P_def destroy_keeps(5))
  then show ?thesis by (simp add: P_def s tables_def numeral_eq_Suc)
qed

text \<open>The descriptors of the channels of the devices in a vector.\<close>

definition channels_of :: "nat option list \<Rightarrow> devices \<Rightarrow> int set" where
  "channels_of ws ds = {fd. \<exists>a d. Some a \<in> set ws \<and> ds_dev ds a = Some d \<and> fd \<in> fst ` set (dv_chan_fds d)}"

definition no_channels :: "nat option list \<Rightarrow> devices \<Rightarrow> nat \<Rightarrow> nnpi_device option" where
  "no_channels ws ds a = (if Some a \<in> set ws then map_option (\<lambda>d. d\<lparr>dv_chan_fds := []\<rparr>) (ds_dev ds a) else ds_dev ds a)"

lemma clear_vec_closes:
  "clear_vec False ws ds = (vec, ds') \<Longrightarrow>
     ds_dev ds' = no_channels ws ds \<and> ds_open ds' = ds_open ds - channels_of ws ds \<and> ds_vec ds' = ds_vec ds
     \<and> (\<forall>w \<in> set vec. weak_lock ds w = None)"
proof (induction ws arbitrary: ds vec ds')
  case Nil
  then show ?case by (auto simp: no_channels_def channels_of_def)
next
  case (Cons w ws)
  show ?case
  proof (cases "weak_lock ds w")
    case None
    then obtain v where v: "clear_vec False ws ds = (v, ds')" "vec = w # v" using Cons.prems by (auto split: prod.splits)
    have dead: "ds_dev ds a = None" if "w = Some a" for a
      using None that by (simp add: weak_lock_def split: if_splits)
    have "no_channels (w # ws) ds = no_channels ws ds" using dead by (auto simp: no_channels_def)
    moreover have "channels_of (w # ws) ds = channels_of ws ds" using dead by (auto simp: channels_of_def)
    ultimately show ?thesis using Cons.IH [OF v(1)] v(2) None by simp
  next
    case (Some a)
    then obtain d where d: "w = Some a" "ds_dev ds a = Some d" by (auto simp: weak_lock_def split: option.splits if_splits)
    define ds1 where "ds1 = close_all_chan_fds False a d ds"
    have one: "ds_dev ds1 = (ds_dev ds)(a \<mapsto> d\<lparr>dv_chan_fds := []\<rparr>)" "ds_vec ds1 = ds_vec ds"
      "ds_open ds1 = ds_open ds - fst ` set (dv_chan_fds d)"
      by (simp_all add: ds1_def close_all_chan_fds_def update_device_def close_fds_def closed_chan_fds_def case_prod_unfold)
    have "clear_vec False ws ds1 = (vec, ds')"
      using Cons.prems Some d one(1) by (auto simp: ds1_def Let_def split: prod.splits)
    note IH = Cons.IH [OF this]
    have "no_channels ws ds1 = no_channels (w # ws) ds" using d by (auto simp: no_channels_def one(1))
    moreover have "fst ` set (dv_chan_fds d) \<union> channels_of ws ds1 = channels_of (w # ws) ds"
    proof -
      have "x \<in> channels_of ws ds1 \<longleftrightarrow>
          (\<exists>b e. b \<noteq> a \<and> Some b \<in> set ws \<and> ds_dev ds b = Some e \<and> x \<in> fst ` set (dv_chan_fds e))" for x
        unfolding channels_of_def one(1) by (auto split: if_splits)
      moreover have "x \<in> channels_of (w # ws) ds \<longleftrightarrow> x \<in> fst ` set (dv_chan_fds d) \<or>
          (\<exists>b e. b \<noteq> a \<and> Some b \<in> set ws \<and> ds_dev ds b = Some e \<and> x \<in> fst ` set (dv_chan_fds e))" for x
      proof
        assume "x \<in> channels_of (w # ws) ds"
        then obtain b e where b: "b = a \<or> Some b \<in> set ws" "ds_dev ds b = Some e" "x \<in> fst ` set (dv_chan_fds e)"
          by (auto simp: channels_of_def d(1))
        then show "x \<in> fst ` set (dv_chan_fds d) \<or>
            (\<exists>b e. b \<noteq> a \<and> Some b \<in> set ws \<and> ds_dev ds b = Some e \<and> x \<in> fst ` set (dv_chan_fds e))"
          using d(2) by (cases "b = a") auto
      next
        assume "x \<in> fst ` set (dv_chan_fds d) \<or>
            (\<exists>b e. b \<noteq> a \<and> Some b \<in> set ws \<and> ds_dev ds b = Some e \<and> x \<in> fst ` set (dv_chan_fds e))"
        then show "x \<in> channels_of (w # ws) ds" using d unfolding channels_of_def by auto
      qed
      ultimately show ?thesis by (simp only: set_eq_iff Un_iff simp_thms)
    qed
    moreover have "weak_lock ds x = None" if "weak_lock ds1 x = None" for x
      using that by (auto simp: weak_lock_def one(1) split: option.splits if_splits)
    ultimately show ?thesis using IH one by (auto simp: Diff_Un)
  qed
qed


text \<open>An application: a process with one device and a channel on it.\<close>

lemma drain_empty: "tbl st = [] \<Longrightarrow> drain tbl destroy st = Some (Done st)"
  by (subst drain.simps) (simp add: get_first_def)

lemma one_channel_runs: "dev_runs no_devices one_channel"
  by (rule dev_runs.create [OF one_device_runs one_channel_create [of 0]]) (simp add: one_device_simps)


section \<open>When it does not\<close>

text \<open>
  A list that has been finalized, is first in its table, belongs to a context without a fatal error, and
  whose channel takes no message.
\<close>

definition refused_list :: "api \<Rightarrow> bool" where
  "refused_list st \<longleftrightarrow>
     (case a_cmdlists st of [] \<Rightarrow> False
      | (h, a) # m \<Rightarrow>
          let s = a_proc st; x = p_ctxs s (lst_ctx (p_cmdlists s a))
          in a \<noteq> null \<and> lst_finalized (p_cmdlists s a) \<and> \<not> ctx_card_fatal x
             \<and> (ch_killed (cx_chan x) \<or> (\<forall>k. ch_kernel (cx_chan x) k < 0)))"

lemma refused_list_stays:
  assumes "refused_list st"
  obtains h st' where "get_first (a_cmdlists st) = Some h"
    "nnpdrvDestroyCommandList h st = Done (NNP_IO_ERROR, st')" "refused_list st'"
proof -
  obtain h a m where m: "a_cmdlists st = (h, a) # m"
    using assms by (auto simp: refused_list_def split: list.splits)
  define s where "s = a_proc st"
  define c where "c = lst_ctx (p_cmdlists s a)"
  define msg where "msg = H2C_CmdList False (chan_of c s) (lst_id (p_cmdlists s a)) True False False False 0"
  have r: "a \<noteq> null" "lst_finalized (p_cmdlists s a)" "\<not> ctx_card_fatal (p_ctxs s c)"
    "ch_killed (cx_chan (p_ctxs s c)) \<or> (\<forall>k. ch_kernel (cx_chan (p_ctxs s c)) k < 0)"
    using assms by (simp_all add: refused_list_def m s_def c_def Let_def)
  obtain ok ch where send: "chan_send msg (cx_chan (p_ctxs s c)) = (ok, ch)" by fastforce
  have "0 < msg_size msg" by (rule msg_size_pos)
  moreover have "ch_kernel (cx_chan (p_ctxs s c)) k \<noteq> msg_size msg" if "\<not> ch_killed (cx_chan (p_ctxs s c))" for k
    using r(4) that \<open>0 < msg_size msg\<close> by (metis less_asym)
  ultimately have ch: "\<not> ok" "ch_killed ch = ch_killed (cx_chan (p_ctxs s c))" "ch_kernel ch = ch_kernel (cx_chan (p_ctxs s c))"
    using send by (auto simp: chan_send_def chan_write_def sys_write_def Let_def split: if_splits)
  define s1 where "s1 = upd_chan c (\<lambda>_. ch) s"
  have "nnpdrvDestroyCommandList h st = Done (NNP_IO_ERROR, st\<lparr>a_proc := s1\<rparr>)"
    using r ch(1) send
    by (simp add: nnpdrvDestroyCommandList_def m find_hdl_def destroy_obj_def on_obj_def on_proc_def cmdlist_destroy_def
        ctx_send_def Let_def s1_def flip: s_def c_def msg_def)
  moreover have "refused_list (st\<lparr>a_proc := s1\<rparr>)"
  proof -
    have "p_cmdlists s1 = p_cmdlists s" "cx_chan (p_ctxs s1 c) = ch"
      "ctx_card_fatal (p_ctxs s1 c) = ctx_card_fatal (p_ctxs s c)"
      by (simp_all add: s1_def upd_chan_def upd_ctx_def ctx_card_fatal_def)
    then show ?thesis using r ch by (simp add: refused_list_def m Let_def flip: c_def)
  qed
  ultimately show ?thesis using that by (simp add: get_first_def m)
qed

lemma refused_list_endless:
  assumes "refused_list st"
  shows "nnpdrvAtExit (st, ds) = Loops"
proof -
  have "drain a_cmdlists nnpdrvDestroyCommandList st = None"
  proof (rule ccontr)
    assume "drain a_cmdlists nnpdrvDestroyCommandList st \<noteq> None"
    then obtain r where run: "drain a_cmdlists nnpdrvDestroyCommandList st = Some r" by blast
    show False
    proof (rule drain.raw_induct [where P = "\<lambda>t d st r. t = a_cmdlists \<longrightarrow> d = nnpdrvDestroyCommandList \<longrightarrow> refused_list st \<longrightarrow> False",
          OF _ run, rule_format, OF _ refl refl assms])
      fix drn t d st r
      assume IH: "\<And>t d st y. drn t d st = Some y \<Longrightarrow> t = a_cmdlists \<Longrightarrow> d = nnpdrvDestroyCommandList \<Longrightarrow> refused_list st \<Longrightarrow> False"
        and body: "(case get_first (t st) of None \<Rightarrow> Some (Done st)
           | Some h \<Rightarrow> (case d h st of Waits \<Rightarrow> Some Waits | Loops \<Rightarrow> Some Loops | Undefined \<Rightarrow> Some Undefined
               | Done (e, st1) \<Rightarrow> drn t d st1)) = Some r"
        and eq: "t = a_cmdlists" "d = nnpdrvDestroyCommandList" and st: "refused_list st"
      obtain h st' where "get_first (a_cmdlists st) = Some h"
        "nnpdrvDestroyCommandList h st = Done (NNP_IO_ERROR, st')" "refused_list st'"
        using refused_list_stays [OF st] .
      then show False using body IH [of t d st'] eq by simp
    qed
  qed
  then show ?thesis by (simp add: nnpdrvAtExit_def nnpdrvFin_def of_loop_def)
qed

end
