(* ===== verification/Event_Lookup.thy ===== *)
theory Event_Lookup
  imports Api_Types
begin

text \<open>
  What the ids in the card's events name. The database of a context gives for an id an object that the
  process has created in that context under that id, whatever has been called and handled before.
\<close>

section \<open>Lookups\<close>

lemma omap_get_entry: "fst (omap_get k m) \<noteq> null \<Longrightarrow> (k, fst (omap_get k m)) \<in> entries m"
  by (auto simp: omap_get_def entries_def dest: map_of_SomeD split: option.splits)

lemma each_entry_get: "each_entry P m \<Longrightarrow> fst (omap_get k m) \<noteq> null \<Longrightarrow> P k (fst (omap_get k m))"
  using omap_get_entry [of k m] unfolding each_entry_def by blast

lemma db_lookup_fst: "db_lookup c get s = (a, s') \<Longrightarrow> a = fst (get (cx_objdb (p_ctxs s c)))"
  by (auto simp: db_lookup_def split: prod.splits)

lemma lookup_named:
  assumes "names_ok s" "a \<noteq> null"
  shows "db_lookup c (getCopy i) s = (a, t) \<Longrightarrow> a < o_next s \<and> cp_id (o_copies s a) = i \<and> cp_ctx (o_copies s a) = c"
    "db_lookup c (getDevNet i) s = (a, t) \<Longrightarrow> a < o_next s \<and> dn_id (o_devnets s a) = i \<and> dn_ctx (o_devnets s a) = c"
    "db_lookup c (getInfReq j i) s = (a, t) \<Longrightarrow> a < o_next s \<and> rq_id (o_infreqs s a) = i"
    "db_lookup c (getCommandList i) s = (a, t) \<Longrightarrow>
       a < o_next s \<and> lst_id (p_cmdlists s a) = i \<and> lst_ctx (p_cmdlists s a) = c"
proof -
  let ?db = "cx_objdb (p_ctxs s c)"
  have "db_ok c s ?db" using assms(1) unfolding names_ok_def by blast
  note ok = this [unfolded db_ok_def]
  note copy = conjunct1 [OF ok] and net = conjunct1 [OF conjunct2 [OF ok]]
    and req = conjunct1 [OF conjunct2 [OF conjunct2 [OF ok]]] and lst = conjunct2 [OF conjunct2 [OF conjunct2 [OF ok]]]
  show "a < o_next s \<and> cp_id (o_copies s a) = i \<and> cp_ctx (o_copies s a) = c" if "db_lookup c (getCopy i) s = (a, t)"
    using each_entry_get [OF copy, of i] assms(2) db_lookup_fst [OF that] by (simp add: getCopy_def case_prod_unfold)
  show "a < o_next s \<and> dn_id (o_devnets s a) = i \<and> dn_ctx (o_devnets s a) = c" if "db_lookup c (getDevNet i) s = (a, t)"
    using each_entry_get [OF net, of i] assms(2) db_lookup_fst [OF that] by (simp add: getDevNet_def case_prod_unfold)
  show "a < o_next s \<and> rq_id (o_infreqs s a) = i" if "db_lookup c (getInfReq j i) s = (a, t)"
    using each_entry_get [OF req, of "(j, i)"] assms(2) db_lookup_fst [OF that] by (simp add: getInfReq_def case_prod_unfold)
  show "a < o_next s \<and> lst_id (p_cmdlists s a) = i \<and> lst_ctx (p_cmdlists s a) = c"
    if "db_lookup c (getCommandList i) s = (a, t)"
    using each_entry_get [OF lst, of i] assms(2) db_lookup_fst [OF that] by (simp add: getCommandList_def case_prod_unfold)
qed

section \<open>An example\<close>

text \<open>A context is created, which the card has acknowledged, and a command list in it.\<close>

definition acked_ctx :: inf_context where
  "acked_ctx = (sample_ctx (\<lambda>_. 8) [])\<lparr>cx_create_reply := [(request_key INF_OBJ_TYPE_CONTEXT (- 1),
     zero_report\<lparr>event_code := NNP_IPC_CREATE_CONTEXT_SUCCESS\<rparr>)]\<rparr>"

lemma context_msg_size [simp]: "msg_size (H2C_InfContext ch b d fl) = 8"
  by (simp add: msg_size_def msg_qwords_def layout_bits_def h2c_ChanInferenceContextOp_def)

lemma acked_context:
  "\<exists>s. context_new 0 0 acked_ctx [0, 0, 0] 0 (a_proc no_handles) = Done (NNP_NO_ERROR, Some 100, s)
     \<and> o_next s = 101 \<and> cx_objdb (p_ctxs s 100) = objdb_new \<and> cx_critical_error (p_ctxs s 100) = None
     \<and> cx_cmdlist_ida (p_ctxs s 100) = ida_init 0xffff"
  by (simp add: context_new_def context_create_def new_addr_def Let_def send_create_command_def upd_chan_def
      wait_create_command_def no_handles_def sample_defs acked_ctx_def ctx_send_def chan_send_def chan_write_def sys_write_def
      wait_for_now reply_ready_def obj_less_def)

lemma send_user_handle_fields:
  "cx_objdb (p_ctxs (snd (send_user_handle c t i j h s)) d) = cx_objdb (p_ctxs s d)"
  "cx_critical_error (p_ctxs (snd (send_user_handle c t i j h s)) d) = cx_critical_error (p_ctxs s d)"
  "cx_cmdlist_ida (p_ctxs (snd (send_user_handle c t i j h s)) d) = cx_cmdlist_ida (p_ctxs s d)"
  by (cases "d = c"; simp add: send_user_handle_def ctx_send_def upd_chan_def split: prod.splits)+

lemma one_context:
  "\<exists>st. nnpdrvCreateInferContextWithFlags False 0 0 acked_ctx [0, 0, 0] 0 no_handles = Done (NNP_NO_ERROR, Some 100, st)
     \<and> a_contexts st = [(100, 100)] \<and> a_cmdlists st = [] \<and> o_next (a_proc st) = 101
     \<and> cx_objdb (p_ctxs (a_proc st) 100) = objdb_new \<and> cx_critical_error (p_ctxs (a_proc st) 100) = None
     \<and> cx_cmdlist_ida (p_ctxs (a_proc st) 100) = ida_init 0xffff"
proof -
  obtain s where new: "context_new 0 0 acked_ctx [0, 0, 0] 0 (a_proc no_handles) = Done (NNP_NO_ERROR, Some 100, s)"
    and f: "o_next s = 101" "cx_objdb (p_ctxs s 100) = objdb_new" "cx_critical_error (p_ctxs s 100) = None"
      "cx_cmdlist_ida (p_ctxs s 100) = ida_init 0xffff" using acked_context by blast
  have n: "o_next (a_proc no_handles) = 100" "a_contexts no_handles = []" "a_cmdlists no_handles = []"
    by (simp_all add: no_handles_def sample_proc_def)
  show ?thesis
    by (simp add: nnpdrvCreateInferContextWithFlags_def publish_def new n makeHandle_def probe_free f send_user_handle_fields)
qed

lemma one_list:
  "\<exists>st. api_runs no_handles st \<and> a_cmdlists st = [(101, 101)]
     \<and> (\<exists>t. db_lookup 100 (getCommandList 0) (a_proc st) = (101, t))"
proof -
  obtain st where ctx: "nnpdrvCreateInferContextWithFlags False 0 0 acked_ctx [0, 0, 0] 0 no_handles
      = Done (NNP_NO_ERROR, Some 100, st)"
    and f: "a_contexts st = [(100, 100)]" "a_cmdlists st = []" "o_next (a_proc st) = 101"
      "cx_objdb (p_ctxs (a_proc st) 100) = objdb_new" "cx_critical_error (p_ctxs (a_proc st) 100) = None"
      "cx_cmdlist_ida (p_ctxs (a_proc st) 100) = ida_init 0xffff" using one_context by blast
  have runs: "api_runs no_handles st"
    by (rule api_runs.call [OF api_runs.start _ create_context [OF _ ctx]])
      (simp_all add: no_handles_def sample_defs acked_ctx_def)
  obtain st' where lst: "nnpdrvCreateCommandListBegin 100 st = Done (NNP_NO_ERROR, Some 101, st')"
    and g: "a_cmdlists st' = [(101, 101)]" "\<exists>t. db_lookup 100 (getCommandList 0) (a_proc st') = (101, t)"
    by (simp add: nnpdrvCreateCommandListBegin_def f find_hdl_def cmdlist_create_def ctx_broken_def ida_alloc_def ida_init_def
        new_addr_def publish_def makeHandle_def probe_free db_lookup_def getCommandList_def upd_db_def upd_list_def
        insertCommandList_def objdb_new_def omap_get_def)
  have "api_runs no_handles st'" by (rule api_runs.call [OF runs _ create_list [OF lst]]) (simp add: f)
  then show ?thesis using g by blast
qed

section \<open>Lookups of a running process\<close>



end
